theory Spec2Isabelle
  imports Main "HOL-Library.Sublist"
begin

section \<open>Errors\<close>

text \<open>
  The TypeScript sources throw four kinds of exception: \<open>CodeParsingError\<close>,
  \<open>CodeParserImplError\<close>, the plain \<open>Error\<close>, and the \<open>TypeError\<close> that the
  JavaScript runtime raises when a property of \<open>undefined\<close> is read. Every throw of
  the sources is a branch of the model that returns \<open>Inl\<close> of one of these; the
  message is kept up to its static text.
\<close>

datatype error =
    CodeParsingError string
  | CodeParserImplError string
  | Error string
  | TypeError string

section \<open>Stream matchers\<close>

subsection \<open>ExpressionMatcher and StringExpressionMatcher\<close>

text \<open>
  \<open>expressions: Record<string, T>\<close> is modelled by the list of its entries in the
  iteration order of \<open>Object.entries\<close>; the keys of a JavaScript object are pairwise
  distinct. \<open>potentialMatches: Record<string, number[]>\<close> is a map from keys to
  progress arrays. The two classes differ in the pattern type (\<open>number[]\<close>, here
  \<open>int list\<close>, against \<open>string\<close>), in the validation routine and in the length check
  of \<open>StringExpressionMatcher.next\<close>; the matching loop is the same text in both.
\<close>

record 'a matcher =
  expressions :: "(string \<times> 'a list) list"
  potentialMatches :: "string \<Rightarrow> nat list option"

text \<open>\<open>ExpressionMatcher.isSuffix(seqA, seqB)\<close>: is \<open>seqB\<close> a suffix of \<open>seqA\<close>.\<close>

definition isSuffix :: "int list \<Rightarrow> int list \<Rightarrow> bool" where
  "isSuffix seqA seqB =
     (if length seqB > length seqA then False
      else list_all (\<lambda>i. seqA ! (length seqA - i) = seqB ! (length seqB - i))
             [1..<length seqB + 1])"

text \<open>\<open>String.prototype.endsWith\<close>.\<close>

definition endsWith :: "string \<Rightarrow> string \<Rightarrow> bool" where
  "endsWith strA strB =
     (length strB \<le> length strA \<and> drop (length strA - length strB) strA = strB)"

text \<open>The double loop \<open>for i, for j, if (i === j) continue\<close> of both validations.\<close>

definition existsPair :: "('a \<Rightarrow> 'a \<Rightarrow> bool) \<Rightarrow> 'a list \<Rightarrow> bool" where
  "existsPair P values =
     list_ex (\<lambda>i. list_ex (\<lambda>j. i \<noteq> j \<and> P (values ! i) (values ! j)) [0..<length values])
       [0..<length values]"

definition ExpressionMatcher_validateExpressions ::
  "(string \<times> int list) list \<Rightarrow> error + unit" where
  "ExpressionMatcher_validateExpressions exprs =
     (let values = map snd exprs in
      if length values = 0 then Inl (Error ''Must have some expression to match.'')
      else if list_ex (\<lambda>v. length v = 0) values
        then Inl (Error ''Matching sequences must be non-empty.'')
      else if existsPair isSuffix values then Inl (Error ''Ambiguous expressions'')
      else if length (remdups values) \<noteq> length values
        then Inl (Error ''Duplicate matching sequences are not allowed.'')
      else Inr ())"

definition StringExpressionMatcher_validateExpressions ::
  "(string \<times> string) list \<Rightarrow> error + unit" where
  "StringExpressionMatcher_validateExpressions exprs =
     (let values = map snd exprs in
      if length values = 0 then Inl (Error ''Must have some expression to match.'')
      else if list_ex (\<lambda>v. length v = 0) values
        then Inl (Error ''Matching strings must be non-empty.'')
      else if existsPair endsWith values then Inl (Error ''Ambiguous expressions'')
      else Inr ())"

text \<open>The constructors: validate, store the expressions, give every key the empty array.\<close>

definition initialMatches :: "(string \<times> 'a list) list \<Rightarrow> string \<Rightarrow> nat list option" where
  "initialMatches exprs = map_of (map (\<lambda>(key, expr). (key, [])) exprs)"

definition ExpressionMatcher_new :: "(string \<times> int list) list \<Rightarrow> error + int matcher" where
  "ExpressionMatcher_new exprs =
     (case ExpressionMatcher_validateExpressions exprs of
        Inl e \<Rightarrow> Inl e
      | Inr _ \<Rightarrow> Inr \<lparr>expressions = exprs, potentialMatches = initialMatches exprs\<rparr>)"

definition StringExpressionMatcher_new ::
  "(string \<times> string) list \<Rightarrow> error + char matcher" where
  "StringExpressionMatcher_new exprs =
     (case StringExpressionMatcher_validateExpressions exprs of
        Inl e \<Rightarrow> Inl e
      | Inr _ \<Rightarrow> Inr \<lparr>expressions = exprs, potentialMatches = initialMatches exprs\<rparr>)"

text \<open>
  The inner loop of \<open>next\<close> runs over the progress array from its last index down to 0,
  so \<open>scanProgresses\<close> takes the array reversed. A progress that matches is advanced
  and kept, unless it completes the expression; then it is removed and \<open>matched\<close> is
  set, and a second completion on the same symbol throws. A progress that does not
  match is removed. Reading \<open>expr[p]\<close> beyond the end gives \<open>undefined\<close>, which equals
  no symbol. The result array is in the original order.
\<close>

definition multipleMatches :: error where
  "multipleMatches = Error ''Multiple matches detected''"

fun scanProgresses ::
  "'a \<Rightarrow> 'a list \<Rightarrow> string \<Rightarrow> nat list \<Rightarrow> string option
     \<Rightarrow> error + (nat list \<times> string option)" where
  "scanProgresses symb expr key [] matched = Inr ([], matched)"
| "scanProgresses symb expr key (p # ps) matched =
     (if p < length expr \<and> symb = expr ! p then
        (if p + 1 = length expr then
           (if matched \<noteq> None then Inl multipleMatches
            else scanProgresses symb expr key ps (Some key))
         else (case scanProgresses symb expr key ps matched of
                 Inl e \<Rightarrow> Inl e
               | Inr (kept, m) \<Rightarrow> Inr (kept @ [p + 1], m)))
      else scanProgresses symb expr key ps matched)"

text \<open>The outer loop of \<open>next\<close> over \<open>Object.entries(this.expressions)\<close>.\<close>

fun nextEntries ::
  "'a \<Rightarrow> (string \<times> 'a list) list \<Rightarrow> (string \<Rightarrow> nat list option) \<Rightarrow> string option
     \<Rightarrow> error + (string option \<times> (string \<Rightarrow> nat list option))" where
  "nextEntries symb [] pm matched = Inr (matched, pm)"
| "nextEntries symb ((key, expr) # rest) pm matched =
     (case pm key of
        None \<Rightarrow> Inl (TypeError ''progresses is undefined'')
      | Some progresses \<Rightarrow>
          (case scanProgresses symb expr key (rev (progresses @ [0])) matched of
             Inl e \<Rightarrow> Inl e
           | Inr (kept, m) \<Rightarrow> nextEntries symb rest (pm(key \<mapsto> kept)) m))"

definition ExpressionMatcher_next ::
  "int \<Rightarrow> int matcher \<Rightarrow> error + (string option \<times> int matcher)" where
  "ExpressionMatcher_next num m =
     (case nextEntries num (expressions m) (potentialMatches m) None of
        Inl e \<Rightarrow> Inl e
      | Inr (matched, pm) \<Rightarrow> Inr (matched, m\<lparr>potentialMatches := pm\<rparr>))"

text \<open>\<open>StringExpressionMatcher.next(ch)\<close> takes a string and rejects all but one-character ones.\<close>

definition StringExpressionMatcher_next ::
  "string \<Rightarrow> char matcher \<Rightarrow> error + (string option \<times> char matcher)" where
  "StringExpressionMatcher_next ch m =
     (if length ch \<noteq> 1 then Inl (Error ''Input to next() must be a single character.'')
      else case nextEntries (hd ch) (expressions m) (potentialMatches m) None of
             Inl e \<Rightarrow> Inl e
           | Inr (matched, pm) \<Rightarrow> Inr (matched, m\<lparr>potentialMatches := pm\<rparr>))"

text \<open>\<open>reset()\<close>: every key of \<open>potentialMatches\<close> gets the empty array.\<close>

definition matcher_reset :: "'a matcher \<Rightarrow> 'a matcher" where
  "matcher_reset m =
     m\<lparr>potentialMatches := (\<lambda>key. case potentialMatches m key of
                                    None \<Rightarrow> None | Some _ \<Rightarrow> Some [])\<rparr>"

text \<open>A caller's use of a matcher: any interleaving of \<open>next\<close> and \<open>reset\<close>.\<close>

datatype 'i matcherOp = Next 'i | Reset

fun ExpressionMatcher_run ::
  "int matcher \<Rightarrow> int matcherOp list \<Rightarrow> error + (string option list \<times> int matcher)" where
  "ExpressionMatcher_run m [] = Inr ([], m)"
| "ExpressionMatcher_run m (Reset # ops) = ExpressionMatcher_run (matcher_reset m) ops"
| "ExpressionMatcher_run m (Next num # ops) =
     (case ExpressionMatcher_next num m of
        Inl e \<Rightarrow> Inl e
      | Inr (matched, m') \<Rightarrow>
          (case ExpressionMatcher_run m' ops of
             Inl e \<Rightarrow> Inl e
           | Inr (out, m'') \<Rightarrow> Inr (matched # out, m'')))"

fun StringExpressionMatcher_run ::
  "char matcher \<Rightarrow> string matcherOp list \<Rightarrow> error + (string option list \<times> char matcher)" where
  "StringExpressionMatcher_run m [] = Inr ([], m)"
| "StringExpressionMatcher_run m (Reset # ops) =
     StringExpressionMatcher_run (matcher_reset m) ops"
| "StringExpressionMatcher_run m (Next ch # ops) =
     (case StringExpressionMatcher_next ch m of
        Inl e \<Rightarrow> Inl e
      | Inr (matched, m') \<Rightarrow>
          (case StringExpressionMatcher_run m' ops of
             Inl e \<Rightarrow> Inl e
           | Inr (out, m'') \<Rightarrow> Inr (matched # out, m'')))"

subsection \<open>BracesMatcher\<close>

record Braces =
  br_opening :: string
  br_closing :: string

record BracesMatcher =
  openingToClosing :: "string \<Rightarrow> string option"
  closingToOpening :: "string \<Rightarrow> string option"
  stack :: "string list"

text \<open>
  The constructor's loop. Only the opening character is pushed onto
  \<open>tempIntersectionCheck\<close>; the closing character is looked up in it and not added.
\<close>

fun BracesMatcher_populate ::
  "Braces list \<Rightarrow> string list \<Rightarrow> BracesMatcher \<Rightarrow> error + BracesMatcher" where
  "BracesMatcher_populate [] tempIntersectionCheck bm = Inr bm"
| "BracesMatcher_populate (brace # rest) tempIntersectionCheck bm =
     (if length (br_opening brace) \<noteq> 1
        then Inl (Error ''Opening brace must be exactly one character.'')
      else if length (br_closing brace) \<noteq> 1
        then Inl (Error ''Closing brace must be exactly one character.'')
      else if br_opening brace \<in> set tempIntersectionCheck
        then Inl (Error ''Opening brace repeated!'')
      else if br_closing brace \<in> set (tempIntersectionCheck @ [br_opening brace])
        then Inl (Error ''Closing brace repeated!'')
      else BracesMatcher_populate rest (tempIntersectionCheck @ [br_opening brace])
             (bm\<lparr>openingToClosing := (openingToClosing bm)(br_opening brace \<mapsto> br_closing brace),
                 closingToOpening := (closingToOpening bm)(br_closing brace \<mapsto> br_opening brace)\<rparr>))"

definition BracesMatcher_new :: "Braces list \<Rightarrow> error + BracesMatcher" where
  "BracesMatcher_new braces =
     BracesMatcher_populate braces []
       \<lparr>openingToClosing = Map.empty, closingToOpening = Map.empty, stack = []\<rparr>"

definition BracesMatcher_next :: "string \<Rightarrow> BracesMatcher \<Rightarrow> error + (nat \<times> BracesMatcher)" where
  "BracesMatcher_next ch bm =
     (if length ch \<noteq> 1 then Inl (Error ''Input character must be exactly one character long.'')
      else if openingToClosing bm ch \<noteq> None then
        (let bm' = bm\<lparr>stack := stack bm @ [ch]\<rparr> in Inr (length (stack bm'), bm'))
      else if closingToOpening bm ch \<noteq> None then
        (if length (stack bm) = 0 then Inl (Error ''Unmatched closing brace'')
         else if Some ch = openingToClosing bm (last (stack bm)) then
           (let bm' = bm\<lparr>stack := butlast (stack bm)\<rparr> in Inr (length (stack bm'), bm'))
         else Inl (Error ''Mismatched closing brace''))
      else Inl (Error ''Invalid brace''))"

definition BracesMatcher_reset :: "BracesMatcher \<Rightarrow> BracesMatcher" where
  "BracesMatcher_reset bm = bm\<lparr>stack := []\<rparr>"

definition currentDepth :: "BracesMatcher \<Rightarrow> nat" where
  "currentDepth bm = length (stack bm)"

subsection \<open>The matchers never see two completions on one symbol\<close>

lemma existsPair_iff:
  "existsPair P vs \<longleftrightarrow> (\<exists>i<length vs. \<exists>j<length vs. i \<noteq> j \<and> P (vs ! i) (vs ! j))"
proof -
  have "existsPair P vs \<longleftrightarrow>
        (\<exists>i. i < length vs \<and> (\<exists>j. j < length vs \<and> i \<noteq> j \<and> P (vs ! i) (vs ! j)))"
    by (simp add: existsPair_def list_ex_iff Bex_def)
  then show ?thesis by simp
qed

definition progressInv :: "'a list \<Rightarrow> 'a list \<Rightarrow> nat list \<Rightarrow> bool" where
  "progressInv expr w ps \<longleftrightarrow>
     distinct ps \<and> (\<forall>p\<in>set ps. 1 \<le> p \<and> p < length expr \<and> p \<le> length w
                       \<and> take p expr = drop (length w - p) w)"

definition completes :: "'a \<Rightarrow> 'a list \<Rightarrow> nat \<Rightarrow> bool" where
  "completes x expr p \<longleftrightarrow> p < length expr \<and> x = expr ! p \<and> p + 1 = length expr"

lemma scanProgresses_ok:
  assumes "distinct L" and "m \<noteq> None \<longrightarrow> (\<forall>p\<in>set L. \<not> completes x expr p)"
  shows "\<exists>kept m'. scanProgresses x expr key L m = Inr (kept, m')
           \<and> set kept = Suc ` {p \<in> set L. p < length expr \<and> x = expr ! p \<and> p + 1 \<noteq> length expr}
           \<and> distinct kept
           \<and> m' = (if \<exists>p\<in>set L. completes x expr p then Some key else m)"
  using assms
proof (induction L arbitrary: m)
  case Nil
  then show ?case by simp
next
  case (Cons p ps)
  show ?case
  proof (cases "p < length expr \<and> x = expr ! p")
    case False
    then have nc: "\<not> completes x expr p" by (auto simp: completes_def)
    from Cons.prems have "distinct ps" "m \<noteq> None \<longrightarrow> (\<forall>p\<in>set ps. \<not> completes x expr p)" by auto
    from Cons.IH[OF this] obtain kept m' where
      r: "scanProgresses x expr key ps m = Inr (kept, m')"
         "set kept = Suc ` {p \<in> set ps. p < length expr \<and> x = expr ! p \<and> p + 1 \<noteq> length expr}"
         "distinct kept" "m' = (if \<exists>p\<in>set ps. completes x expr p then Some key else m)" by blast
    show ?thesis using False r nc by auto
  next
    case True
    show ?thesis
    proof (cases "p + 1 = length expr")
      case c: True
      then have cp: "completes x expr p" using True by (simp add: completes_def)
      then have mN: "m = None" using Cons.prems by auto
      have "\<forall>q\<in>set ps. \<not> completes x expr q"
      proof
        fix q assume "q \<in> set ps"
        then have "q \<noteq> p" using Cons.prems(1) by auto
        then show "\<not> completes x expr q" using c by (auto simp: completes_def)
      qed
      then have pre: "Some key \<noteq> None \<longrightarrow> (\<forall>p\<in>set ps. \<not> completes x expr p)" by simp
      from Cons.prems have d: "distinct ps" by simp
      from Cons.IH[OF d pre] obtain kept m' where
        r: "scanProgresses x expr key ps (Some key) = Inr (kept, m')"
         "set kept = Suc ` {p \<in> set ps. p < length expr \<and> x = expr ! p \<and> p + 1 \<noteq> length expr}"
         "distinct kept" "m' = (if \<exists>p\<in>set ps. completes x expr p then Some key else Some key)" by blast
      show ?thesis using True c r mN cp by auto
    next
      case nc: False
      then have ncp: "\<not> completes x expr p" by (simp add: completes_def)
      from Cons.prems have "distinct ps" "m \<noteq> None \<longrightarrow> (\<forall>p\<in>set ps. \<not> completes x expr p)" by auto
      from Cons.IH[OF this] obtain kept m' where
        r: "scanProgresses x expr key ps m = Inr (kept, m')"
         "set kept = Suc ` {p \<in> set ps. p < length expr \<and> x = expr ! p \<and> p + 1 \<noteq> length expr}"
         "distinct kept" "m' = (if \<exists>p\<in>set ps. completes x expr p then Some key else m)" by blast
      have "Suc p \<notin> set kept" using r(2) Cons.prems(1) by auto
      then show ?thesis using True nc r ncp by auto
    qed
  qed
qed


lemma progress_extend:
  assumes "p < length expr" "p \<le> length w" "take p expr = drop (length w - p) w" "x = expr ! p"
  shows "take (Suc p) expr = drop (length (w @ [x]) - Suc p) (w @ [x])"
  using assms by (simp add: take_Suc_conv_app_nth)

lemma completes_suffix:
  assumes "p < length expr" "p \<le> length w" "take p expr = drop (length w - p) w"
    "completes x expr p"
  shows "suffix expr (w @ [x])"
proof -
  have "take (Suc p) expr = drop (length (w @ [x]) - Suc p) (w @ [x])"
    using assms progress_extend[of p expr w x] by (simp add: completes_def)
  moreover have "take (Suc p) expr = expr" using assms(4) by (simp add: completes_def)
  ultimately have "expr = drop (length (w @ [x]) - Suc p) (w @ [x])" by simp
  then show ?thesis by (metis suffix_drop)
qed

lemma key_step:
  assumes inv: "progressInv expr w ps" and ne: "expr \<noteq> []"
    and m: "m \<noteq> None \<longrightarrow> \<not> suffix expr (w @ [x])"
  shows "\<exists>kept m'. scanProgresses x expr key (rev (ps @ [0])) m = Inr (kept, m')
           \<and> progressInv expr (w @ [x]) kept
           \<and> (m' = m \<or> (m' = Some key \<and> suffix expr (w @ [x])))"
proof -
  let ?L = "rev (ps @ [0])"
  have d: "distinct ?L" using inv by (auto simp: progressInv_def)
  have el: "\<forall>p\<in>set ?L. p < length expr \<and> p \<le> length w \<and> take p expr = drop (length w - p) w"
    using inv ne by (auto simp: progressInv_def)
  have pre: "m \<noteq> None \<longrightarrow> (\<forall>p\<in>set ?L. \<not> completes x expr p)"
  proof (intro impI ballI notI)
    fix p assume mN: "m \<noteq> None" and pin: "p \<in> set ?L" and c: "completes x expr p"
    from el pin have "p < length expr" "p \<le> length w" "take p expr = drop (length w - p) w"
      by blast+
    from completes_suffix[OF this c] m mN show False by simp
  qed
  from scanProgresses_ok[OF d pre, of key] obtain kept m' where
    r: "scanProgresses x expr key ?L m = Inr (kept, m')"
       "set kept = Suc ` {p \<in> set ?L. p < length expr \<and> x = expr ! p \<and> p + 1 \<noteq> length expr}"
       "distinct kept" "m' = (if \<exists>p\<in>set ?L. completes x expr p then Some key else m)" by blast
  have "\<forall>q\<in>set kept. 1 \<le> q \<and> q < length expr \<and> q \<le> length (w @ [x])
          \<and> take q expr = drop (length (w @ [x]) - q) (w @ [x])"
  proof
    fix q assume "q \<in> set kept"
    then obtain p where p: "q = Suc p" "p \<in> set ?L" "p < length expr" "x = expr ! p"
      "p + 1 \<noteq> length expr" using r(2) by auto
    from el p(2) have e: "p \<le> length w" "take p expr = drop (length w - p) w" by auto
    have "take (Suc p) expr = drop (length (w @ [x]) - Suc p) (w @ [x])"
      by (rule progress_extend[OF p(3) e p(4)])
    then show "1 \<le> q \<and> q < length expr \<and> q \<le> length (w @ [x])
          \<and> take q expr = drop (length (w @ [x]) - q) (w @ [x])"
      using p e by auto
  qed
  then have "progressInv expr (w @ [x]) kept"
    unfolding progressInv_def using r(3) by blast
  moreover have "m' = m \<or> (m' = Some key \<and> suffix expr (w @ [x]))"
  proof (cases "\<exists>p\<in>set ?L. completes x expr p")
    case True
    then obtain p where p: "p \<in> set ?L" "completes x expr p" by blast
    from el p(1) have "p < length expr" "p \<le> length w" "take p expr = drop (length w - p) w"
      by blast+
    from completes_suffix[OF this p(2)] have "suffix expr (w @ [x])" .
    with True r(4) show ?thesis by simp
  next
    case False
    with r(4) show ?thesis by simp
  qed
  ultimately show ?thesis using r(1) by blast
qed

definition suffixFree :: "'a list list \<Rightarrow> bool" where
  "suffixFree vs \<longleftrightarrow> (\<forall>i<length vs. \<forall>j<length vs. i \<noteq> j \<longrightarrow> \<not> suffix (vs ! j) (vs ! i))"

lemma suffixFree_Cons:
  assumes "suffixFree (v # vs)"
  shows "suffixFree vs" and "\<forall>u\<in>set vs. \<not> suffix u v \<and> \<not> suffix v u"
proof -
  show "suffixFree vs"
    unfolding suffixFree_def
  proof (intro allI impI)
    fix i j assume "i < length vs" "j < length vs" "i \<noteq> j"
    then have "Suc i < length (v # vs)" "Suc j < length (v # vs)" "Suc i \<noteq> Suc j" by auto
    from assms[unfolded suffixFree_def, rule_format, OF this]
    show "\<not> suffix (vs ! j) (vs ! i)" by simp
  qed
  show "\<forall>u\<in>set vs. \<not> suffix u v \<and> \<not> suffix v u"
  proof
    fix u assume "u \<in> set vs"
    then obtain i where i: "i < length vs" "vs ! i = u" by (auto simp: in_set_conv_nth)
    then have a: "Suc i < length (v # vs)" "0 < length (v # vs)" "Suc i \<noteq> 0" "0 \<noteq> Suc i" by auto
    from assms[unfolded suffixFree_def, rule_format, OF a(1) a(2) a(3)]
         assms[unfolded suffixFree_def, rule_format, OF a(2) a(1) a(4)] i
    show "\<not> suffix u v \<and> \<not> suffix v u" by simp
  qed
qed

lemma nextEntries_ok:
  assumes "distinct (map fst rest)" and "suffixFree (map snd rest)"
    and "\<forall>(k, e)\<in>set rest. e \<noteq> [] \<and> (\<exists>ps. pm k = Some ps \<and> progressInv e w ps)"
    and "m \<noteq> None \<longrightarrow> (\<forall>(k, e)\<in>set rest. \<not> suffix e (w @ [x]))"
  shows "\<exists>m' pm'. nextEntries x rest pm m = Inr (m', pm')
           \<and> (\<forall>(k, e)\<in>set rest. \<exists>ps. pm' k = Some ps \<and> progressInv e (w @ [x]) ps)
           \<and> (\<forall>k. k \<notin> fst ` set rest \<longrightarrow> pm' k = pm k)"
  using assms
proof (induction rest arbitrary: pm m)
  case Nil
  then show ?case by simp
next
  case (Cons ke rest)
  obtain key expr where ke: "ke = (key, expr)" by (cases ke)
  from Cons.prems(3) ke obtain ps where ps: "expr \<noteq> []" "pm key = Some ps" "progressInv expr w ps"
    by auto
  from Cons.prems(4) ke have m: "m \<noteq> None \<longrightarrow> \<not> suffix expr (w @ [x])" by auto
  from key_step[OF ps(3) ps(1) m, of key] obtain kept m1 where
    k: "scanProgresses x expr key (rev (ps @ [0])) m = Inr (kept, m1)"
       "progressInv expr (w @ [x]) kept"
       "m1 = m \<or> (m1 = Some key \<and> suffix expr (w @ [x]))" by blast
  let ?pm = "pm(key \<mapsto> kept)"
  have d: "distinct (map fst rest)" and knot: "key \<notin> fst ` set rest"
    using Cons.prems(1) ke by auto
  have sf: "suffixFree (map snd rest)"
    and cross: "\<forall>u\<in>set (map snd rest). \<not> suffix u expr \<and> \<not> suffix expr u"
    using suffixFree_Cons[of expr "map snd rest"] Cons.prems(2) ke by auto
  have inv': "\<forall>(k, e)\<in>set rest. e \<noteq> [] \<and> (\<exists>ps. ?pm k = Some ps \<and> progressInv e w ps)"
  proof (clarify)
    fix k e assume in1: "(k, e) \<in> set rest"
    then have "k \<noteq> key" using knot by force
    moreover from in1 Cons.prems(3) have "e \<noteq> [] \<and> (\<exists>ps. pm k = Some ps \<and> progressInv e w ps)"
      by auto
    ultimately show "e \<noteq> [] \<and> (\<exists>ps. ?pm k = Some ps \<and> progressInv e w ps)" by simp
  qed
  have m1: "m1 \<noteq> None \<longrightarrow> (\<forall>(k, e)\<in>set rest. \<not> suffix e (w @ [x]))"
  proof (intro impI)
    assume m1N: "m1 \<noteq> None"
    show "\<forall>(k, e)\<in>set rest. \<not> suffix e (w @ [x])"
    proof (cases "m1 = m")
      case True
      then show ?thesis using Cons.prems(4) m1N by auto
    next
      case False
      then have s: "suffix expr (w @ [x])" using k(3) by auto
      show ?thesis
      proof (clarify)
        fix k2 e2 assume in2: "(k2, e2) \<in> set rest" and s2: "suffix e2 (w @ [x])"
        from suffix_same_cases[OF s s2] have "suffix expr e2 \<or> suffix e2 expr" .
        moreover have "e2 \<in> set (map snd rest)" using in2 by force
        ultimately show False using cross by blast
      qed
    qed
  qed
  from Cons.IH[OF d sf inv' m1] obtain m' pm' where
    r: "nextEntries x rest ?pm m1 = Inr (m', pm')"
       "\<forall>(k, e)\<in>set rest. \<exists>ps. pm' k = Some ps \<and> progressInv e (w @ [x]) ps"
       "\<forall>k. k \<notin> fst ` set rest \<longrightarrow> pm' k = ?pm k" by blast
  have res: "nextEntries x (ke # rest) pm m = Inr (m', pm')"
    using ke ps(2) k(1) r(1) by simp
  have "pm' key = Some kept" using r(3) knot by simp
  then have a: "\<forall>(k, e)\<in>set (ke # rest). \<exists>ps. pm' k = Some ps \<and> progressInv e (w @ [x]) ps"
    using r(2) k(2) ke by auto
  have b: "\<forall>k. k \<notin> fst ` set (ke # rest) \<longrightarrow> pm' k = pm k"
    using r(3) ke by auto
  show ?case using res a b by blast
qed

lemma isSuffix_iff: "isSuffix a b \<longleftrightarrow> suffix b a"
proof
  assume h: "isSuffix a b"
  then have len: "length b \<le> length a" by (auto simp: isSuffix_def split: if_splits)
  from h have eq: "\<forall>i. 1 \<le> i \<and> i \<le> length b \<longrightarrow> a ! (length a - i) = b ! (length b - i)"
    by (auto simp: isSuffix_def list_all_iff split: if_splits)
  have "drop (length a - length b) a = b"
  proof (rule nth_equalityI)
    show "length (drop (length a - length b) a) = length b" using len by simp
  next
    fix i assume "i < length (drop (length a - length b) a)"
    then have i: "i < length b" using len by simp
    have "1 \<le> length b - i \<and> length b - i \<le> length b" using i by arith
    then have "a ! (length a - (length b - i)) = b ! (length b - (length b - i))"
      using eq by blast
    moreover have "length a - (length b - i) = length a - length b + i" using i len by arith
    moreover have "length b - (length b - i) = i" using i by arith
    ultimately show "drop (length a - length b) a ! i = b ! i" using len i by simp
  qed
  then show "suffix b a" by (metis suffix_drop)
next
  assume "suffix b a"
  then obtain zs where a: "a = zs @ b" by (auto simp: suffix_def)
  show "isSuffix a b"
    unfolding isSuffix_def a by (auto simp: list_all_iff nth_append)
qed

lemma endsWith_iff: "endsWith a b \<longleftrightarrow> suffix b a"
proof
  assume "endsWith a b"
  then have "drop (length a - length b) a = b" by (simp add: endsWith_def)
  then show "suffix b a" by (metis suffix_drop)
next
  assume "suffix b a"
  then obtain zs where "a = zs @ b" by (auto simp: suffix_def)
  then show "endsWith a b" by (simp add: endsWith_def)
qed

lemma existsPair_suffix:
  assumes "\<And>a b. P a b \<longleftrightarrow> suffix b a"
  shows "existsPair P vs \<longleftrightarrow> \<not> suffixFree vs"
  unfolding existsPair_iff suffixFree_def using assms by blast

definition validPatterns :: "(string \<times> 'a list) list \<Rightarrow> bool" where
  "validPatterns exprs \<longleftrightarrow>
     distinct (map fst exprs) \<and> suffixFree (map snd exprs) \<and> (\<forall>e\<in>set (map snd exprs). e \<noteq> [])"

definition matcherInv :: "(string \<times> 'a list) list \<Rightarrow> 'a list \<Rightarrow> 'a matcher \<Rightarrow> bool" where
  "matcherInv exprs w m \<longleftrightarrow>
     expressions m = exprs \<and>
     (\<forall>(k, e)\<in>set exprs. \<exists>ps. potentialMatches m k = Some ps \<and> progressInv e w ps)"

lemma ExpressionMatcher_validate_valid:
  assumes "ExpressionMatcher_validateExpressions exprs = Inr u" "distinct (map fst exprs)"
  shows "validPatterns exprs"
proof -
  from assms(1) have a: "\<not> list_ex (\<lambda>v. length v = 0) (map snd exprs)"
    and b: "\<not> existsPair isSuffix (map snd exprs)"
    by (auto simp: ExpressionMatcher_validateExpressions_def Let_def split: if_splits)
  from b have "suffixFree (map snd exprs)" using existsPair_suffix[of isSuffix] isSuffix_iff by blast
  moreover from a have "\<forall>e\<in>set (map snd exprs). e \<noteq> []" by (force simp: list_ex_iff)
  ultimately show ?thesis using assms(2) by (simp add: validPatterns_def)
qed

lemma StringExpressionMatcher_validate_valid:
  assumes "StringExpressionMatcher_validateExpressions exprs = Inr u" "distinct (map fst exprs)"
  shows "validPatterns exprs"
proof -
  from assms(1) have a: "\<not> list_ex (\<lambda>v. length v = 0) (map snd exprs)"
    and b: "\<not> existsPair endsWith (map snd exprs)"
    by (auto simp: StringExpressionMatcher_validateExpressions_def Let_def split: if_splits)
  from b have "suffixFree (map snd exprs)" using existsPair_suffix[of endsWith] endsWith_iff by blast
  moreover from a have "\<forall>e\<in>set (map snd exprs). e \<noteq> []" by (force simp: list_ex_iff)
  ultimately show ?thesis using assms(2) by (simp add: validPatterns_def)
qed

lemma initialMatches_Some:
  assumes "(k, e) \<in> set exprs"
  shows "initialMatches exprs k = Some []"
proof -
  let ?xs = "map (\<lambda>(key, expr). (key, [] :: nat list)) exprs"
  have "k \<in> fst ` set ?xs" using assms by force
  then obtain v where v: "map_of ?xs k = Some v"
    by (metis map_of_eq_None_iff not_Some_eq)
  then have "(k, v) \<in> set ?xs" by (rule map_of_SomeD)
  then have "v = []" by auto
  with v show ?thesis by (simp add: initialMatches_def)
qed

lemma progressInv_Nil: "progressInv e [] []"
  by (simp add: progressInv_def)

lemma matcherInv_initial:
  "matcherInv exprs [] \<lparr>expressions = exprs, potentialMatches = initialMatches exprs\<rparr>"
  unfolding matcherInv_def using initialMatches_Some progressInv_Nil by fastforce

lemma matcherInv_reset:
  assumes "matcherInv exprs w m"
  shows "matcherInv exprs [] (matcher_reset m)"
  using assms progressInv_Nil unfolding matcherInv_def matcher_reset_def by fastforce

lemma nextEntries_matcherInv:
  assumes inv: "matcherInv exprs w m" and v: "validPatterns exprs"
  shows "\<exists>r pm. nextEntries x (expressions m) (potentialMatches m) None = Inr (r, pm)
           \<and> matcherInv exprs (w @ [x]) (m\<lparr>potentialMatches := pm\<rparr>)"
proof -
  from inv have e: "expressions m = exprs" by (simp add: matcherInv_def)
  have a: "distinct (map fst exprs)" "suffixFree (map snd exprs)"
    using v by (simp_all add: validPatterns_def)
  have b: "\<forall>(k, e)\<in>set exprs. e \<noteq> [] \<and> (\<exists>ps. potentialMatches m k = Some ps \<and> progressInv e w ps)"
    using inv v unfolding matcherInv_def validPatterns_def by fastforce
  have c: "(None::string option) \<noteq> None \<longrightarrow> (\<forall>(k, e)\<in>set exprs. \<not> suffix e (w @ [x]))" by simp
  from nextEntries_ok[OF a b c] obtain m' pm' where
    r: "nextEntries x exprs (potentialMatches m) None = Inr (m', pm')"
       "\<forall>(k, e)\<in>set exprs. \<exists>ps. pm' k = Some ps \<and> progressInv e (w @ [x]) ps" by blast
  have "matcherInv exprs (w @ [x]) (m\<lparr>potentialMatches := pm'\<rparr>)"
    unfolding matcherInv_def using e r(2) by simp
  then show ?thesis using r(1) e by blast
qed

lemma ExpressionMatcher_run_ok:
  assumes "matcherInv exprs w m" "validPatterns exprs"
  shows "\<exists>r. ExpressionMatcher_run m ops = Inr r"
  using assms
proof (induction ops arbitrary: m w)
  case Nil
  then show ?case by simp
next
  case (Cons op ops)
  show ?case
  proof (cases op)
    case Reset
    from matcherInv_reset[OF Cons.prems(1)] Cons.IH Cons.prems(2) Reset show ?thesis by auto
  next
    case (Next num)
    from nextEntries_matcherInv[OF Cons.prems, of num] obtain r pm where
      n: "nextEntries num (expressions m) (potentialMatches m) None = Inr (r, pm)"
         "matcherInv exprs (w @ [num]) (m\<lparr>potentialMatches := pm\<rparr>)" by blast
    from Cons.IH[OF n(2) Cons.prems(2)] obtain r' where
      "ExpressionMatcher_run (m\<lparr>potentialMatches := pm\<rparr>) ops = Inr r'" by blast
    then show ?thesis using Next n(1) by (cases r') (simp add: ExpressionMatcher_next_def)
  qed
qed

lemma StringExpressionMatcher_run_ok:
  assumes "matcherInv exprs w m" "validPatterns exprs"
  shows "(\<exists>r. StringExpressionMatcher_run m ops = Inr r)
       \<or> (StringExpressionMatcher_run m ops = Inl (Error ''Input to next() must be a single character.'')
           \<and> (\<exists>ch. Next ch \<in> set ops \<and> length ch \<noteq> 1))"
  using assms
proof (induction ops arbitrary: m w)
  case Nil
  then show ?case by simp
next
  case (Cons op ops)
  show ?case
  proof (cases op)
    case Reset
    from matcherInv_reset[OF Cons.prems(1)] Cons.IH Cons.prems(2) Reset show ?thesis by auto
  next
    case (Next ch)
    show ?thesis
    proof (cases "length ch = 1")
      case False
      then show ?thesis using Next by (auto simp: StringExpressionMatcher_next_def)
    next
      case True
      from nextEntries_matcherInv[OF Cons.prems, of "hd ch"] obtain r pm where
        n: "nextEntries (hd ch) (expressions m) (potentialMatches m) None = Inr (r, pm)"
           "matcherInv exprs (w @ [hd ch]) (m\<lparr>potentialMatches := pm\<rparr>)" by blast
      from Cons.IH[OF n(2) Cons.prems(2)]
      show ?thesis using Next n(1) True
        by (auto simp: StringExpressionMatcher_next_def split: sum.splits prod.splits)
    qed
  qed
qed

lemma validate_rejects:
  fixes exprs :: "(string \<times> 'a list) list"
  assumes bad: "(\<exists>p\<in>set (map snd exprs). p = [])
      \<or> (\<exists>i<length exprs. \<exists>j<length exprs. i \<noteq> j \<and>
            (snd (exprs ! i) = snd (exprs ! j) \<or> suffix (snd (exprs ! i)) (snd (exprs ! j))))"
    and P: "\<And>a b. P a b \<longleftrightarrow> suffix b a"
  shows "list_ex (\<lambda>v. length v = 0) (map snd exprs) \<or> existsPair P (map snd exprs)"
proof -
  from bad consider (empty) "\<exists>p\<in>set (map snd exprs). p = []"
    | (pair) i j where "i < length exprs" "j < length exprs" "i \<noteq> j"
        "suffix (snd (exprs ! i)) (snd (exprs ! j))"
    by auto
  then show ?thesis
  proof cases
    case empty
    then show ?thesis by (auto simp: list_ex_iff)
  next
    case pair
    then have "P (map snd exprs ! j) (map snd exprs ! i)" using P by simp
    then have "existsPair P (map snd exprs)"
      unfolding existsPair_iff using pair(1,2,3) by (metis length_map)
    then show ?thesis by simp
  qed
qed

text \<open>
  Claim C6. Constructing an \<open>ExpressionMatcher\<close> or a \<open>StringExpressionMatcher\<close>
  throws whenever the pattern set contains an empty pattern, two equal patterns (at
  different keys), or a pattern that is a suffix of another one; in particular the
  construction from \<open>{a: "bar", b: "foobar"}\<close> throws.
\<close>

theorem matcher_construction_throws:
  "((\<exists>p\<in>set (map snd exprs). p = [])
      \<or> (\<exists>i<length exprs. \<exists>j<length exprs. i \<noteq> j \<and>
            (snd (exprs ! i) = snd (exprs ! j) \<or> suffix (snd (exprs ! i)) (snd (exprs ! j))))
     \<longrightarrow> isl (ExpressionMatcher_new exprs))
   \<and> ((\<exists>p\<in>set (map snd sexprs). p = [])
      \<or> (\<exists>i<length sexprs. \<exists>j<length sexprs. i \<noteq> j \<and>
            (snd (sexprs ! i) = snd (sexprs ! j) \<or> suffix (snd (sexprs ! i)) (snd (sexprs ! j))))
     \<longrightarrow> isl (StringExpressionMatcher_new sexprs))
   \<and> isl (StringExpressionMatcher_new [(''a'', ''bar''), (''b'', ''foobar'')])"
proof (intro conjI impI)
  assume "(\<exists>p\<in>set (map snd exprs). p = [])
      \<or> (\<exists>i<length exprs. \<exists>j<length exprs. i \<noteq> j \<and>
            (snd (exprs ! i) = snd (exprs ! j) \<or> suffix (snd (exprs ! i)) (snd (exprs ! j))))"
  from validate_rejects[OF this, of isSuffix] isSuffix_iff
  have "list_ex (\<lambda>v. length v = 0) (map snd exprs) \<or> existsPair isSuffix (map snd exprs)"
    by blast
  then show "isl (ExpressionMatcher_new exprs)"
    by (auto simp: ExpressionMatcher_new_def ExpressionMatcher_validateExpressions_def Let_def)
next
  assume "(\<exists>p\<in>set (map snd sexprs). p = [])
      \<or> (\<exists>i<length sexprs. \<exists>j<length sexprs. i \<noteq> j \<and>
            (snd (sexprs ! i) = snd (sexprs ! j) \<or> suffix (snd (sexprs ! i)) (snd (sexprs ! j))))"
  from validate_rejects[OF this, of endsWith] endsWith_iff
  have "list_ex (\<lambda>v. length v = 0) (map snd sexprs) \<or> existsPair endsWith (map snd sexprs)"
    by blast
  then show "isl (StringExpressionMatcher_new sexprs)"
    by (auto simp: StringExpressionMatcher_new_def StringExpressionMatcher_validateExpressions_def Let_def)
next
  show "isl (StringExpressionMatcher_new [(''a'', ''bar''), (''b'', ''foobar'')])"
    by (simp add: StringExpressionMatcher_new_def StringExpressionMatcher_validateExpressions_def
        existsPair_def endsWith_def)
qed

theorem matcher_construction_throws_witness:
  "isl (ExpressionMatcher_new [(''k1'', [1, 2, 3]), (''k2'', [2, 3])])
   \<and> isl (StringExpressionMatcher_new [(''x'', ''ab''), (''y'', '''')])"
proof -
  have a: "\<exists>i<length [(''k1'', [1, 2, 3::int]), (''k2'', [2, 3])].
           \<exists>j<length [(''k1'', [1, 2, 3::int]), (''k2'', [2, 3])]. i \<noteq> j \<and>
            (snd ([(''k1'', [1, 2, 3::int]), (''k2'', [2, 3])] ! i) = snd ([(''k1'', [1, 2, 3]), (''k2'', [2, 3])] ! j)
             \<or> suffix (snd ([(''k1'', [1, 2, 3::int]), (''k2'', [2, 3])] ! i))
                       (snd ([(''k1'', [1, 2, 3]), (''k2'', [2, 3])] ! j)))"
    by (rule exI[of _ 1], simp, rule exI[of _ 0], simp add: suffix_to_prefix)
  have b: "\<exists>p\<in>set (map snd [(''x'', ''ab''), (''y'', '''')]). p = []" by simp
  show ?thesis
    using matcher_construction_throws[of "[(''k1'', [1, 2, 3]), (''k2'', [2, 3])]"
        "[(''x'', ''ab''), (''y'', '''')]"] a b by blast
qed

text \<open>
  Claim C7. For a pattern set that the constructor accepts, no interleaving of \<open>next\<close>
  and \<open>reset\<close> reaches the branch of \<open>next\<close> that throws on a second completed
  pattern: an \<open>ExpressionMatcher\<close> run never throws at all, and a
  \<open>StringExpressionMatcher\<close> run can only throw for an input that is not a single
  character. The keys of the pattern record are pairwise distinct, as the keys of a
  JavaScript object are.
\<close>

theorem matcher_multiple_matches_unreachable:
  "(distinct (map fst exprs) \<and> ExpressionMatcher_new exprs = Inr m
      \<longrightarrow> (\<exists>r. ExpressionMatcher_run m ops = Inr r))
   \<and> (distinct (map fst sexprs) \<and> StringExpressionMatcher_new sexprs = Inr sm
      \<longrightarrow> StringExpressionMatcher_run sm sops \<noteq> Inl multipleMatches
          \<and> ((\<forall>ch. Next ch \<in> set sops \<longrightarrow> length ch = 1)
                \<longrightarrow> (\<exists>r. StringExpressionMatcher_run sm sops = Inr r)))"
proof (intro conjI impI)
  assume a: "distinct (map fst exprs) \<and> ExpressionMatcher_new exprs = Inr m"
  then obtain u where v: "ExpressionMatcher_validateExpressions exprs = Inr u"
    and m: "m = \<lparr>expressions = exprs, potentialMatches = initialMatches exprs\<rparr>"
    by (auto simp: ExpressionMatcher_new_def split: sum.splits)
  from ExpressionMatcher_validate_valid[OF v] a have "validPatterns exprs" by simp
  from ExpressionMatcher_run_ok[OF _ this, of "[]" m ops] matcherInv_initial[of exprs] m
  show "\<exists>r. ExpressionMatcher_run m ops = Inr r" by simp
next
  assume a: "distinct (map fst sexprs) \<and> StringExpressionMatcher_new sexprs = Inr sm"
  then obtain u where v: "StringExpressionMatcher_validateExpressions sexprs = Inr u"
    and m: "sm = \<lparr>expressions = sexprs, potentialMatches = initialMatches sexprs\<rparr>"
    by (auto simp: StringExpressionMatcher_new_def split: sum.splits)
  from StringExpressionMatcher_validate_valid[OF v] a have vp: "validPatterns sexprs" by simp
  have inv: "matcherInv sexprs [] sm" using matcherInv_initial[of sexprs] m by simp
  note r = StringExpressionMatcher_run_ok[OF inv vp, of sops]
  show "StringExpressionMatcher_run sm sops \<noteq> Inl multipleMatches"
    using r by (auto simp: multipleMatches_def)
  show "\<exists>r. StringExpressionMatcher_run sm sops = Inr r"
    if "\<forall>ch. Next ch \<in> set sops \<longrightarrow> length ch = 1"
    using r that by blast
qed

theorem matcher_multiple_matches_unreachable_witness:
  "(\<exists>r. ExpressionMatcher_run
           \<lparr>expressions = [(''a'', [1, 2]), (''b'', [3])],
            potentialMatches = initialMatches [(''a'', [1, 2::int]), (''b'', [3])]\<rparr>
           [Next 1, Next 2, Reset, Next 3, Next 1] = Inr r)
   \<and> (\<exists>r. StringExpressionMatcher_run
           \<lparr>expressions = [(''COMMENT_START'', ''//''), (''MULTILINE_COMMENT_START'', ''/*''),
                           (''MULTILINE_COMMENT_END'', ''*/'')],
            potentialMatches = initialMatches [(''COMMENT_START'', ''//''),
                           (''MULTILINE_COMMENT_START'', ''/*''), (''MULTILINE_COMMENT_END'', ''*/'')]\<rparr>
           [Next ''/'', Next ''*'', Reset, Next ''*'', Next ''/''] = Inr r)"
proof -
  let ?e = "[(''a'', [1, 2::int]), (''b'', [3])]"
  let ?s = "[(''COMMENT_START'', ''//''), (''MULTILINE_COMMENT_START'', ''/*''),
             (''MULTILINE_COMMENT_END'', ''*/'')]"
  have e: "distinct (map fst ?e) \<and> ExpressionMatcher_new ?e
         = Inr \<lparr>expressions = ?e, potentialMatches = initialMatches ?e\<rparr>"
    by (simp add: ExpressionMatcher_new_def ExpressionMatcher_validateExpressions_def
        existsPair_def isSuffix_def)
  have s: "distinct (map fst ?s) \<and> StringExpressionMatcher_new ?s
         = Inr \<lparr>expressions = ?s, potentialMatches = initialMatches ?s\<rparr>"
    by (simp add: StringExpressionMatcher_new_def StringExpressionMatcher_validateExpressions_def
        existsPair_def endsWith_def)
  have l: "\<forall>ch. Next ch \<in> set [Next ''/'', Next ''*'', Reset, Next ''*'', Next ''/'']
             \<longrightarrow> length ch = 1" by auto
  show ?thesis
    using matcher_multiple_matches_unreachable[of ?e
        "\<lparr>expressions = ?e, potentialMatches = initialMatches ?e\<rparr>"
        "[Next 1, Next 2, Reset, Next 3, Next 1]" ?s
        "\<lparr>expressions = ?s, potentialMatches = initialMatches ?s\<rparr>"
        "[Next ''/'', Next ''*'', Reset, Next ''*'', Next ''/'']"] e s l
    by blast
qed

text \<open>
  Claim C8 says that the \<open>BracesMatcher\<close> constructor throws whenever the opening and
  closing characters taken together are not pairwise distinct. The constructor accepts
  two pairs with the same closing character, and a closing character that is the
  opening character of a later pair: the closing character is never added to
  \<open>tempIntersectionCheck\<close>.
\<close>

theorem BracesMatcher_accepts_repeated_closing:
  "(case BracesMatcher_new [\<lparr>br_opening = ''('', br_closing = '')''\<rparr>,
                            \<lparr>br_opening = ''['', br_closing = '')''\<rparr>] of
      Inl e \<Rightarrow> False
    | Inr bm \<Rightarrow> openingToClosing bm ''('' = Some '')'' \<and> openingToClosing bm ''['' = Some '')''
                \<and> closingToOpening bm '')'' = Some ''['')
   \<and> \<not> isl (BracesMatcher_new [\<lparr>br_opening = ''('', br_closing = '')''\<rparr>,
                                \<lparr>br_opening = '')'', br_closing = '']''\<rparr>])"
  by (simp add: BracesMatcher_new_def)

lemma BracesMatcher_populate_rejects:
  assumes "\<exists>b\<in>set braces. length (br_opening b) \<noteq> 1 \<or> length (br_closing b) \<noteq> 1
              \<or> br_opening b \<in> set tmp \<or> br_closing b \<in> set tmp
              \<or> br_closing b = br_opening b"
  shows "isl (BracesMatcher_populate braces tmp bm)"
  using assms
proof (induction braces arbitrary: tmp bm)
  case Nil
  then show ?case by simp
next
  case (Cons b bs)
  show ?case
  proof (cases "length (br_opening b) \<noteq> 1 \<or> length (br_closing b) \<noteq> 1
              \<or> br_opening b \<in> set tmp \<or> br_closing b \<in> set (tmp @ [br_opening b])")
    case True
    then show ?thesis by auto
  next
    case False
    with Cons.prems have "\<exists>c\<in>set bs. length (br_opening c) \<noteq> 1 \<or> length (br_closing c) \<noteq> 1
              \<or> br_opening c \<in> set (tmp @ [br_opening b]) \<or> br_closing c \<in> set (tmp @ [br_opening b])
              \<or> br_closing c = br_opening c"
      by auto
    from Cons.IH[OF this] False show ?thesis by simp
  qed
qed

section \<open>Position utilities\<close>

text \<open>
  \<open>Index\<close> and \<open>Range\<close> of \<open>utils.ts\<close>. Lines and characters are array positions, so
  they are natural numbers; the guards \<open>line < 0\<close> of the source cannot fire on them.
  A JavaScript string is a list of characters; \<open>newline\<close> is the string \<open>"\n"\<close>.
\<close>

abbreviation newline :: string where
  "newline \<equiv> [CHR 0x0A]"

record Index =
  line :: nat
  character :: nat

record Range =
  start_line :: nat
  start_character :: nat
  end_line :: nat
  end_character :: nat

record CharacterRange =
  chStart :: nat
  chEnd :: nat

text \<open>
  \<open>String.prototype.substring(a, b)\<close>: both arguments are clamped to the string and
  swapped when \<open>a > b\<close>.
\<close>

definition substring :: "string \<Rightarrow> int \<Rightarrow> int \<Rightarrow> string" where
  "substring s a b =
     (let n = int (length s);
          a' = max 0 (min a n);
          b' = max 0 (min b n);
          lo = min a' b';
          hi = max a' b'
      in take (nat (hi - lo)) (drop (nat lo) s))"

text \<open>
  \<open>splitIntoLines\<close>: \<open>codeString.split(/\r?\n/)\<close>. The text is cut at every \<open>"\n"\<close>,
  and one \<open>"\r"\<close> right before the \<open>"\n"\<close> goes with the separator.
\<close>

fun splitLines :: "string \<Rightarrow> string \<Rightarrow> string list" where
  "splitLines cur [] = [cur]"
| "splitLines cur (c # cs) =
     (if c = CHR 0x0A
        then (if cur \<noteq> [] \<and> last cur = CHR 0x0D then butlast cur else cur) # splitLines [] cs
      else splitLines (cur @ [c]) cs)"

definition splitIntoLines :: "string \<Rightarrow> string list" where
  "splitIntoLines codeString = splitLines [] codeString"

definition rangeToStartIndex :: "Range \<Rightarrow> Index" where
  "rangeToStartIndex rng = \<lparr>line = start_line rng, character = start_character rng\<rparr>"

definition rangeToEndIndex :: "Range \<Rightarrow> Index" where
  "rangeToEndIndex rng = \<lparr>line = end_line rng, character = end_character rng\<rparr>"

definition indexesToRange :: "Index \<Rightarrow> Index \<Rightarrow> Range" where
  "indexesToRange s e =
     \<lparr>start_line = line s, start_character = character s,
      end_line = line e, end_character = character e\<rparr>"

definition getCharacter :: "string list \<Rightarrow> Index \<Rightarrow> error + string" where
  "getCharacter codeLines index =
     (if line index \<ge> length codeLines then Inl (Error ''Invalid line number'')
      else let lineContent = codeLines ! line index in
        if character index > length lineContent then Inl (Error ''Invalid character position'')
        else if character index = length lineContent then Inr newline
        else Inr [lineContent ! character index])"

definition getMaxRange :: "string list \<Rightarrow> Range" where
  "getMaxRange codeLines =
     (if length codeLines = 0
        then \<lparr>start_line = 0, start_character = 0, end_line = 0, end_character = 0\<rparr>
      else \<lparr>start_line = 0, start_character = 0, end_line = length codeLines, end_character = 0\<rparr>)"

text \<open>\<open>compare\<close> returns -1, 0 or 1.\<close>

definition compare :: "Index \<Rightarrow> Index \<Rightarrow> int" where
  "compare index1 index2 =
     (if line index1 < line index2 then -1
      else if line index2 < line index1 then 1
      else if character index1 < character index2 then -1
      else if character index2 < character index1 then 1
      else 0)"

fun mergeLoop :: "Index \<Rightarrow> Index \<Rightarrow> Range list \<Rightarrow> Index \<times> Index" where
  "mergeLoop s e [] = (s, e)"
| "mergeLoop s e (r # rs) =
     (let start2 = rangeToStartIndex r; end2 = rangeToEndIndex r;
          s' = (if compare start2 s = -1 then start2 else s);
          e' = (if compare e end2 = -1 then end2 else e)
      in mergeLoop s' e' rs)"

definition mergeRanges :: "Range list \<Rightarrow> error + Range" where
  "mergeRanges ranges =
     (case ranges of
        [] \<Rightarrow> Inl (Error ''No ranges to merge.'')
      | r # rs \<Rightarrow>
          (case mergeLoop (rangeToStartIndex r) (rangeToEndIndex r) rs of
             (s, e) \<Rightarrow> Inr (indexesToRange s e)))"

definition contains :: "Range \<Rightarrow> Range \<Rightarrow> bool" where
  "contains biggerRange insideRange =
     (compare (rangeToStartIndex biggerRange) (rangeToStartIndex insideRange) \<le> 0
      \<and> compare (rangeToEndIndex insideRange) (rangeToEndIndex biggerRange) \<le> 0)"

section \<open>Lexical tokens and the tokenizer framework\<close>

datatype TokenType =
    MULTILINE_COMMENTS_OR_STRINGS
  | SINGLELINE_COMMENTS
  | STRINGS
  | SPACINGS
  | BRACES
  | COMMAS
  | OTHERS
  | CONTINUATION

record Token =
  stringContents :: string
  tokenType :: TokenType
  characterRange :: CharacterRange

text \<open>The action directive that \<open>matchNext\<close> returns; \<open>null\<close> is \<open>None\<close>.\<close>

record MatchResult =
  mrType :: TokenType
  singleChType :: "TokenType option"
  numSplitCharacters :: "int option"

text \<open>
  A concrete lexer supplies the three abstract methods over its own state \<open>'s\<close>.
  \<open>matchNext\<close> may call \<open>currentBufferLength()\<close> of the base class, so it is given the
  length of the buffer, and it may throw.
\<close>

record 's Lexer =
  initialLexerState :: "'s"
  matchNext :: "string \<Rightarrow> nat \<Rightarrow> 's \<Rightarrow> error + (MatchResult option \<times> 's)"
  matchEndCharacter :: "'s \<Rightarrow> TokenType"

record 's AbstractTokenizer =
  tokenString :: "Token list"
  stringBuffer :: string
  charIdx :: nat
  tokStartIdx :: nat
  ended :: bool
  lexerState :: "'s"

definition AbstractTokenizer_new :: "'s Lexer \<Rightarrow> 's AbstractTokenizer" where
  "AbstractTokenizer_new lx =
     \<lparr>tokenString = [], stringBuffer = [], charIdx = 0, tokStartIdx = 0, ended = False,
      lexerState = initialLexerState lx\<rparr>"

definition mkToken :: "TokenType \<Rightarrow> string \<Rightarrow> nat \<Rightarrow> nat \<Rightarrow> Token" where
  "mkToken ty s a b =
     \<lparr>stringContents = s, tokenType = ty, characterRange = \<lparr>chStart = a, chEnd = b\<rparr>\<rparr>"

text \<open>
  \<open>applyMatchResult\<close> is the body of \<open>if (matchResult !== null) { ... }\<close> in
  \<open>AbstractTokenizer.next\<close>, after the buffer and \<open>charIdx\<close> were advanced.
\<close>

definition applyMatchResult ::
  "MatchResult \<Rightarrow> 's AbstractTokenizer \<Rightarrow> error + 's AbstractTokenizer" where
  "applyMatchResult r t =
     (if mrType r = CONTINUATION then Inl (Error ''Only singleChType can be continuation!'')
      else
        let len = int (charIdx t) - int (tokStartIdx t) in
        (case singleChType r of
           None \<Rightarrow>
             Inr (t\<lparr>tokenString := tokenString t
                        @ [mkToken (mrType r) (stringBuffer t) (tokStartIdx t) (charIdx t)],
                    tokStartIdx := charIdx t, stringBuffer := []\<rparr>)
         | Some sct \<Rightarrow>
             let n = (case numSplitCharacters r of None \<Rightarrow> 1 | Some k \<Rightarrow> k) in
             if n < 1 then Inl (Error ''numSplitCharacters should be >= 1!'')
             else if len < n + 1
               then Inl (Error ''The length of the buffer must be > numSplitCharacters!'')
             else
               let buf = stringBuffer t;
                   cut = int (length buf) - n;
                   splitAt = nat (int (charIdx t) - n);
                   first = mkToken (mrType r) (substring buf 0 cut) (tokStartIdx t) splitAt
               in if sct = CONTINUATION then
                    Inr (t\<lparr>tokenString := tokenString t @ [first],
                           tokStartIdx := splitAt,
                           stringBuffer := substring buf cut (int (length buf))\<rparr>)
                  else
                    Inr (t\<lparr>tokenString := tokenString t
                               @ [first,
                                  mkToken sct (substring buf cut (int (length buf)))
                                    splitAt (charIdx t)],
                           tokStartIdx := charIdx t, stringBuffer := []\<rparr>)))"

definition AbstractTokenizer_next ::
  "'s Lexer \<Rightarrow> string option \<Rightarrow> 's AbstractTokenizer \<Rightarrow> error + 's AbstractTokenizer" where
  "AbstractTokenizer_next lx ch t =
     (if ended t then Inl (Error ''Cannot call next when already ended!'')
      else case ch of
        None \<Rightarrow>
          Inr ((if charIdx t > tokStartIdx t
                  then t\<lparr>tokenString := tokenString t
                            @ [mkToken (matchEndCharacter lx (lexerState t)) (stringBuffer t)
                                 (tokStartIdx t) (charIdx t)]\<rparr>
                else t)\<lparr>ended := True\<rparr>)
      | Some c \<Rightarrow>
          if length c \<noteq> 1 then Inl (Error ''Character stream must have length 1!'')
          else
            let t1 = t\<lparr>stringBuffer := stringBuffer t @ c, charIdx := charIdx t + 1\<rparr> in
            (case matchNext lx c (length (stringBuffer t1)) (lexerState t1) of
               Inl e \<Rightarrow> Inl e
             | Inr (matchResult, s') \<Rightarrow>
                 (case matchResult of
                    None \<Rightarrow> Inr (t1\<lparr>lexerState := s'\<rparr>)
                  | Some r \<Rightarrow> applyMatchResult r (t1\<lparr>lexerState := s'\<rparr>))))"

text \<open>Feeding a list of characters, stopping at the first throw.\<close>

fun feedChars ::
  "'s Lexer \<Rightarrow> string option list \<Rightarrow> 's AbstractTokenizer \<Rightarrow> error + 's AbstractTokenizer" where
  "feedChars lx [] t = Inr t"
| "feedChars lx (c # cs) t =
     (case AbstractTokenizer_next lx c t of Inl e \<Rightarrow> Inl e | Inr t' \<Rightarrow> feedChars lx cs t')"

text \<open>
  The front end of \<open>AbstractParser.parse\<close>: for every line, every character of the line
  and then \<open>"\n"\<close>; after the last line the end signal \<open>null\<close>. \<open>positionMap\<close> gets one
  \<open>Index\<close> per character fed, and the end sentinel \<open>(codeLines.length, 0)\<close>.
\<close>

definition lineChars :: "string \<Rightarrow> string option list" where
  "lineChars l = map (\<lambda>c. Some [c]) l @ [Some newline]"

definition sourceChars :: "string list \<Rightarrow> string option list" where
  "sourceChars codeLines = concat (map lineChars codeLines) @ [None]"

definition buildPositionMap :: "string list \<Rightarrow> Index list" where
  "buildPositionMap codeLines =
     concat (map (\<lambda>(lineIndex, l).
               map (\<lambda>c. \<lparr>line = lineIndex, character = c\<rparr>) [0..<length l + 1])
             (zip [0..<length codeLines] codeLines))
     @ [\<lparr>line = length codeLines, character = 0\<rparr>]"

definition lexSource :: "'s Lexer \<Rightarrow> string list \<Rightarrow> error + Token list" where
  "lexSource lx codeLines =
     (case feedChars lx (sourceChars codeLines) (AbstractTokenizer_new lx) of
        Inl e \<Rightarrow> Inl e
      | Inr t \<Rightarrow> Inr (tokenString t))"

section \<open>The Python lexer\<close>

datatype StringOrMultilineStatus =
    PY_NONE
  | PY_SINGLE_QUOTES
  | PY_DOUBLE_QUOTES
  | PY_TRIPLE_SINGLE_QUOTES
  | PY_TRIPLE_DOUBLE_QUOTES

record PythonTokenizer =
  py_insideSingleLineComments :: bool
  py_insideStringStatus :: StringOrMultilineStatus
  py_previousIsEscape :: bool
  py_contiguousQuotesCount :: nat

definition PythonTokenizer_initial :: PythonTokenizer where
  "PythonTokenizer_initial =
     \<lparr>py_insideSingleLineComments = False, py_insideStringStatus = PY_NONE,
      py_previousIsEscape = False, py_contiguousQuotesCount = 0\<rparr>"

text \<open>The two shapes of directive the lexers return: \<open>{type}\<close> and \<open>{type, singleChType}\<close>.\<close>

definition directive :: "TokenType \<Rightarrow> MatchResult" where
  "directive ty = \<lparr>mrType = ty, singleChType = None, numSplitCharacters = None\<rparr>"

definition directive2 :: "TokenType \<Rightarrow> TokenType \<Rightarrow> MatchResult" where
  "directive2 ty sct = \<lparr>mrType = ty, singleChType = Some sct, numSplitCharacters = None\<rparr>"

text \<open>\<open>handleOtherSituation\<close> returns \<open>{tokenType, isPlainCharacter}\<close> and may switch the state.\<close>

definition py_handleOtherSituation ::
  "string \<Rightarrow> PythonTokenizer \<Rightarrow> (TokenType option \<times> bool) \<times> PythonTokenizer" where
  "py_handleOtherSituation ch st =
     (if ch = ''{'' \<or> ch = ''}'' \<or> ch = ''['' \<or> ch = '']'' \<or> ch = ''('' \<or> ch = '')''
        then ((Some BRACES, False), st)
      else if ch = '' '' \<or> ch = [CHR 0x09] \<or> ch = newline then ((Some SPACINGS, False), st)
      else if ch = '':'' then ((Some OTHERS, False), st)
      else if ch = '','' then ((Some COMMAS, False), st)
      else if ch = ''#'' then ((None, False), st\<lparr>py_insideSingleLineComments := True\<rparr>)
      else if ch = [CHR 0x22]
        then ((None, False),
              st\<lparr>py_insideStringStatus := PY_DOUBLE_QUOTES, py_contiguousQuotesCount := 1\<rparr>)
      else if ch = [CHR 0x27]
        then ((None, False),
              st\<lparr>py_insideStringStatus := PY_SINGLE_QUOTES, py_contiguousQuotesCount := 1\<rparr>)
      else ((None, True), st))"

text \<open>
  \<open>handleSingleQuoteSituation\<close> and \<open>handleDoubleQuoteSituation\<close> are the same text up to
  the quote character and the triple status they upgrade to; \<open>py_handleQuoteSituation\<close>
  takes the two as parameters.
\<close>

definition py_escapeUpdate :: "string \<Rightarrow> PythonTokenizer \<Rightarrow> PythonTokenizer" where
  "py_escapeUpdate ch st =
     (if ch = [CHR 0x5C] then st\<lparr>py_previousIsEscape := \<not> py_previousIsEscape st\<rparr>
      else st\<lparr>py_previousIsEscape := False\<rparr>)"

definition py_handleQuoteSituation ::
  "string \<Rightarrow> StringOrMultilineStatus \<Rightarrow> string \<Rightarrow> PythonTokenizer
     \<Rightarrow> MatchResult option \<times> PythonTokenizer" where
  "py_handleQuoteSituation quote triple ch st =
     (if ch = quote \<and> \<not> py_previousIsEscape st then
        (let st1 = st\<lparr>py_previousIsEscape := False\<rparr> in
         if py_contiguousQuotesCount st1 = 2
           then (None, st1\<lparr>py_insideStringStatus := triple, py_contiguousQuotesCount := 0\<rparr>)
         else if py_contiguousQuotesCount st1 = 1
           then (None, st1\<lparr>py_contiguousQuotesCount := 2\<rparr>)
         else (Some (directive STRINGS), st1\<lparr>py_insideStringStatus := PY_NONE\<rparr>))
      else if ch = newline then
        (Some (directive2 STRINGS SPACINGS),
         st\<lparr>py_previousIsEscape := False, py_contiguousQuotesCount := 0,
            py_insideStringStatus := PY_NONE\<rparr>)
      else if py_contiguousQuotesCount st = 1
        then (None, py_escapeUpdate ch (st\<lparr>py_contiguousQuotesCount := 0\<rparr>))
      else if py_contiguousQuotesCount st = 2 then
        (case py_handleOtherSituation ch
                (st\<lparr>py_contiguousQuotesCount := 0, py_previousIsEscape := False,
                    py_insideStringStatus := PY_NONE\<rparr>) of
           ((None, _), st2) \<Rightarrow> (Some (directive2 STRINGS CONTINUATION), st2)
         | ((Some ty, _), st2) \<Rightarrow> (Some (directive2 STRINGS ty), st2))
      else (None, py_escapeUpdate ch st))"

definition py_handleSingleQuoteSituation ::
  "string \<Rightarrow> PythonTokenizer \<Rightarrow> MatchResult option \<times> PythonTokenizer" where
  "py_handleSingleQuoteSituation = py_handleQuoteSituation [CHR 0x27] PY_TRIPLE_SINGLE_QUOTES"

definition py_handleDoubleQuoteSituation ::
  "string \<Rightarrow> PythonTokenizer \<Rightarrow> MatchResult option \<times> PythonTokenizer" where
  "py_handleDoubleQuoteSituation = py_handleQuoteSituation [CHR 0x22] PY_TRIPLE_DOUBLE_QUOTES"

text \<open>Likewise for the two triple-quote handlers.\<close>

definition py_handleTripleQuoteSituation ::
  "string \<Rightarrow> string \<Rightarrow> PythonTokenizer \<Rightarrow> MatchResult option \<times> PythonTokenizer" where
  "py_handleTripleQuoteSituation quote ch st =
     (if ch = quote \<and> \<not> py_previousIsEscape st then
        (let st1 = st\<lparr>py_previousIsEscape := False\<rparr> in
         if py_contiguousQuotesCount st1 = 2
           then (Some (directive MULTILINE_COMMENTS_OR_STRINGS),
                 st1\<lparr>py_contiguousQuotesCount := 0, py_insideStringStatus := PY_NONE\<rparr>)
         else (None, st1\<lparr>py_contiguousQuotesCount := py_contiguousQuotesCount st1 + 1\<rparr>))
      else (None, py_escapeUpdate ch (st\<lparr>py_contiguousQuotesCount := 0\<rparr>)))"

definition py_handleTripleSingleQuoteSituation ::
  "string \<Rightarrow> PythonTokenizer \<Rightarrow> MatchResult option \<times> PythonTokenizer" where
  "py_handleTripleSingleQuoteSituation = py_handleTripleQuoteSituation [CHR 0x27]"

definition py_handleTripleDoubleQuoteSituation ::
  "string \<Rightarrow> PythonTokenizer \<Rightarrow> MatchResult option \<times> PythonTokenizer" where
  "py_handleTripleDoubleQuoteSituation = py_handleTripleQuoteSituation [CHR 0x22]"

definition py_matchNext ::
  "string \<Rightarrow> nat \<Rightarrow> PythonTokenizer \<Rightarrow> error + (MatchResult option \<times> PythonTokenizer)" where
  "py_matchNext ch bufferLength st =
     (if py_insideSingleLineComments st then
        (if ch = newline
           then Inr (Some (directive2 SINGLELINE_COMMENTS SPACINGS),
                     st\<lparr>py_insideSingleLineComments := False\<rparr>)
         else Inr (None, st))
      else if py_insideStringStatus st = PY_SINGLE_QUOTES
        then Inr (py_handleSingleQuoteSituation ch st)
      else if py_insideStringStatus st = PY_DOUBLE_QUOTES
        then Inr (py_handleDoubleQuoteSituation ch st)
      else if py_insideStringStatus st = PY_TRIPLE_SINGLE_QUOTES
        then Inr (py_handleTripleSingleQuoteSituation ch st)
      else if py_insideStringStatus st = PY_TRIPLE_DOUBLE_QUOTES
        then Inr (py_handleTripleDoubleQuoteSituation ch st)
      else
        (case py_handleOtherSituation ch st of
           ((situationType, isPlainCharacter), st') \<Rightarrow>
             if bufferLength = 1 then
               (case situationType of
                  Some ty \<Rightarrow> Inr (Some (directive ty), st')
                | None \<Rightarrow> Inr (None, st'))
             else
               (case situationType of
                  None \<Rightarrow>
                    if isPlainCharacter then Inr (None, st')
                    else Inr (Some (directive2 OTHERS CONTINUATION), st')
                | Some ty \<Rightarrow> Inr (Some (directive2 OTHERS ty), st'))))"

definition py_matchEndCharacter :: "PythonTokenizer \<Rightarrow> TokenType" where
  "py_matchEndCharacter st =
     (if py_insideSingleLineComments st then SINGLELINE_COMMENTS
      else if py_insideStringStatus st = PY_SINGLE_QUOTES
              \<or> py_insideStringStatus st = PY_DOUBLE_QUOTES then STRINGS
      else if py_insideStringStatus st = PY_TRIPLE_DOUBLE_QUOTES
              \<or> py_insideStringStatus st = PY_TRIPLE_SINGLE_QUOTES
        then MULTILINE_COMMENTS_OR_STRINGS
      else OTHERS)"

definition PythonLexer :: "PythonTokenizer Lexer" where
  "PythonLexer =
     \<lparr>initialLexerState = PythonTokenizer_initial, matchNext = py_matchNext,
      matchEndCharacter = py_matchEndCharacter\<rparr>"

subsection \<open>The lex round trip\<close>

fun tokensContiguous :: "nat \<Rightarrow> Token list \<Rightarrow> bool" where
  "tokensContiguous n [] = True"
| "tokensContiguous n (t # ts) =
     (chStart (characterRange t) = n
      \<and> chEnd (characterRange t) = n + length (stringContents t)
      \<and> stringContents t \<noteq> []
      \<and> tokensContiguous (chEnd (characterRange t)) ts)"

definition tokensText :: "Token list \<Rightarrow> string" where
  "tokensText toks = concat (map stringContents toks)"

definition tokenizerInv :: "'s AbstractTokenizer \<Rightarrow> string \<Rightarrow> bool" where
  "tokenizerInv t fed \<longleftrightarrow>
     tokensText (tokenString t) @ stringBuffer t = fed
     \<and> charIdx t = length fed
     \<and> tokStartIdx t = length (tokensText (tokenString t))
     \<and> tokensContiguous 0 (tokenString t)
     \<and> \<not> ended t"

lemma tokensText_append [simp]: "tokensText (xs @ ys) = tokensText xs @ tokensText ys"
  by (simp add: tokensText_def)

lemma tokensText_Nil [simp]: "tokensText [] = []"
  by (simp add: tokensText_def)

lemma tokensText_Cons [simp]: "tokensText (t # ts) = stringContents t @ tokensText ts"
  by (simp add: tokensText_def)

lemma tokensContiguous_append:
  "tokensContiguous n (xs @ ys) \<longleftrightarrow>
     tokensContiguous n xs \<and> tokensContiguous (n + length (tokensText xs)) ys"
proof (induction xs arbitrary: n)
  case Nil
  then show ?case by simp
next
  case (Cons t xs)
  let ?e = "chEnd (characterRange t)"
  show ?case
  proof (cases "?e = n + length (stringContents t)")
    case True
    have ih: "tokensContiguous (n + length (stringContents t)) (xs @ ys) \<longleftrightarrow>
       tokensContiguous (n + length (stringContents t)) xs
       \<and> tokensContiguous (n + (length (stringContents t) + length (tokensText xs))) ys"
      using Cons.IH[of "n + length (stringContents t)"] by (simp only: add.assoc)
    show ?thesis using True ih by simp
  next
    case False
    then show ?thesis by simp
  qed
qed

lemma substring_take:
  assumes "0 \<le> b" "b \<le> int (length s)"
  shows "substring s 0 b = take (nat b) s"
  using assms by (simp add: substring_def Let_def min_def max_def)

lemma substring_drop:
  assumes "0 \<le> a" "a \<le> int (length s)"
  shows "substring s a (int (length s)) = drop (nat a) s"
  using assms by (simp add: substring_def Let_def min_def max_def)

lemma applyMatchResult_inv:
  assumes inv: "tokenizerInv t fed" and buf: "stringBuffer t \<noteq> []"
    and r: "applyMatchResult r t = Inr t'"
  shows "tokenizerInv t' fed \<and> lexerState t' = lexerState t"
proof -
  from inv have a: "tokensText (tokenString t) @ stringBuffer t = fed"
    "charIdx t = length fed" "tokStartIdx t = length (tokensText (tokenString t))"
    "tokensContiguous 0 (tokenString t)" "\<not> ended t" by (simp_all add: tokenizerInv_def)
  from a(1,2,3) have len: "int (charIdx t) - int (tokStartIdx t) = int (length (stringBuffer t))"
    by (metis add_diff_cancel_left' length_append of_nat_add)
  from a(1,2,3) have ci: "charIdx t = tokStartIdx t + length (stringBuffer t)"
    by (metis length_append)
  show ?thesis
  proof (cases "singleChType r")
    case None
    with r have t': "t' = t\<lparr>tokenString := tokenString t
                        @ [mkToken (mrType r) (stringBuffer t) (tokStartIdx t) (charIdx t)],
                    tokStartIdx := charIdx t, stringBuffer := []\<rparr>"
      by (auto simp: applyMatchResult_def Let_def split: if_splits)
    show ?thesis unfolding t' tokenizerInv_def
      using a buf ci by (simp add: tokensContiguous_append mkToken_def)
  next
    case (Some sct)
    define n where "n = (case numSplitCharacters r of None \<Rightarrow> 1 | Some k \<Rightarrow> k)"
    from r Some have n1: "1 \<le> n" and n2: "n + 1 \<le> int (length (stringBuffer t))"
      using len by (auto simp: applyMatchResult_def Let_def n_def split: if_splits)
    define k where "k = nat n"
    have k1: "1 \<le> k" "k + 1 \<le> length (stringBuffer t)" "int k = n"
      using n1 n2 by (simp_all add: k_def)
    let ?buf = "stringBuffer t"
    have cut: "int (length ?buf) - n = int (length ?buf - k)" using k1 by simp
    have s1: "substring ?buf 0 (int (length ?buf) - n) = take (length ?buf - k) ?buf"
      using substring_take[of "int (length ?buf - k)" ?buf] cut by simp
    have s2: "substring ?buf (int (length ?buf) - n) (int (length ?buf)) = drop (length ?buf - k) ?buf"
      using substring_drop[of "int (length ?buf - k)" ?buf] cut by simp
    have sp: "nat (int (charIdx t) - n) = tokStartIdx t + (length ?buf - k)"
      using ci k1 by simp
    have ne1: "take (length ?buf - k) ?buf \<noteq> []" using k1 buf by simp
    have ne2: "drop (length ?buf - k) ?buf \<noteq> []" using k1 by simp
    have l1: "length (take (length ?buf - k) ?buf) = length ?buf - k" by simp
    show ?thesis
    proof (cases "sct = CONTINUATION")
      case True
      with r Some n1 n2 len have t': "t' = t\<lparr>tokenString := tokenString t
            @ [mkToken (mrType r) (take (length ?buf - k) ?buf) (tokStartIdx t)
                 (tokStartIdx t + (length ?buf - k))],
           tokStartIdx := tokStartIdx t + (length ?buf - k),
           stringBuffer := drop (length ?buf - k) ?buf\<rparr>"
        using s1 s2 sp by (auto simp: applyMatchResult_def Let_def n_def split: if_splits)
      show ?thesis unfolding t' tokenizerInv_def
        using a ne1 l1 by (simp add: tokensContiguous_append mkToken_def)
    next
      case False
      with r Some n1 n2 len have t': "t' = t\<lparr>tokenString := tokenString t
            @ [mkToken (mrType r) (take (length ?buf - k) ?buf) (tokStartIdx t)
                 (tokStartIdx t + (length ?buf - k)),
               mkToken sct (drop (length ?buf - k) ?buf)
                 (tokStartIdx t + (length ?buf - k)) (charIdx t)],
           tokStartIdx := charIdx t, stringBuffer := []\<rparr>"
        using s1 s2 sp by (auto simp: applyMatchResult_def Let_def n_def split: if_splits)
      show ?thesis unfolding t' tokenizerInv_def
        using a ne1 ne2 l1 ci k1 by (simp add: tokensContiguous_append mkToken_def)
    qed
  qed
qed

lemma next_char_inv:
  assumes inv: "tokenizerInv t fed" and n: "AbstractTokenizer_next lx (Some c) t = Inr t'"
  shows "tokenizerInv t' (fed @ c)"
proof -
  from inv have ne: "\<not> ended t" by (simp add: tokenizerInv_def)
  from n ne have c1: "length c = 1"
    by (auto simp: AbstractTokenizer_next_def split: if_splits)
  let ?t1 = "t\<lparr>stringBuffer := stringBuffer t @ c, charIdx := charIdx t + 1\<rparr>"
  from n ne c1 obtain mr s' where
    m: "matchNext lx c (length (stringBuffer ?t1)) (lexerState ?t1) = Inr (mr, s')"
    by (auto simp: AbstractTokenizer_next_def Let_def split: sum.splits)
  let ?t2 = "?t1\<lparr>lexerState := s'\<rparr>"
  have inv2: "tokenizerInv ?t2 (fed @ c)"
    using inv c1 by (simp add: tokenizerInv_def)
  have buf2: "stringBuffer ?t2 \<noteq> []" using c1 by auto
  show ?thesis
  proof (cases mr)
    case None
    with n ne c1 m have "t' = ?t2"
      by (simp add: AbstractTokenizer_next_def Let_def)
    then show ?thesis using inv2 by simp
  next
    case (Some r)
    with n ne c1 m have "applyMatchResult r ?t2 = Inr t'"
      by (simp add: AbstractTokenizer_next_def Let_def)
    from applyMatchResult_inv[OF inv2 buf2 this] show ?thesis by simp
  qed
qed

lemma feedChars_inv:
  assumes "tokenizerInv t fed" and "feedChars lx (map Some cs) t = Inr t'"
  shows "tokenizerInv t' (fed @ concat cs)"
  using assms
proof (induction cs arbitrary: t fed)
  case Nil
  then show ?case by simp
next
  case (Cons c cs)
  from Cons.prems(2) obtain t1 where
    t1: "AbstractTokenizer_next lx (Some c) t = Inr t1" "feedChars lx (map Some cs) t1 = Inr t'"
    by (auto split: sum.splits)
  from next_char_inv[OF Cons.prems(1) t1(1)] have "tokenizerInv t1 (fed @ c)" .
  from Cons.IH[OF this t1(2)] show ?case by simp
qed

lemma feedChars_append:
  "feedChars lx (xs @ ys) t =
     (case feedChars lx xs t of Inl e \<Rightarrow> Inl e | Inr t' \<Rightarrow> feedChars lx ys t')"
  by (induction xs arbitrary: t) (auto split: sum.splits)

lemma end_inv:
  assumes inv: "tokenizerInv t fed" and n: "AbstractTokenizer_next lx None t = Inr t'"
  shows "tokensText (tokenString t') = fed \<and> tokensContiguous 0 (tokenString t')"
proof -
  from inv have a: "tokensText (tokenString t) @ stringBuffer t = fed"
    "charIdx t = length fed" "tokStartIdx t = length (tokensText (tokenString t))"
    "tokensContiguous 0 (tokenString t)" "\<not> ended t" by (simp_all add: tokenizerInv_def)
  have ci: "charIdx t = tokStartIdx t + length (stringBuffer t)"
    using a(1,2,3) by (metis length_append)
  show ?thesis
  proof (cases "charIdx t > tokStartIdx t")
    case True
    then have ne: "stringBuffer t \<noteq> []" using ci by auto
    from n a(5) True have "tokenString t' = tokenString t
        @ [mkToken (matchEndCharacter lx (lexerState t)) (stringBuffer t) (tokStartIdx t) (charIdx t)]"
      by (auto simp: AbstractTokenizer_next_def)
    then show ?thesis using a ne ci by (simp add: tokensContiguous_append mkToken_def)
  next
    case False
    then have e: "stringBuffer t = []" using ci by auto
    from n a(5) False have "tokenString t' = tokenString t"
      by (auto simp: AbstractTokenizer_next_def)
    then show ?thesis using a e by simp
  qed
qed

lemma sourceChars_eq:
  "sourceChars codeLines
     = map Some (map (\<lambda>c. [c]) (concat (map (\<lambda>l. l @ newline) codeLines))) @ [None]"
  by (induction codeLines) (simp_all add: sourceChars_def lineChars_def)

lemma concat_singletons: "concat (map (\<lambda>c. [c]) xs) = xs"
  by (induction xs) simp_all

lemma tokenizerInv_new: "tokenizerInv (AbstractTokenizer_new lx) []"
  by (simp add: tokenizerInv_def AbstractTokenizer_new_def)

lemma lexSource_round_trip:
  assumes "lexSource lx codeLines = Inr toks"
  shows "tokensText toks = concat (map (\<lambda>l. l @ newline) codeLines) \<and> tokensContiguous 0 toks"
proof -
  let ?fed = "concat (map (\<lambda>l. l @ newline) codeLines)"
  from assms obtain t where
    t: "feedChars lx (sourceChars codeLines) (AbstractTokenizer_new lx) = Inr t"
       "toks = tokenString t"
    by (auto simp: lexSource_def split: sum.splits)
  from t(1) obtain t1 where
    t1: "feedChars lx (map Some (map (\<lambda>c. [c]) ?fed)) (AbstractTokenizer_new lx) = Inr t1"
        "AbstractTokenizer_next lx None t1 = Inr t"
    unfolding sourceChars_eq feedChars_append by (auto split: sum.splits)
  from feedChars_inv[OF tokenizerInv_new t1(1)] have "tokenizerInv t1 ?fed"
    by (simp add: concat_singletons)
  from end_inv[OF this t1(2)] t(2) show ?thesis by simp
qed

lemma splitLines_concat:
  assumes "CHR 0x0D \<notin> set cur" "CHR 0x0D \<notin> set cs"
  shows "concat (map (\<lambda>l. l @ newline) (splitLines cur cs)) = cur @ cs @ newline"
  using assms
proof (induction cs arbitrary: cur)
  case Nil
  then show ?case by simp
next
  case (Cons c cs)
  show ?case
  proof (cases "c = CHR 0x0A")
    case True
    have "\<not> (cur \<noteq> [] \<and> last cur = CHR 0x0D)" using Cons.prems(1) last_in_set by metis
    then have "splitLines cur (c # cs) = cur # splitLines [] cs" using True by auto
    then show ?thesis using True Cons.IH[of "[]"] Cons.prems by simp
  next
    case False
    then show ?thesis using Cons by simp
  qed
qed

text \<open>
  Claim C5 says that the texts of the tokens lexed from a source \<open>S\<close> concatenate to
  \<open>S\<close>, with a trailing \<open>"\n"\<close> added if the final line lacks one. The front end feeds a
  \<open>"\n"\<close> after every line of \<open>codeLines\<close>, and \<open>splitIntoLines\<close> gives a source that
  ends in \<open>"\n"\<close> an empty last line: for \<open>S = "a\n"\<close> the token texts concatenate to
  \<open>"a\n\n"\<close>.
\<close>

theorem lex_round_trip_counterexample:
  "lexSource PythonLexer (splitIntoLines (''a'' @ newline))
     = Inr [mkToken OTHERS ''a'' 0 1, mkToken SPACINGS newline 1 2, mkToken SPACINGS newline 2 3]
   \<and> tokensText [mkToken OTHERS ''a'' 0 1, mkToken SPACINGS newline 1 2,
                  mkToken SPACINGS newline 2 3] \<noteq> ''a'' @ newline"
  by code_simp

text \<open>
  Claim C5, amended. For every lexer and every \<open>codeLines\<close> that the front end lexes
  without a throw, the token texts concatenate to the lines of \<open>codeLines\<close>, each followed
  by \<open>"\n"\<close>; the tokens are non-empty, each covers as many flat offsets as its text is
  long, the first starts at offset 0 and each next one starts where the one before it
  ends. For a source \<open>S\<close> without \<open>"\r"\<close>, split by \<open>splitIntoLines\<close>, the concatenation
  is \<open>S\<close> followed by one \<open>"\n"\<close>, whether or not \<open>S\<close> ends in \<open>"\n"\<close>.
\<close>

theorem lex_round_trip:
  "(lexSource lx codeLines = Inr toks
      \<longrightarrow> tokensText toks = concat (map (\<lambda>l. l @ newline) codeLines)
          \<and> tokensContiguous 0 toks)
   \<and> (CHR 0x0D \<notin> set S \<and> lexSource lx (splitIntoLines S) = Inr toks'
      \<longrightarrow> tokensText toks' = S @ newline \<and> tokensContiguous 0 toks')"
proof (intro conjI impI)
  assume a: "lexSource lx codeLines = Inr toks"
  from lexSource_round_trip[OF a]
  show "tokensText toks = concat (map (\<lambda>l. l @ newline) codeLines)"
    and "tokensContiguous 0 toks" by simp_all
next
  assume a: "CHR 0x0D \<notin> set S \<and> lexSource lx (splitIntoLines S) = Inr toks'"
  then have r: "tokensText toks' = concat (map (\<lambda>l. l @ newline) (splitIntoLines S))"
    "tokensContiguous 0 toks'"
    using lexSource_round_trip[of lx "splitIntoLines S" toks'] by simp_all
  from a have "concat (map (\<lambda>l. l @ newline) (splitIntoLines S)) = S @ newline"
    using splitLines_concat[of "[]" S] by (simp add: splitIntoLines_def)
  with r show "tokensText toks' = S @ newline" and "tokensContiguous 0 toks'" by simp_all
qed

theorem lex_round_trip_witness:
  "tokensText [mkToken OTHERS ''x'' 0 1, mkToken SPACINGS '' '' 1 2, mkToken OTHERS ''='' 2 3,
          mkToken SPACINGS '' '' 3 4, mkToken BRACES ''('' 4 5, mkToken OTHERS ''1'' 5 6,
          mkToken SPACINGS '' '' 6 7, mkToken OTHERS ''+'' 7 8, mkToken SPACINGS newline 8 9]
     = ''x = (1 +'' @ newline"
proof -
  let ?toks = "[mkToken OTHERS ''x'' 0 1, mkToken SPACINGS '' '' 1 2, mkToken OTHERS ''='' 2 3,
          mkToken SPACINGS '' '' 3 4, mkToken BRACES ''('' 4 5, mkToken OTHERS ''1'' 5 6,
          mkToken SPACINGS '' '' 6 7, mkToken OTHERS ''+'' 7 8, mkToken SPACINGS newline 8 9]"
  have l: "lexSource PythonLexer (splitIntoLines ''x = (1 +'') = Inr ?toks" by code_simp
  have c: "CHR 0x0D \<notin> set ''x = (1 +''" by simp
  show ?thesis
    using lex_round_trip[of PythonLexer "splitIntoLines ''x = (1 +''" ?toks "''x = (1 +''" ?toks]
      l c by blast
qed

section \<open>The syntax tree\<close>

text \<open>
  The node classes of \<open>nodes/\<close>. A class is a constructor of \<open>NodeData\<close> with the
  attributes it adds to \<open>SyntaxNode\<close>; \<open>instanceof\<close> is a test on \<open>kindOf\<close>. A parent owns
  its children, so a tree is a value. Of the back reference \<open>parent\<close> the sources read
  only the class (\<open>getParent() instanceof ...\<close>) and whether it is \<open>null\<close>; the field
  \<open>parentKind\<close> holds that, and \<open>siblingRank\<close> is the field of the source. Both are set
  by \<open>addChild\<close> and by nothing else.
\<close>

datatype NodeKind =
    TopLevel | References | Classes | Functions | FunctionGroups
  | FunctionDeclaration | Argument | Attributes | Comments

datatype NodeData =
    TopLevelData
  | ReferencesData (referenceText: string) (refRelativePath: "string option")
  | ClassesData (classType: "string option") (classDefinitionText: string)
  | FunctionsData (functionDefinitionText: string) (funcBodyNonEmpty: bool)
  | FunctionGroupsData
  | FunctionDeclarationData (functionName: string) (functionReturnType: "string option")
  | ArgumentData (argumentName: string) (argumentType: "string option")
  | AttributesData (attributeName: string) (attributeType: "string option")
  | CommentsData (isMultiLine: bool) (commentContents: string)

fun kindOfData :: "NodeData \<Rightarrow> NodeKind" where
  "kindOfData TopLevelData = TopLevel"
| "kindOfData (ReferencesData _ _) = References"
| "kindOfData (ClassesData _ _) = Classes"
| "kindOfData (FunctionsData _ _) = Functions"
| "kindOfData FunctionGroupsData = FunctionGroups"
| "kindOfData (FunctionDeclarationData _ _) = FunctionDeclaration"
| "kindOfData (ArgumentData _ _) = Argument"
| "kindOfData (AttributesData _ _) = Attributes"
| "kindOfData (CommentsData _ _) = Comments"

datatype SyntaxNode =
  SyntaxNode (nodeData: NodeData) (nodeRange: Range) (innerRangeOverride: "Range option")
    (siblingRank: nat) (parentKind: "NodeKind option") (children: "SyntaxNode list")

definition kindOf :: "SyntaxNode \<Rightarrow> NodeKind" where
  "kindOf node = kindOfData (nodeData node)"

text \<open>The constructor of \<open>SyntaxNode\<close>: no parent, no children, rank 0.\<close>

definition newNode :: "NodeData \<Rightarrow> Range \<Rightarrow> SyntaxNode" where
  "newNode d r = SyntaxNode d r None 0 None []"

definition overrideInnerRange :: "Range \<Rightarrow> SyntaxNode \<Rightarrow> error + SyntaxNode" where
  "overrideInnerRange r node =
     (if \<not> contains (nodeRange node) r
        then Inl (Error ''Inner range must be contained inside the full range!'')
      else Inr (SyntaxNode (nodeData node) (nodeRange node) (Some r) (siblingRank node)
                  (parentKind node) (children node)))"

definition addChild :: "SyntaxNode \<Rightarrow> SyntaxNode \<Rightarrow> SyntaxNode" where
  "addChild parent node =
     SyntaxNode (nodeData parent) (nodeRange parent) (innerRangeOverride parent)
       (siblingRank parent) (parentKind parent)
       (children parent
          @ [SyntaxNode (nodeData node) (nodeRange node) (innerRangeOverride node)
               (length (children parent)) (Some (kindOf parent)) (children node)])"

definition flagHaveFunctionBody :: "SyntaxNode \<Rightarrow> SyntaxNode" where
  "flagHaveFunctionBody node =
     (case nodeData node of
        FunctionsData txt _ \<Rightarrow>
          SyntaxNode (FunctionsData txt True) (nodeRange node) (innerRangeOverride node)
            (siblingRank node) (parentKind node) (children node)
      | _ \<Rightarrow> node)"

definition getInnerRange :: "SyntaxNode \<Rightarrow> Range option" where
  "getInnerRange node =
     (case innerRangeOverride node of
        Some r \<Rightarrow> Some r
      | None \<Rightarrow>
          if children node = [] then None
          else (case mergeRanges (map nodeRange (children node)) of
                  Inl _ \<Rightarrow> None
                | Inr r \<Rightarrow> Some r))"

definition getPrefixRange :: "SyntaxNode \<Rightarrow> Range option" where
  "getPrefixRange node =
     (case getInnerRange node of
        None \<Rightarrow> None
      | Some innerRange \<Rightarrow>
          Some (indexesToRange (rangeToStartIndex (nodeRange node)) (rangeToStartIndex innerRange)))"

definition getSuffixRange :: "SyntaxNode \<Rightarrow> Range option" where
  "getSuffixRange node =
     (case getInnerRange node of
        None \<Rightarrow> None
      | Some innerRange \<Rightarrow>
          Some (indexesToRange (rangeToEndIndex innerRange) (rangeToEndIndex (nodeRange node))))"

text \<open>\<open>AbstractSyntaxTree\<close>: the root and the source lines.\<close>

record AbstractSyntaxTree =
  root :: SyntaxNode
  ast_sourceLines :: "string list"

fun joinLines :: "string list \<Rightarrow> string" where
  "joinLines [] = []"
| "joinLines [l] = l"
| "joinLines (l # ls) = l @ newline @ joinLines ls"

text \<open>
  \<open>getSourceText\<close>. Reading \<open>sourceLines[start_line].length\<close> for a start line beyond the
  last line is a \<open>TypeError\<close>.
\<close>

definition getSourceText :: "string list \<Rightarrow> nat \<Rightarrow> nat \<Rightarrow> nat \<Rightarrow> nat \<Rightarrow> error + string" where
  "getSourceText srcLines sl sc el ec =
     (let n = length srcLines in
      if el > n \<or> sl > el \<or> (sl = el \<and> sc > ec)
        then Inl (Error ''Invalid range specified.'')
      else if (el = n \<and> ec \<noteq> 0) \<or> (el < n \<and> ec > length (srcLines ! el))
        then Inl (Error ''Invalid range specified. The end character is not a valid character.'')
      else if sl \<ge> n then Inl (TypeError ''Cannot read properties of undefined'')
      else if sc > length (srcLines ! sl)
        then Inl (Error ''Invalid range specified. The start character is not a valid character.'')
      else
        let sliced = take (min (el + 1) n - sl) (drop sl srcLines);
            ls = (if el = n then sliced @ [[]] else sliced)
        in if length ls = 1 then Inr (substring (ls ! 0) (int sc) (int ec))
           else
             let ls1 = ls[0 := substring (ls ! 0) (int sc) (int (length (ls ! 0)))];
                 k = length ls1 - 1;
                 ls2 = ls1[k := substring (ls1 ! k) 0 (int ec)]
             in Inr (joinLines ls2))"

definition getSourceTextFromRange :: "string list \<Rightarrow> Range \<Rightarrow> error + string" where
  "getSourceTextFromRange srcLines r =
     getSourceText srcLines (start_line r) (start_character r) (end_line r) (end_character r)"

section \<open>The tree tokenizer\<close>

datatype TreeTokenType =
    TT_TOP_LEVEL | TT_REFERENCES | TT_FUNCTION_GROUP | TT_FUNCTION | TT_FUNCTION_DEFINITION
  | TT_COMMENTS | TT_CLASS | TT_ATTRIBUTE | TT_ARGUMENT | TT_OTHERS

text \<open>
  A tree token. The optional back reference \<open>originalNode\<close>, which the tokenizers only
  store for the visualizer, is represented by the class of that node.
\<close>

record TreeToken =
  tt_stringContents :: string
  tt_tokenType :: TreeTokenType
  tt_range :: "Range option"
  tt_originalNode :: "NodeKind option"

datatype TokenAction = TERMINATE | RESOLVE

record TextRange =
  tr_text :: string
  tr_range :: Range

datatype TokenizationMode =
    NONE | TOP_LEVEL_ONLY | FUNCTIONS_AND_CLASSES | FUNCTIONS_AND_CLASSES_AND_ARGUMENTS | EVERYTHING

record ConvertResult =
  prefixTokens :: "TreeToken list option"
  suffixTokens :: "TreeToken list option"
  action :: TokenAction

text \<open>\<open>ASTGenericTokenizer.getTexts\<close>: the text of the node, of its prefix and of its suffix.\<close>

definition textOfRange :: "string list \<Rightarrow> Range option \<Rightarrow> error + TextRange option" where
  "textOfRange srcLines r =
     (case r of
        None \<Rightarrow> Inr None
      | Some rg \<Rightarrow>
          if compare (rangeToStartIndex rg) (rangeToEndIndex rg) = -1 then
            (case getSourceTextFromRange srcLines rg of
               Inl e \<Rightarrow> Inl e
             | Inr txt \<Rightarrow> Inr (Some \<lparr>tr_text = txt, tr_range = rg\<rparr>))
          else Inr None)"

definition getTexts ::
  "string list \<Rightarrow> SyntaxNode \<Rightarrow> error + (TextRange \<times> TextRange option \<times> TextRange option)" where
  "getTexts srcLines node =
     (let prefixRange = getPrefixRange node; suffixRange = getSuffixRange node in
      if (kindOf node = Functions \<or> kindOf node = Classes)
         \<and> (prefixRange = None \<or> suffixRange = None)
        then Inl (CodeParserImplError ''The Parser must resolve the inner range for Functions and Classes!'')
      else
        case getSourceTextFromRange srcLines (nodeRange node) of
          Inl e \<Rightarrow> Inl e
        | Inr tokenText \<Rightarrow>
            (case textOfRange srcLines prefixRange of
               Inl e \<Rightarrow> Inl e
             | Inr tokenPrefixText \<Rightarrow>
                 (case textOfRange srcLines suffixRange of
                    Inl e \<Rightarrow> Inl e
                  | Inr tokenSuffixText \<Rightarrow>
                      Inr (\<lparr>tr_text = tokenText, tr_range = nodeRange node\<rparr>,
                           tokenPrefixText, tokenSuffixText))))"

subsection \<open>ASTFaithfulTokenizer\<close>

text \<open>
  The fields of the tokenizer that stay fixed during one \<open>tokenize\<close> call are in
  \<open>FaithfulTokenizer\<close>; \<open>prevEndIndex\<close> and the growing \<open>tokenString\<close> are passed through
  the walk.
\<close>

record FaithfulTokenizer =
  ft_sourceLines :: "string list"
  tokenizationMode :: TokenizationMode
  excludeInnerRangeIfPossible :: bool
  globalStartIndex :: Index
  globalEndIndex :: Index

definition rangedToken :: "TextRange \<Rightarrow> TreeTokenType \<Rightarrow> NodeKind option \<Rightarrow> TreeToken" where
  "rangedToken tx ty orig =
     \<lparr>tt_stringContents = tr_text tx, tt_tokenType = ty, tt_range = Some (tr_range tx),
      tt_originalNode = orig\<rparr>"

text \<open>
  \<open>fillerBefore\<close> is the comparison of \<open>prevEndIndex\<close> with the start of a range that
  \<open>getPrefixTokens\<close> and \<open>handleFirstSuffixTokenIfNecessary\<close> share: a throw when the
  range starts before \<open>prevEndIndex\<close>, an \<open>OTHERS\<close> token for a gap, nothing otherwise.
\<close>

definition fillerBefore ::
  "FaithfulTokenizer \<Rightarrow> Index \<Rightarrow> Range \<Rightarrow> error + TreeToken list" where
  "fillerBefore ft prevEndIndex r =
     (let comparison = compare prevEndIndex (rangeToStartIndex r) in
      if comparison = 1
        then Inl (Error ''Invalid comparison! Expected previous end to be less than or equal to the current range.'')
      else if comparison = -1 then
        (let fillRange = indexesToRange prevEndIndex (rangeToStartIndex r) in
         case getSourceTextFromRange (ft_sourceLines ft) fillRange of
           Inl e \<Rightarrow> Inl e
         | Inr txt \<Rightarrow>
             Inr [\<lparr>tt_stringContents = txt, tt_tokenType = TT_OTHERS, tt_range = Some fillRange,
                   tt_originalNode = None\<rparr>])
      else Inr [])"

definition getPrefixTokens ::
  "FaithfulTokenizer \<Rightarrow> TextRange \<Rightarrow> TreeTokenType \<Rightarrow> NodeKind option \<Rightarrow> Index
     \<Rightarrow> error + (TreeToken list \<times> Index)" where
  "getPrefixTokens ft tokenText ty orig prevEndIndex =
     (case fillerBefore ft prevEndIndex (tr_range tokenText) of
        Inl e \<Rightarrow> Inl e
      | Inr filler \<Rightarrow>
          Inr (filler @ [rangedToken tokenText ty orig], rangeToEndIndex (tr_range tokenText)))"

definition handleFirstSuffixTokenIfNecessary ::
  "FaithfulTokenizer \<Rightarrow> TreeToken \<Rightarrow> Index \<Rightarrow> error + TreeToken list" where
  "handleFirstSuffixTokenIfNecessary ft firstSuffixToken prevEndIndex =
     (case tt_range firstSuffixToken of
        None \<Rightarrow> Inr []
      | Some r \<Rightarrow> fillerBefore ft prevEndIndex r)"

text \<open>A node emitted whole: \<open>{prefixTokens: getPrefixTokens(tokenText, ...), action}\<close>.\<close>

definition emitWhole ::
  "FaithfulTokenizer \<Rightarrow> TextRange \<Rightarrow> TreeTokenType \<Rightarrow> NodeKind \<Rightarrow> TokenAction \<Rightarrow> Index
     \<Rightarrow> error + (ConvertResult \<times> Index)" where
  "emitWhole ft tokenText ty k act prevEndIndex =
     (case getPrefixTokens ft tokenText ty (Some k) prevEndIndex of
        Inl e \<Rightarrow> Inl e
      | Inr (toks, p) \<Rightarrow>
          Inr (\<lparr>prefixTokens = Some toks, suffixTokens = None, action = act\<rparr>, p))"

text \<open>
  The block that the four \<open>convert...\<close> methods repeat for classes, functions and function
  declarations: if \<open>splitCondition\<close> holds and there is a prefix text, the prefix (and the
  suffix, if there is one) is emitted with action \<open>actSplit\<close>; otherwise the whole text
  with action \<open>actWhole\<close>.
\<close>

definition emitSplit ::
  "FaithfulTokenizer \<Rightarrow> bool \<Rightarrow> TextRange \<Rightarrow> TextRange option \<Rightarrow> TextRange option
     \<Rightarrow> TreeTokenType \<Rightarrow> NodeKind \<Rightarrow> TokenAction \<Rightarrow> TokenAction \<Rightarrow> Index
     \<Rightarrow> error + (ConvertResult \<times> Index)" where
  "emitSplit ft splitCondition tokenText tokenPrefixText tokenSuffixText ty k actSplit actWhole
     prevEndIndex =
     (case tokenPrefixText of
        Some pre \<Rightarrow>
          if splitCondition then
            (case getPrefixTokens ft pre ty (Some k) prevEndIndex of
               Inl e \<Rightarrow> Inl e
             | Inr (toks, p) \<Rightarrow>
                 (case tokenSuffixText of
                    Some suf \<Rightarrow>
                      Inr (\<lparr>prefixTokens = Some toks,
                            suffixTokens = Some [rangedToken suf ty (Some k)],
                            action = actSplit\<rparr>, p)
                  | None \<Rightarrow>
                      Inr (\<lparr>prefixTokens = Some toks, suffixTokens = None,
                            action = actSplit\<rparr>, p)))
          else emitWhole ft tokenText ty k actWhole prevEndIndex
      | None \<Rightarrow> emitWhole ft tokenText ty k actWhole prevEndIndex)"

definition noTokens :: "TokenAction \<Rightarrow> Index \<Rightarrow> error + (ConvertResult \<times> Index)" where
  "noTokens act prevEndIndex =
     Inr (\<lparr>prefixTokens = None, suffixTokens = None, action = act\<rparr>, prevEndIndex)"

definition notExplored :: "error + (ConvertResult \<times> Index)" where
  "notExplored = Inl (Error ''Some scenarios not explored!'')"

definition convertTopLevel ::
  "FaithfulTokenizer \<Rightarrow> SyntaxNode \<Rightarrow> nat \<Rightarrow> TextRange \<Rightarrow> TextRange option
     \<Rightarrow> TextRange option \<Rightarrow> Index \<Rightarrow> error + (ConvertResult \<times> Index)" where
  "convertTopLevel ft node depth tokenText tokenPrefixText tokenSuffixText prevEndIndex =
     (if depth = 0 then noTokens RESOLVE prevEndIndex
      else if kindOf node = References
        then emitWhole ft tokenText TT_REFERENCES References TERMINATE prevEndIndex
      else if kindOf node = Comments then
        (if parentKind node = Some TopLevel
           then emitWhole ft tokenText TT_COMMENTS Comments TERMINATE prevEndIndex
         else noTokens TERMINATE prevEndIndex)
      else if kindOf node = Classes
        then emitSplit ft (excludeInnerRangeIfPossible ft) tokenText tokenPrefixText
               tokenSuffixText TT_CLASS Classes TERMINATE TERMINATE prevEndIndex
      else if kindOf node = FunctionGroups then noTokens RESOLVE prevEndIndex
      else if kindOf node = Functions
        then emitSplit ft (excludeInnerRangeIfPossible ft) tokenText tokenPrefixText
               tokenSuffixText TT_FUNCTION Functions TERMINATE TERMINATE prevEndIndex
      else notExplored)"

definition convertFunctionsAndClasses ::
  "FaithfulTokenizer \<Rightarrow> SyntaxNode \<Rightarrow> nat \<Rightarrow> TextRange \<Rightarrow> TextRange option
     \<Rightarrow> TextRange option \<Rightarrow> Index \<Rightarrow> error + (ConvertResult \<times> Index)" where
  "convertFunctionsAndClasses ft node depth tokenText tokenPrefixText tokenSuffixText
     prevEndIndex =
     (if depth = 0 then noTokens RESOLVE prevEndIndex
      else if kindOf node = References
        then emitWhole ft tokenText TT_REFERENCES References TERMINATE prevEndIndex
      else if kindOf node = Comments then
        (if excludeInnerRangeIfPossible ft \<or> parentKind node \<noteq> Some FunctionGroups
            \<or> siblingRank node = 0
           then emitWhole ft tokenText TT_COMMENTS Comments TERMINATE prevEndIndex
         else noTokens TERMINATE prevEndIndex)
      else if kindOf node = Classes
        then emitSplit ft True tokenText tokenPrefixText tokenSuffixText TT_CLASS Classes
               RESOLVE RESOLVE prevEndIndex
      else if kindOf node = Attributes
        then emitWhole ft tokenText TT_ATTRIBUTE Attributes TERMINATE prevEndIndex
      else if kindOf node = FunctionGroups then noTokens RESOLVE prevEndIndex
      else if kindOf node = Functions
        then emitSplit ft (excludeInnerRangeIfPossible ft) tokenText tokenPrefixText
               tokenSuffixText TT_FUNCTION Functions TERMINATE TERMINATE prevEndIndex
      else notExplored)"

definition convertFunctionsAndClassesAndArguments ::
  "FaithfulTokenizer \<Rightarrow> SyntaxNode \<Rightarrow> nat \<Rightarrow> TextRange \<Rightarrow> TextRange option
     \<Rightarrow> TextRange option \<Rightarrow> Index \<Rightarrow> error + (ConvertResult \<times> Index)" where
  "convertFunctionsAndClassesAndArguments ft node depth tokenText tokenPrefixText
     tokenSuffixText prevEndIndex =
     (if depth = 0 then noTokens RESOLVE prevEndIndex
      else if kindOf node = References
        then emitWhole ft tokenText TT_REFERENCES References TERMINATE prevEndIndex
      else if kindOf node = Comments then
        (if parentKind node = Some Functions then noTokens TERMINATE prevEndIndex
         else emitWhole ft tokenText TT_COMMENTS Comments TERMINATE prevEndIndex)
      else if kindOf node = Classes
        then emitSplit ft True tokenText tokenPrefixText tokenSuffixText TT_CLASS Classes
               RESOLVE RESOLVE prevEndIndex
      else if kindOf node = Attributes
        then emitWhole ft tokenText TT_ATTRIBUTE Attributes TERMINATE prevEndIndex
      else if kindOf node = FunctionGroups then noTokens RESOLVE prevEndIndex
      else if kindOf node = Functions then noTokens RESOLVE prevEndIndex
      else if kindOf node = FunctionDeclaration
        then emitSplit ft True tokenText tokenPrefixText tokenSuffixText TT_FUNCTION_DEFINITION
               FunctionDeclaration RESOLVE TERMINATE prevEndIndex
      else if kindOf node = Argument
        then emitWhole ft tokenText TT_ARGUMENT Argument TERMINATE prevEndIndex
      else notExplored)"

definition convertEverything ::
  "FaithfulTokenizer \<Rightarrow> SyntaxNode \<Rightarrow> nat \<Rightarrow> TextRange \<Rightarrow> TextRange option
     \<Rightarrow> TextRange option \<Rightarrow> Index \<Rightarrow> error + (ConvertResult \<times> Index)" where
  "convertEverything ft node depth tokenText tokenPrefixText tokenSuffixText prevEndIndex =
     (if depth = 0 then noTokens RESOLVE prevEndIndex
      else if kindOf node = References
        then emitWhole ft tokenText TT_REFERENCES References TERMINATE prevEndIndex
      else if kindOf node = Comments then
        (if parentKind node \<noteq> Some FunctionGroups \<or> siblingRank node = 0
           then emitWhole ft tokenText TT_COMMENTS Comments TERMINATE prevEndIndex
         else noTokens TERMINATE prevEndIndex)
      else if kindOf node = Classes
        then emitSplit ft True tokenText tokenPrefixText tokenSuffixText TT_CLASS Classes
               RESOLVE RESOLVE prevEndIndex
      else if kindOf node = Attributes
        then emitWhole ft tokenText TT_ATTRIBUTE Attributes TERMINATE prevEndIndex
      else if kindOf node = FunctionGroups then noTokens RESOLVE prevEndIndex
      else if kindOf node = Functions then noTokens RESOLVE prevEndIndex
      else if kindOf node = FunctionDeclaration
        then emitSplit ft True tokenText tokenPrefixText tokenSuffixText TT_FUNCTION_DEFINITION
               FunctionDeclaration RESOLVE TERMINATE prevEndIndex
      else if kindOf node = Argument
        then emitWhole ft tokenText TT_ARGUMENT Argument TERMINATE prevEndIndex
      else notExplored)"

definition convertIntoTokens ::
  "FaithfulTokenizer \<Rightarrow> SyntaxNode \<Rightarrow> nat \<Rightarrow> TextRange \<Rightarrow> TextRange option
     \<Rightarrow> TextRange option \<Rightarrow> Index \<Rightarrow> error + (ConvertResult \<times> Index)" where
  "convertIntoTokens ft node depth tokenText tokenPrefixText tokenSuffixText prevEndIndex =
     (case tokenizationMode ft of
        NONE \<Rightarrow>
          Inr (\<lparr>prefixTokens = Some [rangedToken tokenText TT_TOP_LEVEL (Some (kindOf node))],
                suffixTokens = None, action = TERMINATE\<rparr>, globalEndIndex ft)
      | TOP_LEVEL_ONLY \<Rightarrow>
          convertTopLevel ft node depth tokenText tokenPrefixText tokenSuffixText prevEndIndex
      | FUNCTIONS_AND_CLASSES \<Rightarrow>
          convertFunctionsAndClasses ft node depth tokenText tokenPrefixText tokenSuffixText
            prevEndIndex
      | FUNCTIONS_AND_CLASSES_AND_ARGUMENTS \<Rightarrow>
          convertFunctionsAndClassesAndArguments ft node depth tokenText tokenPrefixText
            tokenSuffixText prevEndIndex
      | EVERYTHING \<Rightarrow>
          convertEverything ft node depth tokenText tokenPrefixText tokenSuffixText prevEndIndex)"

text \<open>
  The suffix part of \<open>recursivelyTokenize\<close>: a filler before the first suffix token if
  needed, the suffix tokens, and \<open>prevEndIndex\<close> moved to the end of the last suffix
  token that has a range.
\<close>

definition lastWithRange :: "TreeToken list \<Rightarrow> TreeToken option" where
  "lastWithRange toks =
     (case filter (\<lambda>tok. tt_range tok \<noteq> None) toks of [] \<Rightarrow> None | ts \<Rightarrow> Some (last ts))"

definition pushSuffixTokens ::
  "FaithfulTokenizer \<Rightarrow> TreeToken list option \<Rightarrow> TreeToken list \<times> Index
     \<Rightarrow> error + (TreeToken list \<times> Index)" where
  "pushSuffixTokens ft suffixToks st =
     (case suffixToks of
        None \<Rightarrow> Inr st
      | Some sufToks \<Rightarrow>
          (case (if length sufToks > 0
                   then handleFirstSuffixTokenIfNecessary ft (sufToks ! 0) (snd st)
                 else Inr []) of
             Inl e \<Rightarrow> Inl e
           | Inr additional \<Rightarrow>
               Inr (fst st @ additional @ sufToks,
                    (case lastWithRange sufToks of
                       None \<Rightarrow> snd st
                     | Some tok \<Rightarrow> rangeToEndIndex (the (tt_range tok))))))"

text \<open>
  \<open>recursivelyTokenize\<close> as \<open>tokenize\<close> calls it: \<open>nodeToReplace\<close> and the subtree
  restriction are \<open>null\<close>. The pair is \<open>(tokenString, prevEndIndex)\<close>.
\<close>

fun recursivelyTokenize ::
  "FaithfulTokenizer \<Rightarrow> SyntaxNode \<Rightarrow> nat \<Rightarrow> TreeToken list \<times> Index
     \<Rightarrow> error + (TreeToken list \<times> Index)"
and tokenizeChildren ::
  "FaithfulTokenizer \<Rightarrow> SyntaxNode list \<Rightarrow> nat \<Rightarrow> TreeToken list \<times> Index
     \<Rightarrow> error + (TreeToken list \<times> Index)" where
  "recursivelyTokenize ft (SyntaxNode d r i rk pk cs) depth st =
     (case getTexts (ft_sourceLines ft) (SyntaxNode d r i rk pk cs) of
        Inl e \<Rightarrow> Inl e
      | Inr (tokenText, tokenPrefixText, tokenSuffixText) \<Rightarrow>
          (case convertIntoTokens ft (SyntaxNode d r i rk pk cs) depth tokenText tokenPrefixText
                  tokenSuffixText (snd st) of
             Inl e \<Rightarrow> Inl e
           | Inr (res, prevEndIndex) \<Rightarrow>
               (let st1 = (fst st @ (case prefixTokens res of None \<Rightarrow> [] | Some toks \<Rightarrow> toks),
                           prevEndIndex)
                in case (if action res = RESOLVE then tokenizeChildren ft cs (depth + 1) st1
                         else Inr st1) of
                     Inl e \<Rightarrow> Inl e
                   | Inr st2 \<Rightarrow> pushSuffixTokens ft (suffixTokens res) st2)))"
| "tokenizeChildren ft [] depth st = Inr st"
| "tokenizeChildren ft (child # rest) depth st =
     (case recursivelyTokenize ft child depth st of
        Inl e \<Rightarrow> Inl e
      | Inr st' \<Rightarrow> tokenizeChildren ft rest depth st')"

text \<open>\<open>posttokenize\<close>: the rest of the source after \<open>prevEndIndex\<close> as an \<open>OTHERS\<close> token.\<close>

definition posttokenize ::
  "FaithfulTokenizer \<Rightarrow> TreeToken list \<times> Index \<Rightarrow> error + TreeToken list" where
  "posttokenize ft st =
     (let diff = compare (snd st) (globalEndIndex ft) in
      if diff = -1 then
        (let r = indexesToRange (snd st) (globalEndIndex ft) in
         case getSourceTextFromRange (ft_sourceLines ft) r of
           Inl e \<Rightarrow> Inl e
         | Inr txt \<Rightarrow>
             Inr (fst st @ [\<lparr>tt_stringContents = txt, tt_tokenType = TT_OTHERS,
                             tt_range = Some r, tt_originalNode = None\<rparr>]))
      else if diff = 1 then Inl (Error ''Unexpected end index larger than global end!'')
      else Inr (fst st))"

text \<open>\<open>tokenize\<close> of the faithful tokenizer, and the public \<open>flattenFaithfully\<close>.\<close>

definition flattenFaithfully ::
  "AbstractSyntaxTree \<Rightarrow> TokenizationMode \<Rightarrow> bool \<Rightarrow> error + TreeToken list" where
  "flattenFaithfully tree mode excl =
     (let maxRange = getMaxRange (ast_sourceLines tree);
          ft = \<lparr>ft_sourceLines = ast_sourceLines tree, tokenizationMode = mode,
                excludeInnerRangeIfPossible = excl,
                globalStartIndex = rangeToStartIndex maxRange,
                globalEndIndex = rangeToEndIndex maxRange\<rparr>
      in case recursivelyTokenize ft (root tree) 0 ([], globalStartIndex ft) of
           Inl e \<Rightarrow> Inl e
         | Inr st \<Rightarrow> posttokenize ft st)"

definition tokensToString :: "TreeToken list \<Rightarrow> string" where
  "tokensToString tokens = concat (map tt_stringContents tokens)"

section \<open>The grammar parser framework\<close>

text \<open>
  \<open>Terminal\<close> and \<open>NonTerminal\<close> of \<open>ParsingTypes.ts\<close> are string enums with pairwise
  different values and are used as one union type; \<open>Symbol\<close> is that union.
\<close>

datatype Symbol =
    TOP_LEVEL | CLASSES | FUNCTIONS | FUNCTION_DECLARATION | FUNCTION_BODY
  | COMMENT_SINGLELINE | COMMENT_MULTILINE | REFERENCES | ARGUMENT | ATTRIBUTES
  | FILLER | STATEMENTS_FILLER

fun isTerminal :: "Symbol \<Rightarrow> bool" where
  "isTerminal TOP_LEVEL = False"
| "isTerminal CLASSES = False"
| "isTerminal FUNCTIONS = False"
| "isTerminal FUNCTION_DECLARATION = False"
| "isTerminal FUNCTION_BODY = False"
| "isTerminal _ = True"

text \<open>
  Token indices are JavaScript numbers that the detectors compute by subtraction and
  initialise with -1, so they are integers here.
\<close>

record TokenRange =
  startTok :: int
  endTok :: int

record 'i SymbolInfo =
  symbolType :: Symbol
  parseRange :: "TokenRange option"
  nodeCreationInformation :: "'i option"

record 'i SymbolAdditionDirective =
  symbol :: "'i SymbolInfo"
  secondSymbol :: "'i SymbolInfo option"
  secondSymbolLen :: "int option"
  firstTwoSymbolsEndBufferLen :: "int option"

text \<open>The private fields of \<open>AbstractParser\<close> that \<open>parse\<close> fills before parsing starts.\<close>

record ParserContext =
  sourceLines :: "string list"
  positionMap :: "Index list"
  numChars :: nat
  sourceTokens :: "Token list"

text \<open>Reading an array at a number: \<open>undefined\<close> outside the array.\<close>

definition at :: "'a list \<Rightarrow> int \<Rightarrow> 'a option" where
  "at xs i = (if 0 \<le> i \<and> i < int (length xs) then Some (xs ! nat i) else None)"

definition getTokenChRange :: "ParserContext \<Rightarrow> int \<Rightarrow> error + CharacterRange" where
  "getTokenChRange ctx tokIdx =
     (case at (sourceTokens ctx) tokIdx of
        None \<Rightarrow> Inl (TypeError ''Cannot read properties of undefined (reading characterRange)'')
      | Some tok \<Rightarrow> Inr (characterRange tok))"

definition getRange :: "ParserContext \<Rightarrow> nat \<Rightarrow> nat \<Rightarrow> error + Range" where
  "getRange ctx chStartIdx chEndIdx =
     (case (at (positionMap ctx) (int chStartIdx), at (positionMap ctx) (int chEndIdx)) of
        (Some s, Some e) \<Rightarrow> Inr (indexesToRange s e)
      | _ \<Rightarrow> Inl (TypeError ''Cannot read properties of undefined (reading line)''))"

text \<open>
  A language: the abstract methods of \<open>AbstractParser\<close> over the state \<open>'d\<close> of the
  concrete parser, with the lexer that \<open>preparseGetTokenizer\<close> returns and the detector
  state of a newly constructed parser. The detectors read the tokens and the position
  map through the context.
\<close>

record ('s, 'd, 'i) Language =
  lexer :: "'s Lexer"
  initialDetectionState :: "'d"
  preparse :: "string list \<Rightarrow> Token list \<Rightarrow> 'd \<Rightarrow> error + 'd"
  isCommentBeforeFunction :: bool
  resetDetectionState :: "int \<Rightarrow> Symbol \<Rightarrow> 'd \<Rightarrow> 'd"
  detectTopLevelSymbol ::
    "ParserContext \<Rightarrow> Symbol list \<Rightarrow> Token option \<Rightarrow> int \<Rightarrow> nat \<Rightarrow> 'd
       \<Rightarrow> error + ('i SymbolAdditionDirective option \<times> 'd)"
  detectClassesSymbol ::
    "ParserContext \<Rightarrow> Symbol list \<Rightarrow> Token option \<Rightarrow> int \<Rightarrow> nat \<Rightarrow> 'd
       \<Rightarrow> error + ('i SymbolAdditionDirective option \<times> 'd)"
  detectFunctionsSymbol ::
    "ParserContext \<Rightarrow> Symbol list \<Rightarrow> Token option \<Rightarrow> int \<Rightarrow> nat \<Rightarrow> 'd
       \<Rightarrow> error + ('i SymbolAdditionDirective option \<times> 'd)"
  detectFunctionBodySymbol ::
    "ParserContext \<Rightarrow> Symbol list \<Rightarrow> Token option \<Rightarrow> int \<Rightarrow> nat \<Rightarrow> 'd
       \<Rightarrow> error + ('i SymbolAdditionDirective option \<times> 'd)"
  detectFunctionDeclarationSymbol ::
    "ParserContext \<Rightarrow> Symbol list \<Rightarrow> Token option \<Rightarrow> int \<Rightarrow> nat \<Rightarrow> 'd
       \<Rightarrow> error + ('i SymbolAdditionDirective option \<times> 'd)"
  createArgumentNode :: "Range \<Rightarrow> 'i option \<Rightarrow> error + SyntaxNode"
  createAttributesNode :: "Range \<Rightarrow> 'i option \<Rightarrow> error + SyntaxNode"
  createCommentsNode :: "Range \<Rightarrow> bool \<Rightarrow> 'i option \<Rightarrow> error + SyntaxNode"
  createReferencesNode :: "Range \<Rightarrow> 'i option \<Rightarrow> error + SyntaxNode"
  createClassesNode :: "Range \<Rightarrow> 'i option \<Rightarrow> error + SyntaxNode"
  createFunctionsNode :: "Range \<Rightarrow> 'i option \<Rightarrow> error + SyntaxNode"
  createFunctionDeclarationNode :: "Range \<Rightarrow> 'i option \<Rightarrow> error + SyntaxNode"

text \<open>The four parallel arrays that \<open>parseNonTerminal\<close> fills.\<close>

record 'i ParsingState =
  ps_state :: "Symbol list"
  ps_ntParseRange :: "TokenRange option list"
  ps_symbolRange :: "TokenRange list"
  ps_nodeCreationInformation :: "'i option list"

definition assertParseRangeCorrectness ::
  "Symbol \<Rightarrow> TokenRange option \<Rightarrow> TokenRange \<Rightarrow> error + unit" where
  "assertParseRangeCorrectness ty pr sr =
     (if \<not> isTerminal ty then
        (case pr of
           None \<Rightarrow> Inl (CodeParserImplError ''If detected type is not a terminal, must return parseRange non null.'')
         | Some p \<Rightarrow>
             if \<not> (startTok sr \<le> startTok p \<and> endTok p \<le> endTok sr)
               then Inl (CodeParserImplError ''The parse range of a non terminal must be contained inside the range used for detection.'')
             else Inr ())
      else (case pr of
              None \<Rightarrow> Inr ()
            | Some _ \<Rightarrow> Inl (CodeParserImplError ''Terminal types does not have a parseRange.'')))"

text \<open>
  The block that \<open>updateTokenStreamState\<close> repeats for every symbol it records: push the
  type and the range, default the parse range of a non-terminal to the symbol range,
  push it and the creation information, and check the parse range.
\<close>

definition pushSymbol ::
  "'i SymbolInfo \<Rightarrow> TokenRange \<Rightarrow> 'i ParsingState \<Rightarrow> error + 'i ParsingState" where
  "pushSymbol info sr ps =
     (let pr = (if \<not> isTerminal (symbolType info) \<and> parseRange info = None then Some sr
                else parseRange info)
      in case assertParseRangeCorrectness (symbolType info) pr sr of
           Inl e \<Rightarrow> Inl e
         | Inr _ \<Rightarrow>
             Inr \<lparr>ps_state = ps_state ps @ [symbolType info],
                  ps_ntParseRange = ps_ntParseRange ps @ [pr],
                  ps_symbolRange = ps_symbolRange ps @ [sr],
                  ps_nodeCreationInformation =
                    ps_nodeCreationInformation ps @ [nodeCreationInformation info]\<rparr>)"

definition detect ::
  "('s, 'd, 'i) Language \<Rightarrow> ParserContext \<Rightarrow> Symbol \<Rightarrow> Symbol list \<Rightarrow> Token option \<Rightarrow> int
     \<Rightarrow> nat \<Rightarrow> 'd \<Rightarrow> error + ('i SymbolAdditionDirective option \<times> 'd)" where
  "detect lang ctx nonTerminal stateHistory token currentTokIndex depth d =
     (case nonTerminal of
        TOP_LEVEL \<Rightarrow> detectTopLevelSymbol lang ctx stateHistory token currentTokIndex depth d
      | CLASSES \<Rightarrow> detectClassesSymbol lang ctx stateHistory token currentTokIndex depth d
      | FUNCTIONS \<Rightarrow> detectFunctionsSymbol lang ctx stateHistory token currentTokIndex depth d
      | FUNCTION_BODY \<Rightarrow>
          detectFunctionBodySymbol lang ctx stateHistory token currentTokIndex depth d
      | FUNCTION_DECLARATION \<Rightarrow>
          detectFunctionDeclarationSymbol lang ctx stateHistory token currentTokIndex depth d
      | _ \<Rightarrow> Inl (Error ''Invalid non terminal! Should not have happened.''))"

text \<open>The checks of a directive in \<open>updateTokenStreamState\<close>, in the order of the source.\<close>

definition checkDirective :: "'i SymbolAdditionDirective \<Rightarrow> nat \<Rightarrow> error + unit" where
  "checkDirective dr bufLen =
     (if symbolType (symbol dr) = TOP_LEVEL
        then Inl (CodeParserImplError ''Cannot detect TOP_LEVEL since it must be the root!'')
      else if (case secondSymbol dr of None \<Rightarrow> False | Some s2 \<Rightarrow> symbolType s2 = TOP_LEVEL)
        then Inl (CodeParserImplError ''Cannot detect TOP_LEVEL since it must be the root!'')
      else if secondSymbol dr \<noteq> None \<and> bufLen < 2
        then Inl (CodeParserImplError ''The token buffer must have at least length >= 2'')
      else if (case secondSymbolLen dr of None \<Rightarrow> False | Some l \<Rightarrow> l \<ge> int bufLen)
        then Inl (CodeParserImplError ''The length of the second symbol must be strictly less than the length of the token buffer'')
      else if (case secondSymbolLen dr of None \<Rightarrow> False | Some l \<Rightarrow> l < 1)
        then Inl (CodeParserImplError ''The length of the second symbol must be >= 1'')
      else
        (case firstTwoSymbolsEndBufferLen dr of
           None \<Rightarrow> Inr ()
         | Some f \<Rightarrow>
             (case (secondSymbol dr, secondSymbolLen dr) of
                (Some _, Some l) \<Rightarrow>
                  if f < 1
                    then Inl (CodeParserImplError ''The length of the remaining buffer has to be >= 1'')
                  else if f + l \<ge> int bufLen
                    then Inl (CodeParserImplError ''The buffer must split into three non-empty parts'')
                  else Inr ()
              | _ \<Rightarrow> Inl (CodeParserImplError ''The second symbol information must be fully given.''))))"

text \<open>
  \<open>updateTokenStreamState\<close>. The arrays are returned updated together with
  \<open>parsedEndTokIndex\<close>, the token buffer and the state of the detectors. The buffer is
  split at positions that the checks of the directive keep inside it, so
  \<open>tokenBuffer.slice(k, length)\<close> is \<open>drop k\<close>.
\<close>

definition updateTokenStreamState ::
  "('s, 'd, 'i) Language \<Rightarrow> ParserContext \<Rightarrow> nat \<Rightarrow> Symbol \<Rightarrow> Token list \<Rightarrow> int \<Rightarrow> int \<Rightarrow> bool
     \<Rightarrow> 'i ParsingState \<Rightarrow> 'd \<Rightarrow> error + (int \<times> Token list \<times> 'i ParsingState \<times> 'd)" where
  "updateTokenStreamState lang ctx depth nonTerminal tokenBuffer parsedEndTokIndex currentTokIndex
     isConclusion ps d =
     (let token = (if isConclusion then None else Some (last tokenBuffer));
          len = int (length tokenBuffer)
      in case detect lang ctx nonTerminal (ps_state ps) token currentTokIndex depth d of
           Inl e \<Rightarrow> Inl e
         | Inr (None, d') \<Rightarrow> Inr (parsedEndTokIndex, tokenBuffer, ps, d')
         | Inr (Some dr, d') \<Rightarrow>
             (case checkDirective dr (length tokenBuffer) of
                Inl e \<Rightarrow> Inl e
              | Inr _ \<Rightarrow>
                  if secondSymbol dr = None \<and> secondSymbolLen dr = None then
                    (case pushSymbol (symbol dr)
                            \<lparr>startTok = parsedEndTokIndex, endTok = parsedEndTokIndex + len\<rparr> ps of
                       Inl e \<Rightarrow> Inl e
                     | Inr ps1 \<Rightarrow> Inr (parsedEndTokIndex + len, [], ps1, d'))
                  else if firstTwoSymbolsEndBufferLen dr \<noteq> None then
                    (let f = the (firstTwoSymbolsEndBufferLen dr);
                         firstSecondSymbolSep = len - f - the (secondSymbolLen dr);
                         secondSymbolEnd = len - f
                     in case pushSymbol (symbol dr)
                               \<lparr>startTok = parsedEndTokIndex,
                                endTok = parsedEndTokIndex + firstSecondSymbolSep\<rparr> ps of
                          Inl e \<Rightarrow> Inl e
                        | Inr ps1 \<Rightarrow>
                            (case pushSymbol (the (secondSymbol dr))
                                    \<lparr>startTok = parsedEndTokIndex + firstSecondSymbolSep,
                                     endTok = parsedEndTokIndex + secondSymbolEnd\<rparr> ps1 of
                               Inl e \<Rightarrow> Inl e
                             | Inr ps2 \<Rightarrow>
                                 Inr (parsedEndTokIndex + secondSymbolEnd,
                                      drop (nat secondSymbolEnd) tokenBuffer, ps2, d')))
                  else
                    (let sLen = (case secondSymbolLen dr of None \<Rightarrow> 1 | Some l \<Rightarrow> l)
                     in case pushSymbol (symbol dr)
                               \<lparr>startTok = parsedEndTokIndex,
                                endTok = parsedEndTokIndex + len - sLen\<rparr> ps of
                          Inl e \<Rightarrow> Inl e
                        | Inr ps1 \<Rightarrow>
                            (case secondSymbol dr of
                               None \<Rightarrow>
                                 Inr (parsedEndTokIndex + (len - sLen),
                                      drop (nat (len - sLen)) tokenBuffer, ps1, d')
                             | Some s2 \<Rightarrow>
                                 (case pushSymbol s2
                                         \<lparr>startTok = parsedEndTokIndex + len - sLen,
                                          endTok = parsedEndTokIndex + len\<rparr> ps1 of
                                    Inl e \<Rightarrow> Inl e
                                  | Inr ps2 \<Rightarrow> Inr (parsedEndTokIndex + len, [], ps2, d'))))))"

text \<open>
  The \<open>while\<close> loop of \<open>parseNonTerminal\<close> over the token indices \<open>idxs\<close>. A token index
  outside the token array would put \<open>undefined\<close> into the buffer; the model stops there
  with a \<open>TypeError\<close>.
\<close>

fun detectLoop ::
  "('s, 'd, 'i) Language \<Rightarrow> ParserContext \<Rightarrow> nat \<Rightarrow> Symbol \<Rightarrow> int list
     \<Rightarrow> int \<times> Token list \<times> 'i ParsingState \<times> 'd
     \<Rightarrow> error + (int \<times> Token list \<times> 'i ParsingState \<times> 'd)" where
  "detectLoop lang ctx depth nonTerminal [] st = Inr st"
| "detectLoop lang ctx depth nonTerminal (currentTokIndex # rest)
     (parsedEndTokIndex, tokenBuffer, ps, d) =
     (case at (sourceTokens ctx) currentTokIndex of
        None \<Rightarrow> Inl (TypeError ''token index outside the token array'')
      | Some token \<Rightarrow>
          (case updateTokenStreamState lang ctx depth nonTerminal (tokenBuffer @ [token])
                  parsedEndTokIndex currentTokIndex False ps d of
             Inl e \<Rightarrow> Inl e
           | Inr st' \<Rightarrow> detectLoop lang ctx depth nonTerminal rest st'))"

definition emptyParsingState :: "'i ParsingState" where
  "emptyParsingState =
     \<lparr>ps_state = [], ps_ntParseRange = [], ps_symbolRange = [],
      ps_nodeCreationInformation = []\<rparr>"

text \<open>
  The first half of \<open>parseNonTerminal\<close>: reset the detectors, run the loop and the
  conclusion call, and check that every token of the range was used.
\<close>

definition partitionTokens ::
  "('s, 'd, 'i) Language \<Rightarrow> ParserContext \<Rightarrow> Symbol \<Rightarrow> TokenRange \<Rightarrow> nat \<Rightarrow> 'd
     \<Rightarrow> error + ('i ParsingState \<times> 'd)" where
  "partitionTokens lang ctx nonTerminal tokRange depth d =
     (let d0 = resetDetectionState lang (startTok tokRange) nonTerminal d
      in case detectLoop lang ctx depth nonTerminal [startTok tokRange..endTok tokRange - 1]
                (startTok tokRange, [], emptyParsingState, d0) of
           Inl e \<Rightarrow> Inl e
         | Inr (parsedEndTokIndex, tokenBuffer, ps, d1) \<Rightarrow>
             (case updateTokenStreamState lang ctx depth nonTerminal tokenBuffer parsedEndTokIndex
                     (max (startTok tokRange) (endTok tokRange)) True ps d1 of
                Inl e \<Rightarrow> Inl e
              | Inr (parsedEnd, _, ps', d2) \<Rightarrow>
                  if parsedEnd \<noteq> endTok tokRange
                    then Inl (CodeParsingError ''Invalid code syntax! Contains some non-parsed portions.'')
                  else Inr (ps', d2)))"

subsection \<open>Validation of the production rules\<close>

definition validateParsingStateTopLevel :: "Symbol list \<Rightarrow> error + unit" where
  "validateParsingStateTopLevel state =
     (if list_all (\<lambda>elem. elem \<in> set [COMMENT_MULTILINE, COMMENT_SINGLELINE, FILLER, REFERENCES,
                                         STATEMENTS_FILLER, CLASSES, FUNCTIONS]) state
        then Inr ()
      else Inl (CodeParserImplError ''Apart from the filler types, top level code can only contain comments, references (imports), classes and functions!''))"

definition validateParsingStateClasses :: "Symbol list \<Rightarrow> error + unit" where
  "validateParsingStateClasses state =
     (if list_all (\<lambda>elem. elem \<in> set [COMMENT_MULTILINE, COMMENT_SINGLELINE, STATEMENTS_FILLER,
                                         FILLER, ATTRIBUTES, FUNCTIONS]) state
        then Inr ()
      else Inl (CodeParserImplError ''Apart from the filler types, class code can only contain comments, attributes (member variables), and functions!''))"

definition notFiller :: "Symbol \<Rightarrow> bool" where
  "notFiller s = (s \<noteq> FILLER \<and> s \<noteq> STATEMENTS_FILLER)"

text \<open>\<open>getFirstLast\<close>: the positions of the first and the last symbol that is no filler; \<open>None\<close> is the -1 of the source.\<close>

definition getFirstLast :: "Symbol list \<Rightarrow> nat option \<times> nat option" where
  "getFirstLast state =
     (case filter (\<lambda>i. notFiller (state ! i)) [0..<length state] of
        [] \<Rightarrow> (None, None)
      | i # is \<Rightarrow> (Some i, Some (last (i # is))))"

definition validateParsingStateFunctions :: "Symbol list \<Rightarrow> error + unit" where
  "validateParsingStateFunctions state =
     (if length state < 2
        then Inl (CodeParserImplError ''A valid function must contain a function declaration first and then function body afterwards! Therefore expected state length >= 2'')
      else
        let results = getFirstLast state;
            first = (case fst results of None \<Rightarrow> FILLER | Some i \<Rightarrow> state ! i);
            lst = (case snd results of None \<Rightarrow> FILLER | Some i \<Rightarrow> state ! i)
        in if first \<noteq> FUNCTION_DECLARATION \<or> lst \<noteq> FUNCTION_BODY
             then Inl (CodeParserImplError ''A valid function must contain a function declaration first and then function body afterwards!'')
           else Inr ())"

definition validateParsingStateFunctionBody :: "Symbol list \<Rightarrow> error + unit" where
  "validateParsingStateFunctionBody state =
     (if list_all (\<lambda>elem. elem \<in> set [COMMENT_MULTILINE, COMMENT_SINGLELINE, FILLER,
                                         STATEMENTS_FILLER]) state
        then Inr ()
      else Inl (CodeParserImplError ''Apart from the filler types, function body code can only contain comments!''))"

fun validateParsingStateFunctionDeclaration :: "Symbol list \<Rightarrow> error + unit" where
  "validateParsingStateFunctionDeclaration [] = Inr ()"
| "validateParsingStateFunctionDeclaration (elem # rest) =
     (if elem = STATEMENTS_FILLER
        then Inl (CodeParserImplError ''Cannot have statements filler in function declarations! Code statements cannot be inside declarations.'')
      else if elem \<notin> set [COMMENT_MULTILINE, COMMENT_SINGLELINE, FILLER, ARGUMENT]
        then Inl (CodeParserImplError ''Apart from the filler types, function body code can only contain comments!'')
      else validateParsingStateFunctionDeclaration rest)"

definition validateParsingState :: "Symbol \<Rightarrow> Symbol list \<Rightarrow> error + unit" where
  "validateParsingState nonTerminal state =
     (case nonTerminal of
        TOP_LEVEL \<Rightarrow> validateParsingStateTopLevel state
      | CLASSES \<Rightarrow> validateParsingStateClasses state
      | FUNCTIONS \<Rightarrow> validateParsingStateFunctions state
      | FUNCTION_BODY \<Rightarrow> validateParsingStateFunctionBody state
      | FUNCTION_DECLARATION \<Rightarrow> validateParsingStateFunctionDeclaration state
      | _ \<Rightarrow> Inl (Error ''Invalid non terminal! Should not have happened.''))"

subsection \<open>Creation of the nodes\<close>

definition someNode :: "error + SyntaxNode \<Rightarrow> error + SyntaxNode option" where
  "someNode r = (case r of Inl e \<Rightarrow> Inl e | Inr node \<Rightarrow> Inr (Some node))"

definition resolveIntoNode ::
  "('s, 'd, 'i) Language \<Rightarrow> ParserContext \<Rightarrow> Symbol \<Rightarrow> TokenRange \<Rightarrow> 'i option
     \<Rightarrow> error + SyntaxNode option" where
  "resolveIntoNode lang ctx detectedType detectedRange info =
     (case (at (sourceTokens ctx) (startTok detectedRange),
            at (sourceTokens ctx) (endTok detectedRange - 1)) of
        (Some firstTok, Some lastTok) \<Rightarrow>
          (case getRange ctx (chStart (characterRange firstTok)) (chEnd (characterRange lastTok)) of
             Inl e \<Rightarrow> Inl e
           | Inr rng \<Rightarrow>
               (case detectedType of
                  ARGUMENT \<Rightarrow> someNode (createArgumentNode lang rng info)
                | ATTRIBUTES \<Rightarrow> someNode (createAttributesNode lang rng info)
                | COMMENT_MULTILINE \<Rightarrow> someNode (createCommentsNode lang rng True info)
                | COMMENT_SINGLELINE \<Rightarrow> someNode (createCommentsNode lang rng False info)
                | REFERENCES \<Rightarrow> someNode (createReferencesNode lang rng info)
                | FILLER \<Rightarrow> Inr None
                | STATEMENTS_FILLER \<Rightarrow> Inr None
                | CLASSES \<Rightarrow> someNode (createClassesNode lang rng info)
                | FUNCTIONS \<Rightarrow> someNode (createFunctionsNode lang rng info)
                | FUNCTION_BODY \<Rightarrow> Inr None
                | FUNCTION_DECLARATION \<Rightarrow> someNode (createFunctionDeclarationNode lang rng info)
                | TOP_LEVEL \<Rightarrow> Inl (Error ''Invalid detected type! Should not have happened.'')))
      | _ \<Rightarrow> Inl (TypeError ''Cannot read properties of undefined (reading characterRange)''))"

fun resolveAll ::
  "('s, 'd, 'i) Language \<Rightarrow> ParserContext \<Rightarrow> (Symbol \<times> TokenRange \<times> 'i option) list
     \<Rightarrow> error + SyntaxNode option list" where
  "resolveAll lang ctx [] = Inr []"
| "resolveAll lang ctx ((ty, rng, info) # rest) =
     (case resolveIntoNode lang ctx ty rng info of
        Inl e \<Rightarrow> Inl e
      | Inr node \<Rightarrow>
          (case resolveAll lang ctx rest of
             Inl e \<Rightarrow> Inl e
           | Inr nodes \<Rightarrow> Inr (node # nodes)))"

subsection \<open>Attaching the nodes to the parent\<close>

text \<open>
  \<open>parseNonTerminal\<close> changes \<open>parent\<close> in place, and the parent of \<open>parent\<close> when it
  moves the first comment of a function body up. Here it returns the new \<open>parent\<close> and,
  in the order of the calls, the nodes it gave to \<open>parent.getParent().addChild\<close>; the
  caller, which holds that node, adds them. A \<open>Slot\<close> records where the first loop put the
  node of a symbol, so that the recursion of the second loop finds it in the new tree:
  as child \<open>p\<close> of the parent, as child \<open>q\<close> of the function group that is child \<open>p\<close>,
  among the nodes moved up, or nowhere (the node is \<open>null\<close> and the recursion works on
  \<open>parent\<close> itself).
\<close>

datatype Slot = Direct nat | InGroup nat nat | Lifted nat | AtParent

record AttachState =
  as_parent :: SyntaxNode
  as_lifted :: "SyntaxNode list"
  as_dangling :: "(nat \<times> SyntaxNode) option"
  as_isFirst :: bool
  as_slots :: "Slot list"

definition isMultiLineOf :: "SyntaxNode \<Rightarrow> bool" where
  "isMultiLineOf node = (case nodeData node of CommentsData ml _ \<Rightarrow> ml | _ \<Rightarrow> False)"

text \<open>\<open>parent.addChild(danglingMultilineComment); danglingMultilineComment = null\<close>, if there is one.\<close>

definition placeDangling :: "AttachState \<Rightarrow> AttachState" where
  "placeDangling a =
     (case as_dangling a of
        None \<Rightarrow> a
      | Some (j, c) \<Rightarrow>
          a\<lparr>as_parent := addChild (as_parent a) c,
            as_dangling := None,
            as_slots := (as_slots a)[j := Direct (length (children (as_parent a)))]\<rparr>)"

definition flagIf :: "bool \<Rightarrow> AttachState \<Rightarrow> AttachState" where
  "flagIf b a = (if b then a\<lparr>as_parent := flagHaveFunctionBody (as_parent a)\<rparr> else a)"

text \<open>The body of the first loop for a symbol whose node \<open>ani\<close> is a \<open>SyntaxNode\<close>.\<close>

definition attachNode ::
  "bool \<Rightarrow> bool \<Rightarrow> Symbol \<Rightarrow> SyntaxNode \<Rightarrow> AttachState \<Rightarrow> error + AttachState" where
  "attachNode checkCommentFunctionPair checkFirstCommentInFunction nonTerminal ani a =
     (let i = length (as_slots a);
          a0 = flagIf (nonTerminal = FUNCTION_BODY \<and> kindOf (as_parent a) = Functions
                       \<and> (kindOf ani \<noteq> Comments \<or> \<not> checkFirstCommentInFunction
                            \<or> \<not> isMultiLineOf ani \<or> \<not> as_isFirst a)) a
      in if kindOf ani = Comments then
           (let a1 = (if checkCommentFunctionPair then placeDangling a0 else a0) in
            if checkCommentFunctionPair \<and> isMultiLineOf ani then
              Inr (a1\<lparr>as_dangling := Some (i, ani), as_slots := as_slots a1 @ [AtParent],
                      as_isFirst := False\<rparr>)
            else if checkFirstCommentInFunction \<and> isMultiLineOf ani \<and> as_isFirst a1 then
              (case parentKind (as_parent a1) of
                 None \<Rightarrow> Inl (TypeError ''Cannot read properties of null (reading addChild)'')
               | Some _ \<Rightarrow>
                   Inr (a1\<lparr>as_lifted := as_lifted a1 @ [ani],
                           as_slots := as_slots a1 @ [Lifted (length (as_lifted a1))],
                           as_isFirst := False\<rparr>))
            else
              Inr (a1\<lparr>as_parent := addChild (as_parent a1) ani,
                      as_slots := as_slots a1 @ [Direct (length (children (as_parent a1)))],
                      as_isFirst := False\<rparr>))
         else if kindOf ani = Functions then
           (let p = length (children (as_parent a0)) in
            case (if checkCommentFunctionPair then as_dangling a0 else None) of
              Some (j, c) \<Rightarrow>
                (case mergeRanges [nodeRange c, nodeRange ani] of
                   Inl e \<Rightarrow> Inl e
                 | Inr rangeUnion \<Rightarrow>
                     (let funcGp = addChild (addChild (newNode FunctionGroupsData rangeUnion) c) ani
                      in Inr (a0\<lparr>as_parent := addChild (as_parent a0) funcGp,
                                 as_dangling := None,
                                 as_slots := (as_slots a0)[j := InGroup p 0] @ [InGroup p 1],
                                 as_isFirst := False\<rparr>)))
            | None \<Rightarrow>
                (let funcGp = addChild (newNode FunctionGroupsData (nodeRange ani)) ani
                 in Inr (a0\<lparr>as_parent := addChild (as_parent a0) funcGp,
                            as_slots := as_slots a0 @ [InGroup p 0],
                            as_isFirst := False\<rparr>)))
         else
           (let a1 = (if checkCommentFunctionPair then placeDangling a0 else a0) in
            Inr (a1\<lparr>as_parent := addChild (as_parent a1) ani,
                    as_slots := as_slots a1 @ [Direct (length (children (as_parent a1)))],
                    as_isFirst := False\<rparr>)))"

text \<open>The first loop over the symbols and their nodes.\<close>

fun attachNodes ::
  "bool \<Rightarrow> bool \<Rightarrow> Symbol \<Rightarrow> (Symbol \<times> SyntaxNode option) list \<Rightarrow> AttachState
     \<Rightarrow> error + AttachState" where
  "attachNodes cp cf nonTerminal [] a = Inr a"
| "attachNodes cp cf nonTerminal ((s, ani) # rest) a =
     (if s = FILLER then attachNodes cp cf nonTerminal rest (a\<lparr>as_slots := as_slots a @ [AtParent]\<rparr>)
      else if s = STATEMENTS_FILLER then
        attachNodes cp cf nonTerminal rest
          (flagIf (nonTerminal = FUNCTION_BODY \<and> kindOf (as_parent a) = Functions)
             (a\<lparr>as_slots := as_slots a @ [AtParent], as_isFirst := False\<rparr>))
      else
        (case ani of
           None \<Rightarrow> attachNodes cp cf nonTerminal rest (a\<lparr>as_slots := as_slots a @ [AtParent]\<rparr>)
         | Some node \<Rightarrow>
             (case attachNode cp cf nonTerminal node a of
                Inl e \<Rightarrow> Inl e
              | Inr a' \<Rightarrow> attachNodes cp cf nonTerminal rest a')))"

definition attachAll ::
  "bool \<Rightarrow> Symbol \<Rightarrow> SyntaxNode \<Rightarrow> Symbol list \<Rightarrow> SyntaxNode option list \<Rightarrow> error + AttachState" where
  "attachAll commentBeforeFunction nonTerminal parent state childNodes =
     (let checkCommentFunctionPair =
            (commentBeforeFunction \<and> (nonTerminal = TOP_LEVEL \<or> nonTerminal = CLASSES));
          checkFirstCommentInFunction = (\<not> commentBeforeFunction \<and> nonTerminal = FUNCTION_BODY)
      in case attachNodes checkCommentFunctionPair checkFirstCommentInFunction nonTerminal
                (zip state childNodes)
                \<lparr>as_parent = parent, as_lifted = [], as_dangling = None, as_isFirst = True,
                 as_slots = []\<rparr> of
           Inl e \<Rightarrow> Inl e
         | Inr a \<Rightarrow> Inr (placeDangling a))"

subsection \<open>The recursion\<close>

definition replaceChild :: "SyntaxNode \<Rightarrow> nat \<Rightarrow> SyntaxNode \<Rightarrow> SyntaxNode" where
  "replaceChild parent p node =
     SyntaxNode (nodeData parent) (nodeRange parent) (innerRangeOverride parent)
       (siblingRank parent) (parentKind parent) ((children parent)[p := node])"

text \<open>
  One recursive call \<open>this.parseNonTerminal(symb, subnode, tokRange, depth)\<close>, where
  \<open>rec\<close> is \<open>parseNonTerminal\<close> and the slot says which node \<open>subnode\<close> is. The state
  is the parent, the nodes moved up to the parent of the parent, and the detector
  state. The nodes that the call moves up to the parent of \<open>subnode\<close> are added there.
  A symbol whose node was moved up is a comment of a function body, which is a
  terminal and never parsed further.
\<close>

definition recurseAt ::
  "(Symbol \<Rightarrow> SyntaxNode \<Rightarrow> TokenRange \<Rightarrow> nat \<Rightarrow> 'd \<Rightarrow> error + (SyntaxNode \<times> SyntaxNode list \<times> 'd))
     \<Rightarrow> Symbol \<Rightarrow> Slot \<Rightarrow> TokenRange \<Rightarrow> nat \<Rightarrow> SyntaxNode \<times> SyntaxNode list \<times> 'd
     \<Rightarrow> error + (SyntaxNode \<times> SyntaxNode list \<times> 'd)" where
  "recurseAt rec symb slot tokRange depth st =
     (case st of (parent, lifted, d) \<Rightarrow>
        (case slot of
           AtParent \<Rightarrow>
             (case rec symb parent tokRange depth d of
                Inl e \<Rightarrow> Inl e
              | Inr (parent', up, d') \<Rightarrow> Inr (parent', lifted @ up, d'))
         | Direct p \<Rightarrow>
             (case rec symb (children parent ! p) tokRange depth d of
                Inl e \<Rightarrow> Inl e
              | Inr (node', up, d') \<Rightarrow>
                  Inr (foldl addChild (replaceChild parent p node') up, lifted, d'))
         | InGroup p q \<Rightarrow>
             (let funcGp = children parent ! p in
              case rec symb (children funcGp ! q) tokRange depth d of
                Inl e \<Rightarrow> Inl e
              | Inr (node', up, d') \<Rightarrow>
                  Inr (replaceChild parent p (foldl addChild (replaceChild funcGp q node') up),
                       lifted, d'))
         | Lifted k \<Rightarrow> Inl (Error ''A terminal is not parsed further.'')))"

text \<open>The second loop: the recursion on every non-terminal of the state.\<close>

fun recurseAll ::
  "(Symbol \<Rightarrow> SyntaxNode \<Rightarrow> TokenRange \<Rightarrow> nat \<Rightarrow> 'd \<Rightarrow> error + (SyntaxNode \<times> SyntaxNode list \<times> 'd))
     \<Rightarrow> nat \<Rightarrow> (Symbol \<times> Slot \<times> TokenRange option) list \<Rightarrow> SyntaxNode \<times> SyntaxNode list \<times> 'd
     \<Rightarrow> error + (SyntaxNode \<times> SyntaxNode list \<times> 'd)" where
  "recurseAll rec depth [] st = Inr st"
| "recurseAll rec depth ((symb, slot, tokRange) # rest) st =
     (if isTerminal symb then recurseAll rec depth rest st
      else
        (case recurseAt rec symb slot (the tokRange) depth st of
           Inl e \<Rightarrow> Inl e
         | Inr st' \<Rightarrow> recurseAll rec depth rest st'))"

text \<open>
  The body of \<open>parseNonTerminal\<close> with the recursive calls made through \<open>rec\<close>. In the branch
  for \<open>FUNCTIONS\<close> the validation has found a first and a last symbol that is no filler, and the
  first is a \<open>FUNCTION_DECLARATION\<close>, whose node is not \<open>null\<close>.
\<close>

definition parseNonTerminalBody ::
  "(Symbol \<Rightarrow> SyntaxNode \<Rightarrow> TokenRange \<Rightarrow> nat \<Rightarrow> 'd \<Rightarrow> error + (SyntaxNode \<times> SyntaxNode list \<times> 'd))
     \<Rightarrow> ('s, 'd, 'i) Language \<Rightarrow> ParserContext \<Rightarrow> Symbol \<Rightarrow> SyntaxNode \<Rightarrow> TokenRange \<Rightarrow> nat \<Rightarrow> 'd
     \<Rightarrow> error + (SyntaxNode \<times> SyntaxNode list \<times> 'd)" where
  "parseNonTerminalBody rec lang ctx nonTerminal parent tokRange depth d =
     (case partitionTokens lang ctx nonTerminal tokRange depth d of
        Inl e \<Rightarrow> Inl e
      | Inr (ps, d1) \<Rightarrow>
          (case validateParsingState nonTerminal (ps_state ps) of
             Inl e \<Rightarrow> Inl e
           | Inr _ \<Rightarrow>
               (case resolveAll lang ctx
                       (zip (ps_state ps) (zip (ps_symbolRange ps) (ps_nodeCreationInformation ps))) of
                  Inl e \<Rightarrow> Inl e
                | Inr childNodes \<Rightarrow>
                    if nonTerminal = FUNCTIONS then
                      (case getFirstLast (ps_state ps) of
                         (Some first, Some lst) \<Rightarrow>
                           (case childNodes ! first of
                              None \<Rightarrow> Inl (TypeError ''Cannot read properties of null (reading setParent)'')
                            | Some decl \<Rightarrow>
                                (case recurseAt rec FUNCTION_DECLARATION
                                        (Direct (length (children parent)))
                                        (the (ps_ntParseRange ps ! first)) (depth + 1)
                                        (addChild parent decl, [], d1) of
                                   Inl e \<Rightarrow> Inl e
                                 | Inr st \<Rightarrow>
                                     recurseAt rec FUNCTION_BODY AtParent
                                       (the (ps_ntParseRange ps ! lst)) (depth + 1) st))
                       | _ \<Rightarrow> Inl (TypeError ''Cannot read properties of undefined (reading setParent)''))
                    else
                      (case attachAll (isCommentBeforeFunction lang) nonTerminal parent
                              (ps_state ps) childNodes of
                         Inl e \<Rightarrow> Inl e
                       | Inr a \<Rightarrow>
                           recurseAll rec (depth + 1)
                             (zip (ps_state ps) (zip (as_slots a) (ps_ntParseRange ps)))
                             (as_parent a, as_lifted a, d1)))))"

text \<open>
  \<open>parseNonTerminal\<close>. The recursion of the source is bounded by the grammar and not by
  a measure of its arguments, so the model counts the nesting: the first argument is
  the number of nested calls allowed. \<open>parse\<close> allows four, the depth of
  \<open>TOP_LEVEL\<close>, \<open>CLASSES\<close>, \<open>FUNCTIONS\<close>, \<open>FUNCTION_BODY\<close>.
\<close>

definition nestingExceeded :: error where
  "nestingExceeded = Error ''nesting of parseNonTerminal exceeded''"

primrec parseNonTerminal ::
  "nat \<Rightarrow> ('s, 'd, 'i) Language \<Rightarrow> ParserContext \<Rightarrow> Symbol \<Rightarrow> SyntaxNode \<Rightarrow> TokenRange \<Rightarrow> nat \<Rightarrow> 'd
     \<Rightarrow> error + (SyntaxNode \<times> SyntaxNode list \<times> 'd)" where
  "parseNonTerminal 0 lang ctx nonTerminal parent tokRange depth d = Inl nestingExceeded"
| "parseNonTerminal (Suc n) lang ctx nonTerminal parent tokRange depth d =
     parseNonTerminalBody (parseNonTerminal n lang ctx) lang ctx nonTerminal parent tokRange depth d"

text \<open>The fields that \<open>parse\<close> sets before it calls \<open>preparse\<close> and \<open>parseNonTerminal\<close>.\<close>

definition newContext :: "string list \<Rightarrow> Token list \<Rightarrow> ParserContext" where
  "newContext codeLines toks =
     \<lparr>sourceLines = codeLines, positionMap = buildPositionMap codeLines,
      numChars = length (buildPositionMap codeLines) - 1, sourceTokens = toks\<rparr>"

text \<open>
  \<open>parse\<close>. The detector state of the parser object is the one its constructor left;
  the root has no parent, so nothing can be moved above it.
\<close>

definition parse :: "('s, 'd, 'i) Language \<Rightarrow> string list \<Rightarrow> error + AbstractSyntaxTree" where
  "parse lang codeLines =
     (if length codeLines = 0 \<or> (length codeLines = 1 \<and> length (codeLines ! 0) = 0)
        then Inl (CodeParsingError ''Cannot parse empty string!'')
      else
        case lexSource (lexer lang) codeLines of
          Inl e \<Rightarrow> Inl e
        | Inr toks \<Rightarrow>
            (case preparse lang codeLines toks (initialDetectionState lang) of
               Inl e \<Rightarrow> Inl e
             | Inr d \<Rightarrow>
                 (let ctx = newContext codeLines toks;
                      rootNode = newNode TopLevelData (getMaxRange codeLines)
                  in case parseNonTerminal 4 lang ctx TOP_LEVEL rootNode
                            \<lparr>startTok = 0, endTok = int (length toks)\<rparr> 0 d of
                       Inl e \<Rightarrow> Inl e
                     | Inr (rootNode', _, _) \<Rightarrow>
                         Inr \<lparr>root = rootNode', ast_sourceLines = codeLines\<rparr>)))"

text \<open>
  The arrays \<open>state\<close> and \<open>symbolRange\<close> of the outermost call of \<open>parseNonTerminal\<close>
  that \<open>parse\<close> makes: the symbols into which the tokens of the source are partitioned
  at top level.
\<close>

definition topLevelSymbols ::
  "('s, 'd, 'i) Language \<Rightarrow> string list \<Rightarrow> error + (Symbol \<times> TokenRange) list" where
  "topLevelSymbols lang codeLines =
     (case lexSource (lexer lang) codeLines of
        Inl e \<Rightarrow> Inl e
      | Inr toks \<Rightarrow>
          (case preparse lang codeLines toks (initialDetectionState lang) of
             Inl e \<Rightarrow> Inl e
           | Inr d \<Rightarrow>
               (case partitionTokens lang (newContext codeLines toks) TOP_LEVEL
                       \<lparr>startTok = 0, endTok = int (length toks)\<rparr> 0 d of
                  Inl e \<Rightarrow> Inl e
                | Inr (ps, _) \<Rightarrow> Inr (zip (ps_state ps) (ps_symbolRange ps)))))"

section \<open>String methods\<close>

text \<open>
  The methods of JavaScript strings that the parsers use. A character is one of the 256
  values of \<open>char\<close>; the white space that \<open>trim\<close> removes is, among these, tab, line
  feed, vertical tab, form feed, carriage return, space and the no-break space.
\<close>

definition isWhiteSpace :: "char \<Rightarrow> bool" where
  "isWhiteSpace c =
     (c \<in> set [CHR 0x09, CHR 0x0A, CHR 0x0B, CHR 0x0C, CHR 0x0D, CHR '' '', CHR 0xA0])"

definition trim :: "string \<Rightarrow> string" where
  "trim s = rev (dropWhile isWhiteSpace (rev (dropWhile isWhiteSpace s)))"

text \<open>\<open>indexOf\<close> and \<open>lastIndexOf\<close> for a pattern of one character; -1 when it is absent.\<close>

fun indexOf :: "string \<Rightarrow> char \<Rightarrow> int" where
  "indexOf [] c = -1"
| "indexOf (x # xs) c = (if x = c then 0 else (let r = indexOf xs c in if r = -1 then -1 else r + 1))"

definition lastIndexOf :: "string \<Rightarrow> char \<Rightarrow> int" where
  "lastIndexOf s c = (let r = indexOf (rev s) c in if r = -1 then -1 else int (length s) - 1 - r)"

text \<open>\<open>str.replace(/\\\n/g, "")\<close>: every backslash that a line feed follows goes with it.\<close>

fun removeContinuations :: "string \<Rightarrow> string" where
  "removeContinuations (a # b # rest) =
     (if a = CHR 0x5C \<and> b = CHR 0x0A then removeContinuations rest
      else a # removeContinuations (b # rest))"
| "removeContinuations s = s"

text \<open>\<open>str.replace(/\./g, "/")\<close>.\<close>

definition dotsToSlashes :: "string \<Rightarrow> string" where
  "dotsToSlashes s = map (\<lambda>c. if c = CHR ''.'' then CHR ''/'' else c) s"

text \<open>\<open>str.substring(a, str.length)\<close> and similar calls take and return natural positions.\<close>

definition endsWithBackslash :: "string \<Rightarrow> bool" where
  "endsWithBackslash s = (length s > 0 \<and> last s = CHR 0x5C)"

section \<open>Node creation information\<close>

text \<open>
  The object \<open>nodeCreationInformation\<close> that a detector hands to the factory of a node.
  Each constructor is one of the object literals of the parsers, with the fields it has;
  \<open>null\<close> for an optional field is \<open>None\<close>.
\<close>

datatype NodeInfo =
    CommentInfo string
  | ReferenceInfo string "string option"
  | ClassInfo "string option" string Range
  | FunctionInfo string Range
  | FunctionDeclarationInfo string "string option"
  | ArgumentInfo string "string option"
  | AttributeInfo string "string option"

text \<open>
  The factories. Both parsers build the node from the fields of the information object
  and, for classes and functions, override the inner range. Reading a field of
  \<open>undefined\<close> is a \<open>TypeError\<close>. An object of another shape would give a node with
  \<open>undefined\<close> fields; no detector pairs a symbol with such an object, and the model
  stops with the same error.
\<close>

definition noInformation :: "error + SyntaxNode" where
  "noInformation = Inl (TypeError ''Cannot read properties of undefined'')"

definition createArgumentNode_impl :: "Range \<Rightarrow> NodeInfo option \<Rightarrow> error + SyntaxNode" where
  "createArgumentNode_impl rng info =
     (case info of
        Some (ArgumentInfo name ty) \<Rightarrow> Inr (newNode (ArgumentData name ty) rng)
      | _ \<Rightarrow> noInformation)"

definition createAttributesNode_impl :: "Range \<Rightarrow> NodeInfo option \<Rightarrow> error + SyntaxNode" where
  "createAttributesNode_impl rng info =
     (case info of
        Some (AttributeInfo name ty) \<Rightarrow> Inr (newNode (AttributesData name ty) rng)
      | _ \<Rightarrow> noInformation)"

definition createCommentsNode_impl :: "Range \<Rightarrow> bool \<Rightarrow> NodeInfo option \<Rightarrow> error + SyntaxNode" where
  "createCommentsNode_impl rng ml info =
     (case info of
        Some (CommentInfo contents) \<Rightarrow> Inr (newNode (CommentsData ml contents) rng)
      | _ \<Rightarrow> noInformation)"

definition createReferencesNode_impl :: "Range \<Rightarrow> NodeInfo option \<Rightarrow> error + SyntaxNode" where
  "createReferencesNode_impl rng info =
     (case info of
        Some (ReferenceInfo txt path) \<Rightarrow> Inr (newNode (ReferencesData txt path) rng)
      | _ \<Rightarrow> noInformation)"

definition createClassesNode_impl :: "Range \<Rightarrow> NodeInfo option \<Rightarrow> error + SyntaxNode" where
  "createClassesNode_impl rng info =
     (case info of
        Some (ClassInfo ty txt inner) \<Rightarrow> overrideInnerRange inner (newNode (ClassesData ty txt) rng)
      | _ \<Rightarrow> noInformation)"

definition createFunctionsNode_impl :: "Range \<Rightarrow> NodeInfo option \<Rightarrow> error + SyntaxNode" where
  "createFunctionsNode_impl rng info =
     (case info of
        Some (FunctionInfo txt inner) \<Rightarrow>
          overrideInnerRange inner (newNode (FunctionsData txt False) rng)
      | _ \<Rightarrow> noInformation)"

definition createFunctionDeclarationNode_impl ::
  "Range \<Rightarrow> NodeInfo option \<Rightarrow> error + SyntaxNode" where
  "createFunctionDeclarationNode_impl rng info =
     (case info of
        Some (FunctionDeclarationInfo name ty) \<Rightarrow>
          Inr (newNode (FunctionDeclarationData name ty) rng)
      | _ \<Rightarrow> noInformation)"

text \<open>The object literals of a directive.\<close>

definition plainSymbol :: "Symbol \<Rightarrow> NodeInfo SymbolInfo" where
  "plainSymbol ty = \<lparr>symbolType = ty, parseRange = None, nodeCreationInformation = None\<rparr>"

definition infoSymbol :: "Symbol \<Rightarrow> NodeInfo \<Rightarrow> NodeInfo SymbolInfo" where
  "infoSymbol ty info = \<lparr>symbolType = ty, parseRange = None, nodeCreationInformation = Some info\<rparr>"

definition directive1 :: "NodeInfo SymbolInfo \<Rightarrow> NodeInfo SymbolAdditionDirective" where
  "directive1 s =
     \<lparr>symbol = s, secondSymbol = None, secondSymbolLen = None,
      firstTwoSymbolsEndBufferLen = None\<rparr>"

section \<open>The Python parser\<close>

datatype CodeBlockType = SINGLE_LINE | MULTI_LINE

text \<open>
  The fields of \<open>PythonParser\<close>. Token indices start at -1 and are integers; the
  indentation count is only incremented and reset to 0.
\<close>

record PythonParser =
  pythonCodeIndents :: string
  pythonIsTabs :: bool
  pp_bracesMatcher :: BracesMatcher
  pp_parseType :: Symbol
  pp_globalDetectionStartIndex :: int
  continuousIndentAfterNewline :: bool
  mostRecentLineTokIndex :: int
  indentationCount :: nat
  prevTokenEndsWithBackslash :: bool
  parsingBlockInitiated :: bool
  lastLineForEndCodeBlockIndex :: int
  encounteredComments :: bool
  singleLineImmediatelyAfterComments :: bool
  detectionType :: CodeBlockType
  detectionSymbol :: Symbol
  pp_tokenStream :: "Token list"
  pp_stringStream :: string
  stopAcceptingStringStream :: bool
  prevMultiline :: bool
  classOrFuncBodyParseStart :: int
  functDetectingBody :: bool
  functColonIndex :: int
  functRightAfterDef :: bool
  functName :: "string option"
  functRightAfterArrow :: bool
  functType :: "string option"
  functBodyHasOthers :: bool
  functBodyHasPreviousContent :: bool
  functBodyImmediatelyHasMLComments :: "string option"
  functDeclStrBuffer :: string
  functDeclStartParseIdx :: int
  functDeclParsing :: bool

text \<open>
  The braces matcher of the constructor,
  \<open>new BracesMatcher([{"{", "}"}, {"[", "]"}, {"(", ")"}])\<close>, as the value that
  \<open>BracesMatcher_new\<close> returns for these pairs.
\<close>

definition codeBraces :: "Braces list" where
  "codeBraces =
     [\<lparr>br_opening = ''{'', br_closing = ''}''\<rparr>,
      \<lparr>br_opening = ''['', br_closing = '']''\<rparr>,
      \<lparr>br_opening = ''('', br_closing = '')''\<rparr>]"

definition codeBracesMatcher :: BracesMatcher where
  "codeBracesMatcher =
     (case BracesMatcher_new codeBraces of
        Inr bm \<Rightarrow> bm
      | Inl _ \<Rightarrow> \<lparr>openingToClosing = Map.empty, closingToOpening = Map.empty, stack = []\<rparr>)"

definition PythonParser_resetDetectionState :: "int \<Rightarrow> Symbol \<Rightarrow> PythonParser \<Rightarrow> PythonParser" where
  "PythonParser_resetDetectionState startTokIndex parsingNonTerminal d =
     (let d0 = d\<lparr>pp_globalDetectionStartIndex := startTokIndex,
                  pp_parseType := parsingNonTerminal,
                  pp_bracesMatcher := BracesMatcher_reset (pp_bracesMatcher d)\<rparr>
      in if parsingNonTerminal = TOP_LEVEL \<or> parsingNonTerminal = CLASSES then
           d0\<lparr>continuousIndentAfterNewline := (parsingNonTerminal = TOP_LEVEL),
                mostRecentLineTokIndex := -1,
                indentationCount := 0,
                prevTokenEndsWithBackslash := False,
                parsingBlockInitiated := False,
                lastLineForEndCodeBlockIndex := -1,
                encounteredComments := False,
                singleLineImmediatelyAfterComments := False,
                detectionType := SINGLE_LINE,
                detectionSymbol := STATEMENTS_FILLER\<rparr>
         else if parsingNonTerminal = FUNCTIONS then
           d0\<lparr>functDetectingBody := False,
                functColonIndex := -1,
                functRightAfterDef := False,
                functName := None,
                functRightAfterArrow := False,
                functType := None\<rparr>
         else if parsingNonTerminal = FUNCTION_BODY then
           d0\<lparr>continuousIndentAfterNewline := False,
                mostRecentLineTokIndex := -1,
                indentationCount := 0,
                prevTokenEndsWithBackslash := False,
                functBodyHasOthers := False,
                functBodyHasPreviousContent := False,
                functBodyImmediatelyHasMLComments := None\<rparr>
         else if parsingNonTerminal = FUNCTION_DECLARATION then
           d0\<lparr>continuousIndentAfterNewline := False,
                mostRecentLineTokIndex := -1,
                indentationCount := 0,
                prevTokenEndsWithBackslash := False,
                functDeclStrBuffer := [],
                functDeclStartParseIdx := -1,
                functDeclParsing := False\<rparr>
         else d0)"

text \<open>The state that the constructor leaves: its assignments, then \<open>resetDetectionState(0, TOP_LEVEL)\<close>.\<close>

definition PythonParser_new :: PythonParser where
  "PythonParser_new =
     PythonParser_resetDetectionState 0 TOP_LEVEL
       \<lparr>pythonCodeIndents = [], pythonIsTabs = False, pp_bracesMatcher = codeBracesMatcher,
        pp_parseType = TOP_LEVEL, pp_globalDetectionStartIndex = -1,
        continuousIndentAfterNewline = True, mostRecentLineTokIndex = 0, indentationCount = 0,
        prevTokenEndsWithBackslash = False, parsingBlockInitiated = False,
        lastLineForEndCodeBlockIndex = 0, encounteredComments = False,
        singleLineImmediatelyAfterComments = False, detectionType = SINGLE_LINE,
        detectionSymbol = STATEMENTS_FILLER, pp_tokenStream = [], pp_stringStream = [],
        stopAcceptingStringStream = False, prevMultiline = False, classOrFuncBodyParseStart = -1,
        functDetectingBody = False, functColonIndex = -1, functRightAfterDef = False,
        functName = None, functRightAfterArrow = False, functType = None,
        functBodyHasOthers = False, functBodyHasPreviousContent = False,
        functBodyImmediatelyHasMLComments = None, functDeclStrBuffer = [],
        functDeclStartParseIdx = -1, functDeclParsing = False\<rparr>"

subsection \<open>Detection of the indentation\<close>

text \<open>
  \<open>preparse\<close>. The leading white space of a line is what \<open>/^([ \t]+)/\<close> matches. When
  no line is indented the method sets the fields and goes on to the search for a step
  (the \<open>return\<close> is only in the branch for tabs); there \<open>invalidCount / 0\<close> is \<open>NaN\<close>, no
  factor passes \<open>invalidRatio <= 0.2\<close>, and the method throws. For a non-empty array the
  comparison of the quotient of two array lengths with 0.2 is the comparison
  \<open>5 * invalidCount \<le> length\<close>.
\<close>

definition leadingIndents :: "string list \<Rightarrow> string list" where
  "leadingIndents codeLines =
     filter (\<lambda>indent. indent \<noteq> [])
       (map (takeWhile (\<lambda>c. c = CHR '' '' \<or> c = CHR 0x09))
          (filter (\<lambda>l. length (trim l) \<noteq> 0) codeLines))"

definition possibleFactors :: "nat list" where
  "possibleFactors = [12, 6, 4, 3, 2]"

definition factorFits :: "nat list \<Rightarrow> nat \<Rightarrow> bool" where
  "factorFits spaceIndentCounts factor =
     (length spaceIndentCounts > 0
      \<and> 5 * length (filter (\<lambda>count. count mod factor \<noteq> 0) spaceIndentCounts)
            \<le> length spaceIndentCounts)"

definition PythonParser_preparse ::
  "string list \<Rightarrow> Token list \<Rightarrow> PythonParser \<Rightarrow> error + PythonParser" where
  "PythonParser_preparse codeLines tokens d =
     (let indents = leadingIndents codeLines;
          mixed = filter (\<lambda>indent. CHR '' '' \<in> set indent \<and> CHR 0x09 \<in> set indent) indents;
          spaceIndentCounts = map length (filter (\<lambda>indent. CHR '' '' \<in> set indent) indents);
          tabIndentCount = length (filter (\<lambda>indent. CHR '' '' \<notin> set indent) indents)
      in if mixed \<noteq> [] \<or> (length spaceIndentCounts > 0 \<and> tabIndentCount > 0)
           then Inl (CodeParsingError ''Python code cannot have mixed spaces and tabs for indentation!'')
         else if tabIndentCount > 0
           then Inr (d\<lparr>pythonIsTabs := True, pythonCodeIndents := [CHR 0x09]\<rparr>)
         else
           (case filter (factorFits spaceIndentCounts) possibleFactors of
              [] \<Rightarrow> Inl (CodeParsingError ''Unable to detect a consistent indentation step within the allowed threshold.'')
            | indentStep # _ \<Rightarrow>
                Inr (d\<lparr>pythonCodeIndents := replicate indentStep (CHR '' ''), pythonIsTabs := False\<rparr>)))"

subsection \<open>Braces, new lines and indentation\<close>

text \<open>
  \<open>bracesMatcher.next\<close> inside \<open>try { ... } catch\<close>: an \<open>Error\<close> of the matcher becomes a
  \<open>CodeParsingError\<close> with the prefixed message.
\<close>

definition matchBrace :: "string \<Rightarrow> BracesMatcher \<Rightarrow> error + BracesMatcher" where
  "matchBrace ch bm =
     (case BracesMatcher_next ch bm of
        Inl (Error msg) \<Rightarrow> Inl (CodeParsingError (''Error during brace matching! '' @ msg))
      | Inl (CodeParsingError msg) \<Rightarrow>
          Inl (CodeParsingError (''Error during brace matching! '' @ msg))
      | Inl (CodeParserImplError msg) \<Rightarrow>
          Inl (CodeParsingError (''Error during brace matching! '' @ msg))
      | Inl (TypeError msg) \<Rightarrow> Inl (CodeParsingError (''Error during brace matching! '' @ msg))
      | Inr (_, bm') \<Rightarrow> Inr bm')"

definition updateCodeBlocksBracesAndSpacingsState ::
  "Token \<Rightarrow> int \<Rightarrow> PythonParser \<Rightarrow> error + PythonParser" where
  "updateCodeBlocksBracesAndSpacingsState token currentTokIndex d =
     (if tokenType token = SPACINGS then
        Inr ((if currentDepth (pp_bracesMatcher d) = 0 then
                (if stringContents token = newline \<and> \<not> prevTokenEndsWithBackslash d then
                   d\<lparr>mostRecentLineTokIndex := currentTokIndex, indentationCount := 0,
                       continuousIndentAfterNewline := True\<rparr>
                 else if continuousIndentAfterNewline d then
                   d\<lparr>indentationCount := indentationCount d + 1\<rparr>
                 else d)
              else d)\<lparr>prevTokenEndsWithBackslash := False\<rparr>)
      else if tokenType token = BRACES then
        (case matchBrace (stringContents token) (pp_bracesMatcher d) of
           Inl e \<Rightarrow> Inl e
         | Inr bm \<Rightarrow>
             Inr (d\<lparr>pp_bracesMatcher := bm, continuousIndentAfterNewline := False,
                     prevTokenEndsWithBackslash := False\<rparr>))
      else
        Inr (d\<lparr>continuousIndentAfterNewline := False,
                prevTokenEndsWithBackslash := endsWithBackslash (stringContents token)\<rparr>))"

definition trimReplaceString :: "string \<Rightarrow> string" where
  "trimReplaceString str = removeContinuations (trim str)"

subsection \<open>Functions: declaration and body\<close>

definition hasColon :: "string \<Rightarrow> bool" where
  "hasColon s = (indexOf s (CHR '':'') \<noteq> -1)"

definition PythonParser_detectFunctionsSymbol ::
  "ParserContext \<Rightarrow> Symbol list \<Rightarrow> Token option \<Rightarrow> int \<Rightarrow> nat \<Rightarrow> PythonParser
     \<Rightarrow> error + (NodeInfo SymbolAdditionDirective option \<times> PythonParser)" where
  "PythonParser_detectFunctionsSymbol ctx state token currentTokIndex depth d =
     (if functDetectingBody d then
        (case token of
           None \<Rightarrow> Inr (Some (directive1 (plainSymbol FUNCTION_BODY)), d)
         | Some _ \<Rightarrow> Inr (None, d))
      else
        (case token of
           None \<Rightarrow> Inl (CodeParsingError ''Expected function to be separated by a colon!'')
         | Some tok \<Rightarrow>
             if currentDepth (pp_bracesMatcher d) = 0 \<and> hasColon (stringContents tok) then
               (case functName d of
                  None \<Rightarrow> Inl (CodeParsingError ''Invalid syntax! Missing function name between def and colon!'')
                | Some name \<Rightarrow>
                    (let ty = map_option trim (functType d) in
                     Inr (Some (directive1
                            \<lparr>symbolType = FUNCTION_DECLARATION,
                             parseRange = Some \<lparr>startTok = pp_globalDetectionStartIndex d,
                                                endTok = currentTokIndex\<rparr>,
                             nodeCreationInformation =
                               Some (FunctionDeclarationInfo (trim name) ty)\<rparr>),
                          d\<lparr>functColonIndex := currentTokIndex, functDetectingBody := True,
                            functType := ty\<rparr>)))
             else
               (let d1 = (if functRightAfterDef d \<and> tokenType tok = OTHERS then
                            d\<lparr>functRightAfterDef := False, functName := Some (stringContents tok)\<rparr>
                          else if functRightAfterDef d \<and> tokenType tok \<noteq> SPACINGS then
                            d\<lparr>functRightAfterDef := False\<rparr>
                          else if currentTokIndex = pp_globalDetectionStartIndex d then
                            d\<lparr>functRightAfterDef := True\<rparr>
                          else d);
                    d2 = (if functRightAfterArrow d1 \<and> tokenType tok = OTHERS then
                            d1\<lparr>functRightAfterArrow := False, functType := Some (stringContents tok)\<rparr>
                          else if functRightAfterArrow d1 \<and> tokenType tok \<noteq> SPACINGS then
                            d1\<lparr>functRightAfterArrow := False\<rparr>
                          else if stringContents tok = ''->'' \<and> currentDepth (pp_bracesMatcher d1) = 0
                            then d1\<lparr>functRightAfterArrow := True\<rparr>
                          else d1)
                in if tokenType tok = BRACES then
                     (case matchBrace (stringContents tok) (pp_bracesMatcher d2) of
                        Inl e \<Rightarrow> Inl e
                      | Inr bm \<Rightarrow> Inr (None, d2\<lparr>pp_bracesMatcher := bm\<rparr>))
                   else Inr (None, d2))))"

text \<open>The filler before a comment of a function body: statements if anything but spacing was seen.\<close>

definition bodyFiller :: "PythonParser \<Rightarrow> NodeInfo SymbolInfo" where
  "bodyFiller d = plainSymbol (if functBodyHasOthers d then STATEMENTS_FILLER else FILLER)"

definition PythonParser_detectFunctionBodySymbol ::
  "ParserContext \<Rightarrow> Symbol list \<Rightarrow> Token option \<Rightarrow> int \<Rightarrow> nat \<Rightarrow> PythonParser
     \<Rightarrow> error + (NodeInfo SymbolAdditionDirective option \<times> PythonParser)" where
  "PythonParser_detectFunctionBodySymbol ctx state token currentTokIndex depth d =
     (case token of
        None \<Rightarrow>
          (case functBodyImmediatelyHasMLComments d of
             Some contents \<Rightarrow>
               if functBodyHasPreviousContent d then
                 Inr (Some \<lparr>symbol = bodyFiller d,
                            secondSymbol = Some (infoSymbol COMMENT_MULTILINE (CommentInfo contents)),
                            secondSymbolLen = Some 1, firstTwoSymbolsEndBufferLen = None\<rparr>, d)
               else Inr (Some (directive1 (infoSymbol COMMENT_MULTILINE (CommentInfo contents))), d)
           | None \<Rightarrow>
               if functBodyHasPreviousContent d then Inr (Some (directive1 (bodyFiller d)), d)
               else Inr (None, d))
      | Some tok \<Rightarrow>
          (let s = stringContents tok;
               res =
                 (if tokenType tok = SINGLELINE_COMMENTS then
                    (let info = CommentInfo (substring s 1 (int (length s))) in
                     ((if functBodyHasPreviousContent d then
                         Some \<lparr>symbol = bodyFiller d,
                               secondSymbol = Some (infoSymbol COMMENT_SINGLELINE info),
                               secondSymbolLen = None, firstTwoSymbolsEndBufferLen = None\<rparr>
                       else Some (directive1 (infoSymbol COMMENT_SINGLELINE info))),
                      d\<lparr>functBodyHasOthers := False, functBodyHasPreviousContent := False\<rparr>))
                  else if tokenType tok = MULTILINE_COMMENTS_OR_STRINGS
                          \<and> continuousIndentAfterNewline d then
                    (None,
                     d\<lparr>functBodyImmediatelyHasMLComments :=
                          Some (substring s 3 (int (length s) - 3))\<rparr>)
                  else if functBodyImmediatelyHasMLComments d \<noteq> None \<and> s = newline then
                    (let info = CommentInfo (the (functBodyImmediatelyHasMLComments d)) in
                     ((if functBodyHasPreviousContent d then
                         Some \<lparr>symbol = bodyFiller d,
                               secondSymbol = Some (infoSymbol COMMENT_MULTILINE info),
                               secondSymbolLen = Some 1, firstTwoSymbolsEndBufferLen = Some 1\<rparr>
                       else
                         Some \<lparr>symbol = infoSymbol COMMENT_MULTILINE info, secondSymbol = None,
                               secondSymbolLen = Some 1, firstTwoSymbolsEndBufferLen = None\<rparr>),
                      d\<lparr>functBodyHasOthers := False, functBodyHasPreviousContent := False,
                        functBodyImmediatelyHasMLComments := None\<rparr>))
                  else
                    (None,
                     d\<lparr>functBodyHasPreviousContent := True,
                       functBodyImmediatelyHasMLComments := None,
                       functBodyHasOthers :=
                         (if tokenType tok \<noteq> SPACINGS then True else functBodyHasOthers d)\<rparr>))
           in case updateCodeBlocksBracesAndSpacingsState tok currentTokIndex (snd res) of
                Inl e \<Rightarrow> Inl e
              | Inr d' \<Rightarrow> Inr (fst res, d')))"

text \<open>
  The argument that the declaration buffer holds, or nothing when the buffer is blank:
  the default after \<open>=\<close> is cut off, and a \<open>:\<close> inside separates name and type.
\<close>

definition argumentOf :: "string \<Rightarrow> (string \<times> string option) option" where
  "argumentOf buffer =
     (let argument0 = trimReplaceString buffer in
      if length argument0 = 0 then None
      else
        let eqIdx = indexOf argument0 (CHR ''='');
            argument = (if eqIdx \<noteq> -1 then trim (substring argument0 0 eqIdx) else argument0);
            idx = indexOf argument (CHR '':'')
        in if idx > 0 \<and> idx < int (length argument) - 1
             then Some (trim (substring argument 0 idx),
                        Some (trim (substring argument (idx + 1) (int (length argument)))))
           else Some (argument, None))"

text \<open>
  The block that \<open>detectFunctionDeclarationSymbol\<close> has twice: conclude the argument in
  the buffer, if there is one, and clear the buffer. \<open>previous\<close> is the directive that
  stays when the buffer is blank.
\<close>

definition concludeArgument ::
  "int \<Rightarrow> NodeInfo SymbolAdditionDirective option \<Rightarrow> PythonParser
     \<Rightarrow> NodeInfo SymbolAdditionDirective option \<times> PythonParser" where
  "concludeArgument currentTokIndex previous d =
     (case argumentOf (functDeclStrBuffer d) of
        None \<Rightarrow> (previous, d\<lparr>functDeclStrBuffer := []\<rparr>)
      | Some (argName, argType) \<Rightarrow>
          (Some \<lparr>symbol = plainSymbol FILLER,
                 secondSymbol = Some (infoSymbol ARGUMENT (ArgumentInfo argName argType)),
                 secondSymbolLen = Some (currentTokIndex - functDeclStartParseIdx d - 1),
                 firstTwoSymbolsEndBufferLen = Some 1\<rparr>,
           d\<lparr>functDeclStartParseIdx := currentTokIndex, functDeclStrBuffer := []\<rparr>))"

definition PythonParser_detectFunctionDeclarationSymbol ::
  "ParserContext \<Rightarrow> Symbol list \<Rightarrow> Token option \<Rightarrow> int \<Rightarrow> nat \<Rightarrow> PythonParser
     \<Rightarrow> error + (NodeInfo SymbolAdditionDirective option \<times> PythonParser)" where
  "PythonParser_detectFunctionDeclarationSymbol ctx state token currentTokIndex depth d =
     (case token of
        None \<Rightarrow> Inr (Some (directive1 (plainSymbol FILLER)), d)
      | Some tok \<Rightarrow>
          (let s = stringContents tok;
               braces = currentDepth (pp_bracesMatcher d);
               res =
                 (if functDeclParsing d then
                    (if tokenType tok \<noteq> COMMAS then
                       (if braces > 1 \<or> s \<noteq> '')''
                          then (None, d\<lparr>functDeclStrBuffer := functDeclStrBuffer d @ s\<rparr>)
                        else (None, d))
                     else if braces > 1
                       then (None, d\<lparr>functDeclStrBuffer := functDeclStrBuffer d @ s\<rparr>)
                     else if braces = 1 then concludeArgument currentTokIndex None d
                     else (None, d))
                  else (None, d))
           in case updateCodeBlocksBracesAndSpacingsState tok currentTokIndex (snd res) of
                Inl e \<Rightarrow> Inl e
              | Inr d1 \<Rightarrow>
                  if functDeclParsing d1 \<and> currentDepth (pp_bracesMatcher d1) = 0 then
                    Inr (concludeArgument currentTokIndex (fst res) (d1\<lparr>functDeclParsing := False\<rparr>))
                  else if currentDepth (pp_bracesMatcher d1) > 0 \<and> functDeclStartParseIdx d1 = -1
                    then Inr (fst res,
                              d1\<lparr>functDeclStartParseIdx := currentTokIndex, functDeclParsing := True\<rparr>)
                  else Inr (fst res, d1)))"

subsection \<open>Code blocks at top level and in classes\<close>

definition isKeyword :: "string \<Rightarrow> string \<Rightarrow> bool" where
  "isKeyword s kw = (s = kw \<or> s = kw @ [CHR 0x5C])"

text \<open>
  The test shared by the branches for functions and classes: the colon that ends the
  declaration stops the recording of the string stream.
\<close>

definition stopAtColon :: "Token \<Rightarrow> int \<Rightarrow> PythonParser \<Rightarrow> PythonParser" where
  "stopAtColon token currentTokIndex d =
     (if \<not> stopAcceptingStringStream d \<and> currentDepth (pp_bracesMatcher d) = 0
         \<and> hasColon (stringContents token)
        then d\<lparr>stopAcceptingStringStream := True, classOrFuncBodyParseStart := currentTokIndex + 1\<rparr>
      else d)"

definition demoteComment :: "Token \<Rightarrow> PythonParser \<Rightarrow> PythonParser" where
  "demoteComment token d =
     (if detectionSymbol d = COMMENT_MULTILINE \<and> tokenType token \<noteq> SPACINGS
        then d\<lparr>detectionSymbol := STATEMENTS_FILLER\<rparr>
      else d)"

definition recordToken :: "Token \<Rightarrow> PythonParser \<Rightarrow> PythonParser" where
  "recordToken token d =
     (let d1 = (if tokenType token \<noteq> SPACINGS
                  then d\<lparr>pp_tokenStream := pp_tokenStream d @ [token]\<rparr> else d)
      in if \<not> stopAcceptingStringStream d1
           then d1\<lparr>pp_stringStream := pp_stringStream d1 @ stringContents token\<rparr>
         else d1)"

definition updateCodeBlocksContentsParseState ::
  "Token \<Rightarrow> bool \<Rightarrow> int \<Rightarrow> nat \<Rightarrow> PythonParser \<Rightarrow> error + PythonParser" where
  "updateCodeBlocksContentsParseState token needsReset currentTokIndex indentationExpected d0 =
     (let d = (if needsReset
                 then d0\<lparr>pp_tokenStream := [], pp_stringStream := [], prevMultiline := False,
                         stopAcceptingStringStream := False, classOrFuncBodyParseStart := -1\<rparr>
               else d0);
          s = stringContents token
      in if pp_parseType d = TOP_LEVEL then
           (let d1 =
                  (if length (pp_stringStream d) = 0 then
                     (if indentationExpected = indentationCount d then
                        (if isKeyword s ''from'' \<or> isKeyword s ''import''
                           then d\<lparr>detectionSymbol := REFERENCES\<rparr>
                         else if isKeyword s ''def''
                           then d\<lparr>detectionType := MULTI_LINE, detectionSymbol := FUNCTIONS\<rparr>
                         else if isKeyword s ''class''
                           then d\<lparr>detectionType := MULTI_LINE, detectionSymbol := CLASSES\<rparr>
                         else if tokenType token = MULTILINE_COMMENTS_OR_STRINGS
                           then d\<lparr>detectionSymbol := COMMENT_MULTILINE\<rparr>
                         else d)
                      else d)
                   else
                     (let da = demoteComment token d in
                      if detectionSymbol da = FUNCTIONS \<or> detectionSymbol da = CLASSES
                        then stopAtColon token currentTokIndex da
                      else da))
            in Inr (recordToken token d1))
         else if pp_parseType d = CLASSES then
           (let d1 =
                  (if length (pp_stringStream d) = 0 then
                     (if indentationExpected = indentationCount d then
                        (if isKeyword s ''def''
                           then d\<lparr>detectionType := MULTI_LINE, detectionSymbol := FUNCTIONS\<rparr>
                         else if tokenType token = MULTILINE_COMMENTS_OR_STRINGS
                           then d\<lparr>detectionSymbol := COMMENT_MULTILINE, prevMultiline := True\<rparr>
                         else d)
                      else d)
                   else
                     (let da = demoteComment token d in
                      if detectionSymbol da = FUNCTIONS then stopAtColon token currentTokIndex da
                      else da));
                d2 =
                  (if \<not> prevMultiline d1 \<and> detectionSymbol d1 = STATEMENTS_FILLER
                      \<and> currentDepth (pp_bracesMatcher d1) = 0
                      \<and> indentationExpected = indentationCount d1
                      \<and> ((length (pp_stringStream d1) > 0 \<and> lastIndexOf s (CHR '':'') \<noteq> -1)
                           \<or> lastIndexOf s (CHR '':'') > 0)
                     then d1\<lparr>detectionSymbol := ATTRIBUTES\<rparr>
                   else d1)
            in Inr (recordToken token d2))
         else Inl (Error ''Not supported!''))"

text \<open>The relative path of an import, from the tokens of the statement that are no spacing.\<close>

definition environmentPath :: "string \<Rightarrow> string option" where
  "environmentPath importContents =
     (if length importContents > 0 then Some (''environment://'' @ dotsToSlashes importContents)
      else None)"

definition referencePath :: "Token list \<Rightarrow> string option" where
  "referencePath toks =
     (if length toks \<ge> 4 \<and> isKeyword (stringContents (toks ! 0)) ''from''
         \<and> isKeyword (stringContents (toks ! 2)) ''import'' then
        (let importContents = stringContents (toks ! 1) in
         if length importContents > 0 then
           (if hd importContents = CHR ''.'' then
              (let lcPath = tl importContents in
               if length lcPath = 0 then Some ''local-file://''
               else
                 let count = length (takeWhile (\<lambda>c. c = CHR ''.'') lcPath) in
                 Some (''local-file://'' @ concat (replicate count ''../'')
                       @ dotsToSlashes (drop count lcPath)))
            else environmentPath importContents)
         else None)
      else if length toks \<ge> 2 \<and> isKeyword (stringContents (toks ! 0)) ''import''
        then environmentPath (stringContents (toks ! 1))
      else None)"

text \<open>
  The inner range of a function or class:
  \<open>getRange(getTokenChRange(classOrFuncBodyParseStart).start,
  getTokenChRange(lastLineForEndCodeBlockIndex).start)\<close>.
\<close>

definition blockInnerRange :: "ParserContext \<Rightarrow> PythonParser \<Rightarrow> error + Range" where
  "blockInnerRange ctx d =
     (case getTokenChRange ctx (classOrFuncBodyParseStart d) of
        Inl e \<Rightarrow> Inl e
      | Inr a \<Rightarrow>
          (case getTokenChRange ctx (lastLineForEndCodeBlockIndex d) of
             Inl e \<Rightarrow> Inl e
           | Inr b \<Rightarrow> getRange ctx (chStart a) (chStart b)))"

definition multilineCommentInfo :: "PythonParser \<Rightarrow> NodeInfo SymbolInfo" where
  "multilineCommentInfo d =
     (let trimmed = trimReplaceString (pp_stringStream d) in
      infoSymbol COMMENT_MULTILINE (CommentInfo (substring trimmed 3 (int (length trimmed) - 3))))"

definition functionBlockInfo :: "ParserContext \<Rightarrow> PythonParser \<Rightarrow> error + NodeInfo SymbolInfo" where
  "functionBlockInfo ctx d =
     (if \<not> stopAcceptingStringStream d then Inr (plainSymbol STATEMENTS_FILLER)
      else
        case blockInnerRange ctx d of
          Inl e \<Rightarrow> Inl e
        | Inr inner \<Rightarrow>
            Inr (infoSymbol FUNCTIONS (FunctionInfo (trimReplaceString (pp_stringStream d)) inner)))"

definition attributeInfo :: "PythonParser \<Rightarrow> NodeInfo SymbolInfo" where
  "attributeInfo d =
     (let trimmed = trimReplaceString (pp_stringStream d);
          idx = indexOf trimmed (CHR '':'')
      in if idx = -1 then infoSymbol ATTRIBUTES (AttributeInfo trimmed None)
         else
           infoSymbol ATTRIBUTES
             (AttributeInfo (trim (substring trimmed 0 idx))
                (if idx = int (length trimmed) - 1 then Some []
                 else Some (trim (substring trimmed (idx + 1) (int (length trimmed)))))))"

definition concludeCodeBlock ::
  "ParserContext \<Rightarrow> int \<Rightarrow> PythonParser \<Rightarrow> error + (NodeInfo SymbolInfo \<times> PythonParser)" where
  "concludeCodeBlock ctx reachedGlobalEndIndex d0 =
     (let d = (if reachedGlobalEndIndex \<noteq> -1 \<and> \<not> prevTokenEndsWithBackslash d0
                  \<and> \<not> continuousIndentAfterNewline d0
                 then d0\<lparr>lastLineForEndCodeBlockIndex := reachedGlobalEndIndex\<rparr>
               else d0)
      in if pp_parseType d = TOP_LEVEL then
           (if detectionSymbol d = STATEMENTS_FILLER then Inr (plainSymbol STATEMENTS_FILLER, d)
            else if detectionSymbol d = REFERENCES then
              Inr (infoSymbol REFERENCES
                     (ReferenceInfo (trimReplaceString (pp_stringStream d))
                        (referencePath (pp_tokenStream d))), d)
            else if detectionSymbol d = COMMENT_MULTILINE then Inr (multilineCommentInfo d, d)
            else if detectionSymbol d = FUNCTIONS then
              (case functionBlockInfo ctx d of Inl e \<Rightarrow> Inl e | Inr info \<Rightarrow> Inr (info, d))
            else if detectionSymbol d = CLASSES then
              (if classOrFuncBodyParseStart d = -1
                  \<or> classOrFuncBodyParseStart d \<ge> lastLineForEndCodeBlockIndex d
                 then Inr (plainSymbol STATEMENTS_FILLER, d)
               else
                 case blockInnerRange ctx d of
                   Inl e \<Rightarrow> Inl e
                 | Inr inner \<Rightarrow>
                     Inr (\<lparr>symbolType = CLASSES,
                           parseRange = Some \<lparr>startTok = classOrFuncBodyParseStart d,
                                              endTok = lastLineForEndCodeBlockIndex d\<rparr>,
                           nodeCreationInformation =
                             Some (ClassInfo None (trimReplaceString (pp_stringStream d)) inner)\<rparr>,
                          d))
            else Inl (Error ''Not supported!''))
         else if pp_parseType d = CLASSES then
           (if detectionSymbol d = STATEMENTS_FILLER then Inr (plainSymbol STATEMENTS_FILLER, d)
            else if detectionSymbol d = ATTRIBUTES then Inr (attributeInfo d, d)
            else if detectionSymbol d = COMMENT_MULTILINE then Inr (multilineCommentInfo d, d)
            else if detectionSymbol d = FUNCTIONS then
              (case functionBlockInfo ctx d of Inl e \<Rightarrow> Inl e | Inr info \<Rightarrow> Inr (info, d))
            else Inl (Error ''Not supported!''))
         else Inl (Error ''Not supported!''))"

definition singleLineCommentInfo :: "Token \<Rightarrow> NodeInfo SymbolInfo" where
  "singleLineCommentInfo token =
     infoSymbol COMMENT_SINGLELINE
       (CommentInfo (substring (stringContents token) 1 (int (length (stringContents token)))))"

definition startSingleLine :: "PythonParser \<Rightarrow> PythonParser" where
  "startSingleLine d =
     d\<lparr>parsingBlockInitiated := True, detectionType := SINGLE_LINE,
       detectionSymbol := STATEMENTS_FILLER, encounteredComments := False,
       singleLineImmediatelyAfterComments := False\<rparr>"

definition hasFillerBefore :: "PythonParser \<Rightarrow> bool" where
  "hasFillerBefore d = (mostRecentLineTokIndex d \<noteq> -1 \<or> indentationCount d > 0)"

text \<open>
  The first half of \<open>detectCodeBlocks\<close> while a block is being parsed: the wait for the
  signal that ends the block. The result is the directive, \<open>hasConclusion\<close> and the state.
\<close>

definition awaitStop ::
  "ParserContext \<Rightarrow> Token \<Rightarrow> int \<Rightarrow> nat \<Rightarrow> PythonParser
     \<Rightarrow> error + (NodeInfo SymbolAdditionDirective option \<times> bool \<times> PythonParser)" where
  "awaitStop ctx token currentTokIndex indentationExpected d =
     (if detectionType d = SINGLE_LINE then
        (if stringContents token = newline \<and> currentDepth (pp_bracesMatcher d) = 0
            \<and> \<not> prevTokenEndsWithBackslash d then
           (let d1 = d\<lparr>parsingBlockInitiated := False\<rparr> in
            if \<not> singleLineImmediatelyAfterComments d1 then
              (case concludeCodeBlock ctx (-1) d1 of
                 Inl e \<Rightarrow> Inl e
               | Inr (symbolInfo, d2) \<Rightarrow>
                   Inr (Some \<lparr>symbol = symbolInfo, secondSymbol = None, secondSymbolLen = Some 1,
                              firstTwoSymbolsEndBufferLen = None\<rparr>, True,
                        d2\<lparr>singleLineImmediatelyAfterComments := False\<rparr>))
            else Inr (None, True, d1\<lparr>singleLineImmediatelyAfterComments := False\<rparr>))
         else Inr (None, False, d\<lparr>singleLineImmediatelyAfterComments := False\<rparr>))
      else if currentDepth (pp_bracesMatcher d) = 0 then
        (if continuousIndentAfterNewline d \<and> tokenType token \<noteq> SPACINGS
            \<and> indentationCount d \<le> indentationExpected
            \<and> tokenType token \<noteq> SINGLELINE_COMMENTS then
           (case concludeCodeBlock ctx (-1) d of
              Inl e \<Rightarrow> Inl e
            | Inr (symbolInfo, d1) \<Rightarrow>
                (case updateCodeBlocksContentsParseState token True currentTokIndex
                        indentationExpected (startSingleLine d1) of
                   Inl e \<Rightarrow> Inl e
                 | Inr d2 \<Rightarrow>
                     Inr (Some \<lparr>symbol = symbolInfo, secondSymbol = Some (plainSymbol FILLER),
                                secondSymbolLen =
                                  Some (currentTokIndex - lastLineForEndCodeBlockIndex d1),
                                firstTwoSymbolsEndBufferLen = Some 1\<rparr>, True, d2)))
         else if stringContents token = newline \<and> \<not> prevTokenEndsWithBackslash d
                 \<and> \<not> continuousIndentAfterNewline d
           then Inr (None, False, d\<lparr>lastLineForEndCodeBlockIndex := currentTokIndex\<rparr>)
         else Inr (None, False, d))
      else Inr (None, False, d))"

definition detectCodeBlocks ::
  "ParserContext \<Rightarrow> Token option \<Rightarrow> nat \<Rightarrow> int \<Rightarrow> PythonParser
     \<Rightarrow> error + (NodeInfo SymbolAdditionDirective option \<times> PythonParser)" where
  "detectCodeBlocks ctx token depth currentTokIndex d =
     (case token of
        None \<Rightarrow>
          if parsingBlockInitiated d then
            (case concludeCodeBlock ctx currentTokIndex d of
               Inl e \<Rightarrow> Inl e
             | Inr (symb, d1) \<Rightarrow>
                 (let len = currentTokIndex - lastLineForEndCodeBlockIndex d1 in
                  if symbolType symb = FILLER \<or> symbolType symb = STATEMENTS_FILLER \<or> len = 0
                    then Inr (Some (directive1 symb), d1)
                  else Inr (Some \<lparr>symbol = symb, secondSymbol = Some (plainSymbol FILLER),
                                  secondSymbolLen = Some len,
                                  firstTwoSymbolsEndBufferLen = None\<rparr>, d1)))
          else if hasFillerBefore d then Inr (Some (directive1 (plainSymbol FILLER)), d)
          else Inr (None, d)
      | Some tok \<Rightarrow>
          (let indentationExpected =
                 depth * (if pythonIsTabs d then 1 else length (pythonCodeIndents d));
               res =
                 (if parsingBlockInitiated d then
                    (case awaitStop ctx tok currentTokIndex indentationExpected d of
                       Inl e \<Rightarrow> Inl e
                     | Inr (retDirective, hasConclusion, d1) \<Rightarrow>
                         if tokenType tok = SINGLELINE_COMMENTS
                            \<and> detectionSymbol d1 = STATEMENTS_FILLER then
                           Inr (Some \<lparr>symbol = plainSymbol STATEMENTS_FILLER,
                                      secondSymbol = Some (singleLineCommentInfo tok),
                                      secondSymbolLen = None,
                                      firstTwoSymbolsEndBufferLen = None\<rparr>,
                                d1\<lparr>encounteredComments := True,
                                   singleLineImmediatelyAfterComments := True\<rparr>)
                         else if \<not> (encounteredComments d1 \<or> hasConclusion) then
                           (case updateCodeBlocksContentsParseState tok False currentTokIndex
                                   indentationExpected d1 of
                              Inl e \<Rightarrow> Inl e
                            | Inr d2 \<Rightarrow> Inr (retDirective, d2))
                         else Inr (retDirective, d1))
                  else if continuousIndentAfterNewline d \<and> tokenType tok \<noteq> SPACINGS then
                    (if tokenType tok = SINGLELINE_COMMENTS then
                       (if hasFillerBefore d
                          then Inr (Some \<lparr>symbol = plainSymbol FILLER,
                                          secondSymbol = Some (singleLineCommentInfo tok),
                                          secondSymbolLen = None,
                                          firstTwoSymbolsEndBufferLen = None\<rparr>, d)
                        else Inr (Some (directive1 (singleLineCommentInfo tok)), d))
                     else
                       (case updateCodeBlocksContentsParseState tok True currentTokIndex
                               indentationExpected (startSingleLine d) of
                          Inl e \<Rightarrow> Inl e
                        | Inr d1 \<Rightarrow>
                            Inr ((if hasFillerBefore d
                                    then Some \<lparr>symbol = plainSymbol FILLER, secondSymbol = None,
                                               secondSymbolLen = Some 1,
                                               firstTwoSymbolsEndBufferLen = None\<rparr>
                                  else None), d1)))
                  else Inr (None, d))
           in case res of
                Inl e \<Rightarrow> Inl e
              | Inr (retDirective, d') \<Rightarrow>
                  (case updateCodeBlocksBracesAndSpacingsState tok currentTokIndex d' of
                     Inl e \<Rightarrow> Inl e
                   | Inr d'' \<Rightarrow> Inr (retDirective, d''))))"

text \<open>The Python language: \<open>PythonParser\<close> as an instance of the framework.\<close>

definition PythonLanguage :: "(PythonTokenizer, PythonParser, NodeInfo) Language" where
  "PythonLanguage =
     \<lparr>lexer = PythonLexer,
      initialDetectionState = PythonParser_new,
      preparse = PythonParser_preparse,
      isCommentBeforeFunction = False,
      resetDetectionState = PythonParser_resetDetectionState,
      detectTopLevelSymbol = (\<lambda>ctx state token currentTokIndex depth.
                                detectCodeBlocks ctx token depth currentTokIndex),
      detectClassesSymbol = (\<lambda>ctx state token currentTokIndex depth.
                               detectCodeBlocks ctx token depth currentTokIndex),
      detectFunctionsSymbol = PythonParser_detectFunctionsSymbol,
      detectFunctionBodySymbol = PythonParser_detectFunctionBodySymbol,
      detectFunctionDeclarationSymbol = PythonParser_detectFunctionDeclarationSymbol,
      createArgumentNode = createArgumentNode_impl,
      createAttributesNode = createAttributesNode_impl,
      createCommentsNode = createCommentsNode_impl,
      createReferencesNode = createReferencesNode_impl,
      createClassesNode = createClassesNode_impl,
      createFunctionsNode = createFunctionsNode_impl,
      createFunctionDeclarationNode = createFunctionDeclarationNode_impl\<rparr>"

section \<open>Properties of the parser framework\<close>

text \<open>
  Claim C10. On an empty array of code lines, and on an array that holds exactly one line
  of length zero, \<open>parse\<close> throws \<open>CodeParsingError\<close> and produces no tree. The result is the
  same for every language, whatever its lexer, its \<open>preparse\<close> and its detectors do: the
  check comes before all of them.
\<close>

theorem parse_empty_input_throws:
  "parse lang [] = Inl (CodeParsingError ''Cannot parse empty string!'')
   \<and> parse lang [[]] = Inl (CodeParsingError ''Cannot parse empty string!'')"
  by (simp add: parse_def)

section \<open>Properties of the Python parser\<close>

text \<open>
  Claim C9 on the input of the claim. The second line of \<open>x = (1 +\<close>, \<open> 2)\<close> starts with
  one space; one is a multiple of none of the indentation steps 12, 6, 4, 3, 2, so
  \<open>preparse\<close> finds no step and throws: the parse of this input does not succeed.
\<close>

theorem python_statement_in_brackets_counterexample:
  "parse PythonLanguage [''x = (1 +'', '' 2)'']
     = Inl (CodeParsingError ''Unable to detect a consistent indentation step within the allowed threshold.'')"
  by code_simp

text \<open>
  Claim C9, amended. While a single-line block is being parsed at top level or in a
  class, a new line at bracket depth above 0 yields no directive and leaves the block
  open. With the continuation line indented by two spaces, \<open>x = (1 +\<close>, \<open>  2)\<close>, the
  thirteen tokens of the statement are one \<open>STATEMENTS_FILLER\<close>, the final new line is
  a \<open>FILLER\<close>, and \<open>parse\<close> returns a root without children.
\<close>

theorem python_statement_in_brackets:
  "(parsingBlockInitiated d \<and> detectionType d = SINGLE_LINE
      \<and> currentDepth (pp_bracesMatcher d) > 0
      \<and> tokenType tok = SPACINGS \<and> stringContents tok = newline
      \<and> (pp_parseType d = TOP_LEVEL \<or> pp_parseType d = CLASSES)
    \<longrightarrow> (\<exists>d'. detectCodeBlocks ctx (Some tok) depth i d = Inr (None, d')
           \<and> parsingBlockInitiated d' \<and> detectionType d' = SINGLE_LINE
           \<and> pp_bracesMatcher d' = pp_bracesMatcher d))
   \<and> topLevelSymbols PythonLanguage [''x = (1 +'', ''  2)'']
       = Inr [(STATEMENTS_FILLER, \<lparr>startTok = 0, endTok = 13\<rparr>),
              (FILLER, \<lparr>startTok = 13, endTok = 14\<rparr>)]
   \<and> parse PythonLanguage [''x = (1 +'', ''  2)'']
       = Inr \<lparr>root = newNode TopLevelData (getMaxRange [''x = (1 +'', ''  2)'']),
              ast_sourceLines = [''x = (1 +'', ''  2)'']\<rparr>"
proof (intro conjI impI)
  assume a: "parsingBlockInitiated d \<and> detectionType d = SINGLE_LINE
      \<and> currentDepth (pp_bracesMatcher d) > 0
      \<and> tokenType tok = SPACINGS \<and> stringContents tok = newline
      \<and> (pp_parseType d = TOP_LEVEL \<or> pp_parseType d = CLASSES)"
  then show "\<exists>d'. detectCodeBlocks ctx (Some tok) depth i d = Inr (None, d')
           \<and> parsingBlockInitiated d' \<and> detectionType d' = SINGLE_LINE
           \<and> pp_bracesMatcher d' = pp_bracesMatcher d"
    by (auto simp: detectCodeBlocks_def awaitStop_def updateCodeBlocksContentsParseState_def
        updateCodeBlocksBracesAndSpacingsState_def Let_def recordToken_def demoteComment_def
        stopAtColon_def isKeyword_def)
next
  show "topLevelSymbols PythonLanguage [''x = (1 +'', ''  2)'']
       = Inr [(STATEMENTS_FILLER, \<lparr>startTok = 0, endTok = 13\<rparr>),
              (FILLER, \<lparr>startTok = 13, endTok = 14\<rparr>)]"
    by code_simp
next
  show "parse PythonLanguage [''x = (1 +'', ''  2)'']
       = Inr \<lparr>root = newNode TopLevelData (getMaxRange [''x = (1 +'', ''  2)'']),
              ast_sourceLines = [''x = (1 +'', ''  2)'']\<rparr>"
    by code_simp
qed

text \<open>
  The general part of the theorem at the state of a new parser in which a single-line
  block is open and one bracket has been pushed.
\<close>

theorem python_statement_in_brackets_witness:
  "parsingBlockInitiated
     (PythonParser_new\<lparr>parsingBlockInitiated := True,
        pp_bracesMatcher := codeBracesMatcher\<lparr>stack := [''('']\<rparr>\<rparr>)
   \<and> currentDepth (codeBracesMatcher\<lparr>stack := [''('']\<rparr>) > 0
   \<and> (\<exists>d'. detectCodeBlocks (newContext [] []) (Some (mkToken SPACINGS newline 8 9)) 0 8
              (PythonParser_new\<lparr>parsingBlockInitiated := True,
                 pp_bracesMatcher := codeBracesMatcher\<lparr>stack := [''('']\<rparr>\<rparr>)
            = Inr (None, d')
          \<and> parsingBlockInitiated d' \<and> detectionType d' = SINGLE_LINE
          \<and> pp_bracesMatcher d' = codeBracesMatcher\<lparr>stack := [''('']\<rparr>)"
  using python_statement_in_brackets
    [where d = "PythonParser_new\<lparr>parsingBlockInitiated := True,
                  pp_bracesMatcher := codeBracesMatcher\<lparr>stack := [''('']\<rparr>\<rparr>"
       and tok = "mkToken SPACINGS newline 8 9" and ctx = "newContext [] []"
       and depth = 0 and i = 8]
  by (simp add: PythonParser_new_def PythonParser_resetDetectionState_def currentDepth_def
      mkToken_def BracesMatcher_reset_def)

section \<open>The shape of function groups\<close>

text \<open>
  \<open>everyGroup shape node\<close>: the children of every \<open>FunctionGroups\<close> node in the tree
  under \<open>node\<close> satisfy \<open>shape\<close>.
\<close>

fun everyGroup :: "(SyntaxNode list \<Rightarrow> bool) \<Rightarrow> SyntaxNode \<Rightarrow> bool" where
  "everyGroup shape (SyntaxNode d r i rk pk cs) =
     ((kindOfData d = FunctionGroups \<longrightarrow> shape cs) \<and> (\<forall>c \<in> set cs. everyGroup shape c))"

text \<open>
  The shape of the specification: one \<open>Functions\<close> child, or a \<open>Comments\<close> child of rank 0
  followed by a \<open>Functions\<close> child of rank 1.
\<close>

definition specGroupShape :: "SyntaxNode list \<Rightarrow> bool" where
  "specGroupShape cs =
     (map kindOf cs = [Functions]
      \<or> (map kindOf cs = [Comments, Functions] \<and> map siblingRank cs = [0, 1]))"

text \<open>
  The shape that the parser builds. The ranks count from 0. With comments before
  functions a group is a function, or a comment followed by the function; with
  comments inside the function body it is a function, or the function followed by the
  comment that was moved out of its body.
\<close>

definition groupShape :: "bool \<Rightarrow> SyntaxNode list \<Rightarrow> bool" where
  "groupShape commentBeforeFunction cs =
     (map siblingRank cs = [0..<length cs]
      \<and> (map kindOf cs = [Functions]
           \<or> (commentBeforeFunction \<and> map kindOf cs = [Comments, Functions])
           \<or> (\<not> commentBeforeFunction \<and> map kindOf cs = [Functions, Comments])))"

text \<open>
  The return types of the factories and the constructors of the node classes: a factory
  returns a node of its class, and a new node has no children.
\<close>

definition freshOfKind :: "NodeKind \<Rightarrow> error + SyntaxNode \<Rightarrow> bool" where
  "freshOfKind k r = (case r of Inl _ \<Rightarrow> True | Inr node \<Rightarrow> kindOf node = k \<and> children node = [])"

definition wellTypedFactories :: "('s, 'd, 'i) Language \<Rightarrow> bool" where
  "wellTypedFactories lang =
     (\<forall>rng info.
        freshOfKind Argument (createArgumentNode lang rng info)
        \<and> freshOfKind Attributes (createAttributesNode lang rng info)
        \<and> freshOfKind Comments (createCommentsNode lang rng True info)
        \<and> freshOfKind Comments (createCommentsNode lang rng False info)
        \<and> freshOfKind References (createReferencesNode lang rng info)
        \<and> freshOfKind Classes (createClassesNode lang rng info)
        \<and> freshOfKind Functions (createFunctionsNode lang rng info)
        \<and> freshOfKind FunctionDeclaration (createFunctionDeclarationNode lang rng info))"

lemma everyGroup_iff:
  "everyGroup shape node =
     ((kindOf node = FunctionGroups \<longrightarrow> shape (children node))
      \<and> (\<forall>c \<in> set (children node). everyGroup shape c))"
  by (cases node) (simp add: kindOf_def)

definition sameHead :: "SyntaxNode \<Rightarrow> SyntaxNode \<Rightarrow> bool" where
  "sameHead a b = (kindOf a = kindOf b \<and> siblingRank a = siblingRank b
                   \<and> parentKind a = parentKind b \<and> nodeRange a = nodeRange b)"

lemma sameHead_refl [simp]: "sameHead a a"
  by (simp add: sameHead_def)

lemma sameHead_trans: "sameHead a b \<Longrightarrow> sameHead b c \<Longrightarrow> sameHead a c"
  by (simp add: sameHead_def)

definition asChild :: "SyntaxNode \<Rightarrow> SyntaxNode \<Rightarrow> SyntaxNode" where
  "asChild parent node =
     SyntaxNode (nodeData node) (nodeRange node) (innerRangeOverride node)
       (length (children parent)) (Some (kindOf parent)) (children node)"

lemma addChild_simps [simp]:
  "kindOf (addChild p x) = kindOf p"
  "children (addChild p x) = children p @ [asChild p x]"
  "siblingRank (addChild p x) = siblingRank p"
  "parentKind (addChild p x) = parentKind p"
  "nodeRange (addChild p x) = nodeRange p"
  by (simp_all add: addChild_def kindOf_def asChild_def)

lemma asChild_simps [simp]:
  "kindOf (asChild p x) = kindOf x"
  "children (asChild p x) = children x"
  "siblingRank (asChild p x) = length (children p)"
  "parentKind (asChild p x) = Some (kindOf p)"
  "nodeRange (asChild p x) = nodeRange x"
  by (simp_all add: asChild_def kindOf_def)

lemma flag_simps [simp]:
  "kindOf (flagHaveFunctionBody p) = kindOf p"
  "children (flagHaveFunctionBody p) = children p"
  "siblingRank (flagHaveFunctionBody p) = siblingRank p"
  "parentKind (flagHaveFunctionBody p) = parentKind p"
  "nodeRange (flagHaveFunctionBody p) = nodeRange p"
  by (simp_all add: flagHaveFunctionBody_def kindOf_def split: NodeData.splits)

lemma replaceChild_simps [simp]:
  "kindOf (replaceChild p i x) = kindOf p"
  "children (replaceChild p i x) = (children p)[i := x]"
  "siblingRank (replaceChild p i x) = siblingRank p"
  "parentKind (replaceChild p i x) = parentKind p"
  "nodeRange (replaceChild p i x) = nodeRange p"
  by (simp_all add: replaceChild_def kindOf_def)

lemma newNode_simps [simp]:
  "kindOf (newNode d r) = kindOfData d"
  "children (newNode d r) = []"
  "siblingRank (newNode d r) = 0"
  "parentKind (newNode d r) = None"
  "nodeRange (newNode d r) = r"
  by (simp_all add: newNode_def kindOf_def)

lemma everyGroup_childless:
  "children x = [] \<Longrightarrow> kindOf x \<noteq> FunctionGroups \<Longrightarrow> everyGroup S x"
  by (subst everyGroup_iff) simp

lemma everyGroup_asChild [simp]: "everyGroup S (asChild p x) = everyGroup S x"
  by (simp add: everyGroup_iff[of S "asChild p x"] everyGroup_iff[of S x])

lemma everyGroup_addChild:
  "kindOf p \<noteq> FunctionGroups \<Longrightarrow> everyGroup S p \<Longrightarrow> everyGroup S x \<Longrightarrow> everyGroup S (addChild p x)"
  by (simp add: everyGroup_iff[of S "addChild p x"] everyGroup_iff[of S p])

lemma everyGroup_flag:
  "everyGroup S p \<Longrightarrow> everyGroup S (flagHaveFunctionBody p)"
  by (simp add: everyGroup_iff[of S "flagHaveFunctionBody p"] everyGroup_iff[of S p])

lemma everyGroup_replaceChild:
  assumes "kindOf p \<noteq> FunctionGroups" "everyGroup S p" "everyGroup S x"
  shows "everyGroup S (replaceChild p i x)"
proof -
  have "set ((children p)[i := x]) \<subseteq> insert x (set (children p))"
    by (rule set_update_subset_insert)
  then show ?thesis
    using assms by (auto simp: everyGroup_iff[of S "replaceChild p i x"] everyGroup_iff[of S p])
qed

lemma everyGroup_child:
  "everyGroup S p \<Longrightarrow> i < length (children p) \<Longrightarrow> everyGroup S (children p ! i)"
  using everyGroup_iff[of S p] by simp

subsection \<open>The arrays of a parsing state have one length\<close>

definition psAligned :: "'i ParsingState \<Rightarrow> bool" where
  "psAligned ps =
     (length (ps_ntParseRange ps) = length (ps_state ps)
      \<and> length (ps_symbolRange ps) = length (ps_state ps)
      \<and> length (ps_nodeCreationInformation ps) = length (ps_state ps))"

lemma pushSymbol_aligned:
  "pushSymbol info sr ps = Inr ps' \<Longrightarrow> psAligned ps \<Longrightarrow> psAligned ps'"
  by (auto simp: pushSymbol_def psAligned_def Let_def split: sum.splits)

lemma updateTokenStreamState_aligned:
  assumes "updateTokenStreamState lang ctx depth nt buf pe ci isC ps d = Inr (pe', buf', ps', d')"
    and "psAligned ps"
  shows "psAligned ps'"
  using assms
  by (auto simp: updateTokenStreamState_def Let_def
      split: sum.splits option.splits if_splits prod.splits
      dest: pushSymbol_aligned)

lemma detectLoop_aligned:
  "detectLoop lang ctx depth nt idxs st = Inr st' \<Longrightarrow> psAligned (fst (snd (snd st)))
     \<Longrightarrow> psAligned (fst (snd (snd st')))"
proof (induction idxs arbitrary: st)
  case Nil
  then show ?case by simp
next
  case (Cons i rest)
  obtain pe buf ps d where st: "st = (pe, buf, ps, d)" by (cases st) auto
  from Cons.prems(1) obtain tok st1 where
    u: "updateTokenStreamState lang ctx depth nt (buf @ [tok]) pe i False ps d = Inr st1"
    and r: "detectLoop lang ctx depth nt rest st1 = Inr st'"
    by (auto simp: st split: option.splits sum.splits)
  obtain pe1 buf1 ps1 d1 where st1: "st1 = (pe1, buf1, ps1, d1)" by (cases st1) auto
  have "psAligned ps1"
    using updateTokenStreamState_aligned[OF u[unfolded st1]] Cons.prems(2) by (simp add: st)
  then show ?case using Cons.IH[OF r] by (simp add: st1)
qed

lemma partitionTokens_aligned:
  assumes "partitionTokens lang ctx nt tokRange depth d = Inr (ps, d')"
  shows "psAligned ps"
proof -
  from assms obtain pe buf ps1 d1 pe2 buf2 where
    l: "detectLoop lang ctx depth nt [startTok tokRange..endTok tokRange - 1]
          (startTok tokRange, [], emptyParsingState,
           resetDetectionState lang (startTok tokRange) nt d) = Inr (pe, buf, ps1, d1)"
    and u: "updateTokenStreamState lang ctx depth nt buf pe
              (max (startTok tokRange) (endTok tokRange)) True ps1 d1 = Inr (pe2, buf2, ps, d')"
    by (auto simp: partitionTokens_def Let_def split: sum.splits prod.splits if_splits)
  have "psAligned emptyParsingState" by (simp add: psAligned_def emptyParsingState_def)
  then have "psAligned ps1" using detectLoop_aligned[OF l] by simp
  then show ?thesis using updateTokenStreamState_aligned[OF u] by simp
qed

subsection \<open>What the validation leaves\<close>

lemma validate_topLevel:
  "validateParsingState TOP_LEVEL state = Inr u \<Longrightarrow> s \<in> set state \<Longrightarrow> \<not> isTerminal s
     \<Longrightarrow> s = CLASSES \<or> s = FUNCTIONS"
  by (auto simp: validateParsingState_def validateParsingStateTopLevel_def list_all_iff
      split: if_splits)

lemma validate_classes:
  "validateParsingState CLASSES state = Inr u \<Longrightarrow> s \<in> set state \<Longrightarrow> \<not> isTerminal s
     \<Longrightarrow> s = FUNCTIONS"
  by (auto simp: validateParsingState_def validateParsingStateClasses_def list_all_iff
      split: if_splits)

lemma validate_body:
  "validateParsingState FUNCTION_BODY state = Inr u \<Longrightarrow> s \<in> set state \<Longrightarrow> isTerminal s"
  by (auto simp: validateParsingState_def validateParsingStateFunctionBody_def list_all_iff
      split: if_splits)

lemma validateDeclaration_terminal:
  "validateParsingStateFunctionDeclaration state = Inr u \<Longrightarrow> s \<in> set state \<Longrightarrow> isTerminal s"
  by (induction state) (auto split: if_splits)

lemma validate_declaration:
  "validateParsingState FUNCTION_DECLARATION state = Inr u \<Longrightarrow> s \<in> set state \<Longrightarrow> isTerminal s"
  by (simp add: validateParsingState_def validateDeclaration_terminal)

lemma validate_terminal:
  "isTerminal nt \<Longrightarrow> validateParsingState nt state \<noteq> Inr u"
  by (cases nt) (simp_all add: validateParsingState_def)

lemma getFirstLast_bounds:
  assumes "getFirstLast state = (Some f, Some l)"
  shows "f < length state \<and> l < length state"
proof -
  let ?xs = "filter (\<lambda>i. notFiller (state ! i)) [0..<length state]"
  from assms obtain i rest where xs: "?xs = i # rest" and f: "f = i" and l: "l = last (i # rest)"
    by (auto simp: getFirstLast_def split: list.splits)
  have "i \<in> set ?xs" using xs by simp
  moreover have "last (i # rest) \<in> set ?xs" using xs last_in_set[of "i # rest"] by simp
  ultimately show ?thesis using f l by auto
qed

lemma validate_functions:
  assumes "validateParsingState FUNCTIONS state = Inr u"
  shows "\<exists>f l. getFirstLast state = (Some f, Some l) \<and> f < length state \<and> l < length state
           \<and> state ! f = FUNCTION_DECLARATION \<and> state ! l = FUNCTION_BODY"
proof -
  obtain a b where g: "getFirstLast state = (a, b)" by (cases "getFirstLast state") auto
  from assms g have "a \<noteq> None \<and> b \<noteq> None"
    by (auto simp: validateParsingState_def validateParsingStateFunctions_def Let_def
        split: if_splits option.splits)
  then obtain f l where ab: "a = Some f" "b = Some l" by auto
  from assms g ab have "state ! f = FUNCTION_DECLARATION \<and> state ! l = FUNCTION_BODY"
    by (auto simp: validateParsingState_def validateParsingStateFunctions_def Let_def
        split: if_splits)
  then show ?thesis using getFirstLast_bounds[of state f l] g ab by auto
qed

subsection \<open>The nodes of the symbols\<close>

fun kindFor :: "Symbol \<Rightarrow> NodeKind" where
  "kindFor ARGUMENT = Argument"
| "kindFor ATTRIBUTES = Attributes"
| "kindFor COMMENT_MULTILINE = Comments"
| "kindFor COMMENT_SINGLELINE = Comments"
| "kindFor REFERENCES = References"
| "kindFor CLASSES = Classes"
| "kindFor FUNCTIONS = Functions"
| "kindFor FUNCTION_DECLARATION = FunctionDeclaration"
| "kindFor _ = TopLevel"

definition noNodeSymbol :: "Symbol \<Rightarrow> bool" where
  "noNodeSymbol s = (s = FILLER \<or> s = STATEMENTS_FILLER \<or> s = FUNCTION_BODY)"

definition nodeFits :: "Symbol \<Rightarrow> SyntaxNode option \<Rightarrow> bool" where
  "nodeFits s n =
     (case n of
        None \<Rightarrow> noNodeSymbol s
      | Some node \<Rightarrow> \<not> noNodeSymbol s \<and> s \<noteq> TOP_LEVEL \<and> kindOf node = kindFor s
                      \<and> children node = [])"

lemma someNode_fresh:
  "someNode r = Inr n \<Longrightarrow> freshOfKind k r \<Longrightarrow> \<exists>node. n = Some node \<and> kindOf node = k \<and> children node = []"
  by (auto simp: someNode_def freshOfKind_def split: sum.splits)

lemma resolveIntoNode_fits:
  assumes "wellTypedFactories lang" "resolveIntoNode lang ctx s r info = Inr n"
  shows "nodeFits s n"
proof -
  from assms(2) obtain rng where
    n: "(case s of
          ARGUMENT \<Rightarrow> someNode (createArgumentNode lang rng info)
        | ATTRIBUTES \<Rightarrow> someNode (createAttributesNode lang rng info)
        | COMMENT_MULTILINE \<Rightarrow> someNode (createCommentsNode lang rng True info)
        | COMMENT_SINGLELINE \<Rightarrow> someNode (createCommentsNode lang rng False info)
        | REFERENCES \<Rightarrow> someNode (createReferencesNode lang rng info)
        | FILLER \<Rightarrow> Inr None
        | STATEMENTS_FILLER \<Rightarrow> Inr None
        | CLASSES \<Rightarrow> someNode (createClassesNode lang rng info)
        | FUNCTIONS \<Rightarrow> someNode (createFunctionsNode lang rng info)
        | FUNCTION_BODY \<Rightarrow> Inr None
        | FUNCTION_DECLARATION \<Rightarrow> someNode (createFunctionDeclarationNode lang rng info)
        | TOP_LEVEL \<Rightarrow> Inl (Error ''Invalid detected type! Should not have happened.'')) = Inr n"
    by (auto simp: resolveIntoNode_def split: prod.splits option.splits sum.splits)
  from assms(1) have w:
    "freshOfKind Argument (createArgumentNode lang rng info)"
    "freshOfKind Attributes (createAttributesNode lang rng info)"
    "freshOfKind Comments (createCommentsNode lang rng True info)"
    "freshOfKind Comments (createCommentsNode lang rng False info)"
    "freshOfKind References (createReferencesNode lang rng info)"
    "freshOfKind Classes (createClassesNode lang rng info)"
    "freshOfKind Functions (createFunctionsNode lang rng info)"
    "freshOfKind FunctionDeclaration (createFunctionDeclarationNode lang rng info)"
    by (simp_all add: wellTypedFactories_def)
  show ?thesis
    using n someNode_fresh[OF _ w(1)] someNode_fresh[OF _ w(2)] someNode_fresh[OF _ w(3)]
      someNode_fresh[OF _ w(4)] someNode_fresh[OF _ w(5)] someNode_fresh[OF _ w(6)]
      someNode_fresh[OF _ w(7)] someNode_fresh[OF _ w(8)]
    by (cases s) (auto simp: nodeFits_def noNodeSymbol_def)
qed

lemma resolveAll_fits:
  "wellTypedFactories lang \<Longrightarrow> resolveAll lang ctx xs = Inr ns
     \<Longrightarrow> list_all2 nodeFits (map fst xs) ns"
proof (induction xs arbitrary: ns)
  case Nil
  then show ?case by simp
next
  case (Cons x xs)
  obtain ty rng info where x: "x = (ty, rng, info)" by (cases x) auto
  from Cons.prems(2) obtain n ns' where
    a: "resolveIntoNode lang ctx ty rng info = Inr n" and b: "resolveAll lang ctx xs = Inr ns'"
    and c: "ns = n # ns'"
    by (auto simp: x split: sum.splits)
  show ?case
    using resolveIntoNode_fits[OF Cons.prems(1) a] Cons.IH[OF Cons.prems(1) b] c x by simp
qed

subsection \<open>The first loop\<close>

definition groupFresh :: "bool \<Rightarrow> SyntaxNode \<Rightarrow> nat \<Rightarrow> bool" where
  "groupFresh cb g q =
     (kindOf g = FunctionGroups \<and> groupShape cb (children g) \<and> q < length (children g)
      \<and> kindOf (children g ! q) = Functions \<and> (\<forall>c \<in> set (children g). children c = [])
      \<and> (\<not> cb \<longrightarrow> length (children g) = 1))"

definition slotFresh :: "bool \<Rightarrow> SyntaxNode \<Rightarrow> Symbol \<Rightarrow> Slot \<Rightarrow> bool" where
  "slotFresh cb parent s slot =
     (if s = FUNCTIONS then
        (case slot of
           InGroup p q \<Rightarrow> p < length (children parent) \<and> groupFresh cb (children parent ! p) q
         | _ \<Rightarrow> False)
      else if s = FUNCTION_BODY then slot = AtParent
      else
        (case slot of
           Direct p \<Rightarrow> p < length (children parent) \<and> children (children parent ! p) = []
                       \<and> kindOf (children parent ! p) = kindFor s
         | _ \<Rightarrow> False))"

fun slotPos :: "Slot \<Rightarrow> nat option" where
  "slotPos (Direct p) = Some p"
| "slotPos (InGroup p q) = Some p"
| "slotPos _ = None"

definition slotsFresh :: "bool \<Rightarrow> SyntaxNode \<Rightarrow> Symbol list \<Rightarrow> Slot list \<Rightarrow> bool" where
  "slotsFresh cb parent syms slots =
     (length slots = length syms
      \<and> (\<forall>i < length syms. \<not> isTerminal (syms ! i) \<longrightarrow> slotFresh cb parent (syms ! i) (slots ! i))
      \<and> (\<forall>i < length syms. \<forall>j < length syms.
            i \<noteq> j \<longrightarrow> \<not> isTerminal (syms ! i) \<longrightarrow> \<not> isTerminal (syms ! j)
            \<longrightarrow> slotPos (slots ! i) \<noteq> None \<longrightarrow> slotPos (slots ! i) \<noteq> slotPos (slots ! j)))"

definition childlessComment :: "SyntaxNode \<Rightarrow> bool" where
  "childlessComment c = (kindOf c = Comments \<and> children c = [])"

definition attachInv ::
  "bool \<Rightarrow> bool \<Rightarrow> bool \<Rightarrow> SyntaxNode \<Rightarrow> Symbol list \<Rightarrow> AttachState \<Rightarrow> bool" where
  "attachInv cb cp cf parent0 syms a =
     (sameHead parent0 (as_parent a)
      \<and> everyGroup (groupShape cb) (as_parent a)
      \<and> (case as_dangling a of
            None \<Rightarrow> True
          | Some (j, c) \<Rightarrow> cp \<and> j < length syms \<and> isTerminal (syms ! j) \<and> childlessComment c)
      \<and> (\<forall>c \<in> set (as_lifted a). childlessComment c)
      \<and> length (as_lifted a) \<le> 1
      \<and> (as_lifted a \<noteq> [] \<longrightarrow> cf \<and> \<not> as_isFirst a)
      \<and> slotsFresh cb (as_parent a) syms (as_slots a))"

text \<open>Appending a child leaves the earlier slots as they are.\<close>

lemma slotFresh_addChild:
  "slotFresh cb parent s slot \<Longrightarrow> slotFresh cb (addChild parent x) s slot"
  by (auto simp: slotFresh_def nth_append split: Slot.splits if_splits)

lemma slotFresh_flag:
  "slotFresh cb (flagHaveFunctionBody parent) s slot = slotFresh cb parent s slot"
  by (simp add: slotFresh_def split: Slot.splits)

lemma slotFresh_pos:
  "slotFresh cb parent s slot \<Longrightarrow> slotPos slot = Some p \<Longrightarrow> p < length (children parent)"
  by (auto simp: slotFresh_def split: Slot.splits if_splits)

lemma slotsFresh_flag:
  "slotsFresh cb (flagHaveFunctionBody parent) syms slots = slotsFresh cb parent syms slots"
  by (simp add: slotsFresh_def slotFresh_flag)

lemma slotsFresh_addChild:
  "slotsFresh cb parent syms slots \<Longrightarrow> slotsFresh cb (addChild parent x) syms slots"
  by (simp add: slotsFresh_def slotFresh_addChild)

text \<open>A terminal gets any slot.\<close>

lemma slotsFresh_terminal:
  assumes "slotsFresh cb parent syms slots" "isTerminal s"
  shows "slotsFresh cb parent (syms @ [s]) (slots @ [slot])"
  using assms
  by (auto simp: slotsFresh_def nth_append less_Suc_eq)

lemma slotsFresh_update_terminal:
  assumes "slotsFresh cb parent syms slots" "j < length syms" "isTerminal (syms ! j)"
  shows "slotsFresh cb parent syms (slots[j := slot])"
  using assms
  by (auto simp: slotsFresh_def nth_list_update)

text \<open>A non-terminal gets the position of the child that was just appended.\<close>

lemma slotsFresh_new:
  assumes "slotsFresh cb parent syms slots"
    and "slotFresh cb parent' s slot"
    and "slotPos slot = Some (length (children parent)) \<or> slotPos slot = None"
    and "\<And>t sl. slotFresh cb parent t sl \<Longrightarrow> slotFresh cb parent' t sl"
  shows "slotsFresh cb parent' (syms @ [s]) (slots @ [slot])"
proof -
  have len: "length slots = length syms" using assms(1) by (simp add: slotsFresh_def)
  have old: "\<And>i. i < length syms \<Longrightarrow> \<not> isTerminal (syms ! i) \<Longrightarrow> slotFresh cb parent (syms ! i) (slots ! i)"
    using assms(1) by (simp add: slotsFresh_def)
  have oldpos: "\<And>i p. i < length syms \<Longrightarrow> \<not> isTerminal (syms ! i) \<Longrightarrow> slotPos (slots ! i) = Some p
      \<Longrightarrow> p < length (children parent)"
    using old slotFresh_pos by blast
  have dist: "\<And>i j. i < length syms \<Longrightarrow> j < length syms \<Longrightarrow> i \<noteq> j \<Longrightarrow> \<not> isTerminal (syms ! i)
      \<Longrightarrow> \<not> isTerminal (syms ! j) \<Longrightarrow> slotPos (slots ! i) \<noteq> None
      \<Longrightarrow> slotPos (slots ! i) \<noteq> slotPos (slots ! j)"
    using assms(1) by (simp add: slotsFresh_def)
  show ?thesis
    unfolding slotsFresh_def
  proof (intro conjI allI impI)
    show "length (slots @ [slot]) = length (syms @ [s])" using len by simp
  next
    fix i assume i: "i < length (syms @ [s])" and nt: "\<not> isTerminal ((syms @ [s]) ! i)"
    show "slotFresh cb parent' ((syms @ [s]) ! i) ((slots @ [slot]) ! i)"
    proof (cases "i < length syms")
      case True
      then show ?thesis using old[of i] nt assms(4) len by (simp add: nth_append)
    next
      case False
      then have "i = length syms" using i by simp
      then show ?thesis using assms(2) len by (simp add: nth_append)
    qed
  next
    fix i j
    assume i: "i < length (syms @ [s])" and j: "j < length (syms @ [s])" and ij: "i \<noteq> j"
      and nti: "\<not> isTerminal ((syms @ [s]) ! i)" and ntj: "\<not> isTerminal ((syms @ [s]) ! j)"
      and pi: "slotPos ((slots @ [slot]) ! i) \<noteq> None"
    show "slotPos ((slots @ [slot]) ! i) \<noteq> slotPos ((slots @ [slot]) ! j)"
    proof (cases "i < length syms")
      case iT: True
      show ?thesis
      proof (cases "j < length syms")
        case True
        then show ?thesis using dist[of i j] iT ij nti ntj pi len by (simp add: nth_append)
      next
        case False
        then have je: "j = length syms" using j by simp
        from pi iT len obtain p where p: "slotPos (slots ! i) = Some p" by (auto simp: nth_append)
        have "p < length (children parent)" using oldpos[OF iT _ p] nti iT by (simp add: nth_append)
        then show ?thesis using assms(3) p iT je len by (auto simp: nth_append)
      qed
    next
      case False
      then have ie: "i = length syms" using i by simp
      then have jT: "j < length syms" using j ij by simp
      from pi ie len have ps: "slotPos slot = Some (length (children parent))"
        using assms(3) by (auto simp: nth_append)
      show ?thesis
      proof (cases "slotPos (slots ! j)")
        case None
        then show ?thesis using ps ie jT len by (simp add: nth_append)
      next
        case (Some p)
        have "p < length (children parent)" using oldpos[OF jT _ Some] ntj jT by (simp add: nth_append)
        then show ?thesis using ps ie jT len Some by (simp add: nth_append)
      qed
    qed
  qed
qed

lemma childlessComment_everyGroup: "childlessComment c \<Longrightarrow> everyGroup S c"
  by (rule everyGroup_childless) (simp_all add: childlessComment_def)

lemma dangling_append:
  assumes "case dg of None \<Rightarrow> True
           | Some (j, c) \<Rightarrow> cp \<and> j < length syms \<and> isTerminal (syms ! j) \<and> childlessComment c"
  shows "case dg of None \<Rightarrow> True
         | Some (j, c) \<Rightarrow> cp \<and> j < length (syms @ [s]) \<and> isTerminal ((syms @ [s]) ! j)
                          \<and> childlessComment c"
  using assms by (auto simp: nth_append split: option.splits)

lemma placeDangling_inv:
  assumes "attachInv cb cp cf parent0 syms a" "kindOf parent0 \<noteq> FunctionGroups"
  shows "attachInv cb cp cf parent0 syms (placeDangling a)"
proof (cases "as_dangling a")
  case None
  then show ?thesis using assms by (simp add: placeDangling_def)
next
  case (Some jc)
  obtain j c where jc: "jc = (j, c)" by (cases jc) auto
  have d: "cp" "j < length syms" "isTerminal (syms ! j)" "childlessComment c"
    using assms(1) Some jc by (auto simp: attachInv_def)
  have k: "kindOf (as_parent a) \<noteq> FunctionGroups"
    using assms by (auto simp: attachInv_def sameHead_def)
  have eg: "everyGroup (groupShape cb) (addChild (as_parent a) c)"
    using assms(1) k d(4) by (simp add: attachInv_def everyGroup_addChild childlessComment_everyGroup)
  have sf: "slotsFresh cb (addChild (as_parent a) c) syms
              ((as_slots a)[j := Direct (length (children (as_parent a)))])"
    using assms(1) d by (simp add: attachInv_def slotsFresh_addChild slotsFresh_update_terminal)
  show ?thesis
    using assms(1) eg sf by (simp add: placeDangling_def Some jc attachInv_def sameHead_def)
qed

lemma placeDangling_fields [simp]:
  "as_dangling (placeDangling a) = None"
  "as_isFirst (placeDangling a) = as_isFirst a"
  "as_lifted (placeDangling a) = as_lifted a"
  "length (as_slots (placeDangling a)) = length (as_slots a)"
  by (simp_all add: placeDangling_def split: option.splits prod.splits)

lemma flagIf_inv:
  "attachInv cb cp cf parent0 syms a \<Longrightarrow> attachInv cb cp cf parent0 syms (flagIf b a)"
  by (simp add: flagIf_def attachInv_def sameHead_def everyGroup_flag slotsFresh_flag)

lemma flagIf_fields [simp]:
  "as_dangling (flagIf b a) = as_dangling a"
  "as_isFirst (flagIf b a) = as_isFirst a"
  "as_lifted (flagIf b a) = as_lifted a"
  "as_slots (flagIf b a) = as_slots a"
  "children (as_parent (flagIf b a)) = children (as_parent a)"
  by (simp_all add: flagIf_def)

lemma inv_length: "attachInv cb cp cf parent0 syms a \<Longrightarrow> length (as_slots a) = length syms"
  by (simp add: attachInv_def slotsFresh_def)

lemma inv_kind:
  "attachInv cb cp cf parent0 syms a \<Longrightarrow> kindOf (as_parent a) = kindOf parent0"
  by (simp add: attachInv_def sameHead_def)

text \<open>The updates of the state at the end of the branches of \<open>attachNode\<close>.\<close>

lemma skip_inv:
  assumes "attachInv cb cp cf parent0 syms a" "isTerminal s \<or> s = FUNCTION_BODY"
  shows "attachInv cb cp cf parent0 (syms @ [s]) (a\<lparr>as_slots := as_slots a @ [AtParent]\<rparr>)"
    and "attachInv cb cp cf parent0 (syms @ [s])
           (a\<lparr>as_slots := as_slots a @ [AtParent], as_isFirst := False\<rparr>)"
proof -
  have sf: "slotsFresh cb (as_parent a) (syms @ [s]) (as_slots a @ [AtParent])"
  proof (cases "isTerminal s")
    case True
    then show ?thesis using assms(1) by (simp add: attachInv_def slotsFresh_terminal)
  next
    case False
    then have "s = FUNCTION_BODY" using assms(2) by simp
    then show ?thesis
      using assms(1) by (intro slotsFresh_new) (simp_all add: attachInv_def slotFresh_def)
  qed
  have dg: "case as_dangling a of None \<Rightarrow> True
            | Some (j, c) \<Rightarrow> cp \<and> j < length (syms @ [s]) \<and> isTerminal ((syms @ [s]) ! j)
                             \<and> childlessComment c"
    using assms(1) by (intro dangling_append) (simp add: attachInv_def)
  show "attachInv cb cp cf parent0 (syms @ [s]) (a\<lparr>as_slots := as_slots a @ [AtParent]\<rparr>)"
    using assms(1) sf dg by (simp add: attachInv_def)
  show "attachInv cb cp cf parent0 (syms @ [s])
           (a\<lparr>as_slots := as_slots a @ [AtParent], as_isFirst := False\<rparr>)"
    using assms(1) sf dg by (simp add: attachInv_def)
qed

lemma dangle_inv:
  assumes "attachInv cb cp cf parent0 syms a" "cp" "isTerminal s" "childlessComment ani"
  shows "attachInv cb cp cf parent0 (syms @ [s])
           (a\<lparr>as_dangling := Some (length (as_slots a), ani),
              as_slots := as_slots a @ [AtParent], as_isFirst := False\<rparr>)"
proof -
  have sf: "slotsFresh cb (as_parent a) (syms @ [s]) (as_slots a @ [AtParent])"
    using assms by (simp add: attachInv_def slotsFresh_terminal)
  show ?thesis
    using assms sf inv_length[OF assms(1)] by (simp add: attachInv_def)
qed

lemma lift_inv:
  assumes "attachInv cb cp cf parent0 syms a" "cf" "as_isFirst a" "isTerminal s"
    "childlessComment ani"
  shows "attachInv cb cp cf parent0 (syms @ [s])
           (a\<lparr>as_lifted := as_lifted a @ [ani],
              as_slots := as_slots a @ [Lifted (length (as_lifted a))], as_isFirst := False\<rparr>)"
proof -
  have sf: "slotsFresh cb (as_parent a) (syms @ [s]) (as_slots a @ [Lifted (length (as_lifted a))])"
    using assms by (simp add: attachInv_def slotsFresh_terminal)
  have e: "as_lifted a = []" using assms(1,3) by (auto simp: attachInv_def)
  have dg: "case as_dangling a of None \<Rightarrow> True
            | Some (j, c) \<Rightarrow> cp \<and> j < length (syms @ [s]) \<and> isTerminal ((syms @ [s]) ! j)
                             \<and> childlessComment c"
    using assms(1) by (intro dangling_append) (simp add: attachInv_def)
  show ?thesis
    using assms sf e dg by (simp add: attachInv_def)
qed

lemma direct_inv:
  assumes "attachInv cb cp cf parent0 syms a" "kindOf parent0 \<noteq> FunctionGroups"
    and "children ani = []" "kindOf ani \<noteq> FunctionGroups"
    and "isTerminal s \<or> (s \<noteq> FUNCTIONS \<and> s \<noteq> FUNCTION_BODY \<and> kindFor s = kindOf ani)"
  shows "attachInv cb cp cf parent0 (syms @ [s])
           (a\<lparr>as_parent := addChild (as_parent a) ani,
              as_slots := as_slots a @ [Direct (length (children (as_parent a)))],
              as_isFirst := False\<rparr>)"
proof -
  let ?p = "length (children (as_parent a))"
  have k: "kindOf (as_parent a) \<noteq> FunctionGroups" using assms(1,2) inv_kind by metis
  have eg: "everyGroup (groupShape cb) (addChild (as_parent a) ani)"
    using assms(1,3,4) k by (simp add: attachInv_def everyGroup_addChild everyGroup_childless)
  have sf: "slotsFresh cb (addChild (as_parent a) ani) (syms @ [s]) (as_slots a @ [Direct ?p])"
  proof (cases "isTerminal s")
    case True
    then show ?thesis
      using assms(1) by (simp add: attachInv_def slotsFresh_terminal slotsFresh_addChild)
  next
    case False
    then have s: "s \<noteq> FUNCTIONS" "s \<noteq> FUNCTION_BODY" "kindFor s = kindOf ani"
      using assms(5) by auto
    have "slotFresh cb (addChild (as_parent a) ani) s (Direct ?p)"
      using s assms(3) by (simp add: slotFresh_def)
    then show ?thesis
      using assms(1)
      by (intro slotsFresh_new[where parent = "as_parent a"])
         (simp_all add: attachInv_def slotFresh_addChild)
  qed
  have dg: "case as_dangling a of None \<Rightarrow> True
            | Some (j, c) \<Rightarrow> cp \<and> j < length (syms @ [s]) \<and> isTerminal ((syms @ [s]) ! j)
                             \<and> childlessComment c"
    using assms(1) by (intro dangling_append) (simp add: attachInv_def)
  show ?thesis
    using assms(1) eg sf dg by (simp add: attachInv_def sameHead_def)
qed

lemma group_alone_fresh:
  assumes "kindOf ani = Functions" "children ani = []"
  shows "groupFresh cb (asChild parent (addChild (newNode FunctionGroupsData r) ani)) 0"
    and "everyGroup (groupShape cb) (addChild (newNode FunctionGroupsData r) ani)"
proof -
  show "groupFresh cb (asChild parent (addChild (newNode FunctionGroupsData r) ani)) 0"
    using assms by (simp add: groupFresh_def groupShape_def)
  have "everyGroup (groupShape cb) (asChild (newNode FunctionGroupsData r) ani)"
    using assms by (simp add: everyGroup_childless)
  then show "everyGroup (groupShape cb) (addChild (newNode FunctionGroupsData r) ani)"
    using assms
    by (subst everyGroup_iff) (simp add: groupShape_def)
qed

lemma group_pair_fresh:
  assumes "kindOf ani = Functions" "children ani = []" "childlessComment c" "cb"
  shows "groupFresh cb
           (asChild parent (addChild (addChild (newNode FunctionGroupsData r) c) ani)) 1"
    and "everyGroup (groupShape cb) (addChild (addChild (newNode FunctionGroupsData r) c) ani)"
proof -
  show "groupFresh cb
          (asChild parent (addChild (addChild (newNode FunctionGroupsData r) c) ani)) 1"
    using assms by (simp add: groupFresh_def groupShape_def childlessComment_def)
  have a: "everyGroup (groupShape cb) ani"
    using assms by (simp add: everyGroup_childless)
  have b: "everyGroup (groupShape cb) c"
    using assms by (simp add: childlessComment_everyGroup)
  show "everyGroup (groupShape cb) (addChild (addChild (newNode FunctionGroupsData r) c) ani)"
    using assms a b
    by (subst everyGroup_iff) (simp add: groupShape_def childlessComment_def)
qed

lemma group_alone_inv:
  assumes "attachInv cb cp cf parent0 syms a" "kindOf parent0 \<noteq> FunctionGroups"
    and "kindOf ani = Functions" "children ani = []" "s = FUNCTIONS"
  shows "attachInv cb cp cf parent0 (syms @ [s])
           (a\<lparr>as_parent := addChild (as_parent a) (addChild (newNode FunctionGroupsData r) ani),
              as_slots := as_slots a @ [InGroup (length (children (as_parent a))) 0],
              as_isFirst := False\<rparr>)"
proof -
  let ?p = "length (children (as_parent a))"
  let ?g = "addChild (newNode FunctionGroupsData r) ani"
  have k: "kindOf (as_parent a) \<noteq> FunctionGroups" using assms(1,2) inv_kind by metis
  have eg: "everyGroup (groupShape cb) (addChild (as_parent a) ?g)"
    using assms(1) k group_alone_fresh(2)[OF assms(3,4)]
    by (simp add: attachInv_def everyGroup_addChild)
  have "slotFresh cb (addChild (as_parent a) ?g) s (InGroup ?p 0)"
    using group_alone_fresh(1)[OF assms(3,4)] assms(5) by (simp add: slotFresh_def)
  then have sf: "slotsFresh cb (addChild (as_parent a) ?g) (syms @ [s]) (as_slots a @ [InGroup ?p 0])"
    using assms(1)
    by (intro slotsFresh_new[where parent = "as_parent a"])
       (simp_all add: attachInv_def slotFresh_addChild)
  have dg: "case as_dangling a of None \<Rightarrow> True
            | Some (j, c) \<Rightarrow> cp \<and> j < length (syms @ [s]) \<and> isTerminal ((syms @ [s]) ! j)
                             \<and> childlessComment c"
    using assms(1) by (intro dangling_append) (simp add: attachInv_def)
  show ?thesis
    using assms(1) eg sf dg by (simp add: attachInv_def sameHead_def)
qed

lemma group_pair_inv:
  assumes "attachInv cb cp cf parent0 syms a" "kindOf parent0 \<noteq> FunctionGroups"
    and "kindOf ani = Functions" "children ani = []" "s = FUNCTIONS"
    and "as_dangling a = Some (j, c)" "cp \<longrightarrow> cb"
  shows "attachInv cb cp cf parent0 (syms @ [s])
           (a\<lparr>as_parent := addChild (as_parent a)
                               (addChild (addChild (newNode FunctionGroupsData r) c) ani),
              as_dangling := None,
              as_slots := (as_slots a)[j := InGroup (length (children (as_parent a))) 0]
                          @ [InGroup (length (children (as_parent a))) 1],
              as_isFirst := False\<rparr>)"
proof -
  let ?p = "length (children (as_parent a))"
  let ?g = "addChild (addChild (newNode FunctionGroupsData r) c) ani"
  have d: "cp" "j < length syms" "isTerminal (syms ! j)" "childlessComment c"
    using assms(1,6) by (auto simp: attachInv_def)
  have cb: "cb" using d(1) assms(7) by simp
  have k: "kindOf (as_parent a) \<noteq> FunctionGroups" using assms(1,2) inv_kind by metis
  have eg: "everyGroup (groupShape cb) (addChild (as_parent a) ?g)"
    using assms(1) k group_pair_fresh(2)[OF assms(3,4) d(4) cb]
    by (simp add: attachInv_def everyGroup_addChild)
  have s0: "slotsFresh cb (as_parent a) syms ((as_slots a)[j := InGroup ?p 0])"
    using assms(1) d by (simp add: attachInv_def slotsFresh_update_terminal)
  have "slotFresh cb (addChild (as_parent a) ?g) s (InGroup ?p 1)"
    using group_pair_fresh(1)[OF assms(3,4) d(4) cb] assms(5) by (simp add: slotFresh_def)
  then have sf: "slotsFresh cb (addChild (as_parent a) ?g) (syms @ [s])
                   ((as_slots a)[j := InGroup ?p 0] @ [InGroup ?p 1])"
    using s0
    by (intro slotsFresh_new[where parent = "as_parent a"]) (simp_all add: slotFresh_addChild)
  show ?thesis
    using assms(1) eg sf by (simp add: attachInv_def sameHead_def)
qed

lemma nodeFits_cases:
  assumes "nodeFits s (Some node)"
  shows "children node = []"
    and "kindOf node \<noteq> FunctionGroups"
    and "kindOf node = Comments \<Longrightarrow> isTerminal s"
    and "kindOf node = Functions \<Longrightarrow> s = FUNCTIONS"
    and "kindOf node \<noteq> Functions \<Longrightarrow> s \<noteq> FUNCTIONS \<and> s \<noteq> FUNCTION_BODY \<and> kindFor s = kindOf node"
  using assms by (cases s; simp add: nodeFits_def noNodeSymbol_def)+

lemma attachNode_inv:
  assumes inv: "attachInv cb cp cf parent0 syms a"
    and ng: "kindOf parent0 \<noteq> FunctionGroups"
    and fits: "nodeFits s (Some node)"
    and cpcb: "cp \<longrightarrow> cb"
    and res: "attachNode cp cf nt node a = Inr a'"
  shows "attachInv cb cp cf parent0 (syms @ [s]) a'"
proof -
  define b where "b = (nt = FUNCTION_BODY \<and> kindOf (as_parent a) = Functions
                       \<and> (kindOf node \<noteq> Comments \<or> \<not> cf \<or> \<not> isMultiLineOf node \<or> \<not> as_isFirst a))"
  define a0 where "a0 = flagIf b a"
  define a1 where "a1 = (if cp then placeDangling a0 else a0)"
  have i0: "attachInv cb cp cf parent0 syms a0" using inv by (simp add: a0_def flagIf_inv)
  have i1: "attachInv cb cp cf parent0 syms a1"
    using i0 placeDangling_inv[OF i0 ng] unfolding a1_def by (cases cp) simp_all
  have l0: "length (as_slots a0) = length (as_slots a)" by (simp add: a0_def)
  have l1: "length (as_slots a1) = length (as_slots a)" by (simp add: a1_def a0_def)
  have f1: "as_isFirst a1 = as_isFirst a" "as_lifted a1 = as_lifted a"
    by (simp_all add: a1_def a0_def)
  note nf = nodeFits_cases[OF fits]
  note res' = res[unfolded attachNode_def Let_def, folded b_def, folded a0_def, folded a1_def]
  show ?thesis
  proof (cases "kindOf node = Comments")
    case True
    have cc: "childlessComment node" using True nf(1) by (simp add: childlessComment_def)
    have ts: "isTerminal s" using nf(3) True by simp
    consider (dangle) "cp \<and> isMultiLineOf node"
      | (lift) "\<not> (cp \<and> isMultiLineOf node)" "cf \<and> isMultiLineOf node \<and> as_isFirst a1"
      | (direct) "\<not> (cp \<and> isMultiLineOf node)" "\<not> (cf \<and> isMultiLineOf node \<and> as_isFirst a1)"
      by blast
    then show ?thesis
    proof cases
      case dangle
      then have "a' = a1\<lparr>as_dangling := Some (length (as_slots a), node),
                          as_slots := as_slots a1 @ [AtParent], as_isFirst := False\<rparr>"
        using res' True by simp
      then show ?thesis using dangle_inv[OF i1 _ ts cc] dangle l1 by simp
    next
      case lift
      then have "a' = a1\<lparr>as_lifted := as_lifted a1 @ [node],
                          as_slots := as_slots a1 @ [Lifted (length (as_lifted a1))],
                          as_isFirst := False\<rparr>"
        using res' True by (auto split: option.splits)
      then show ?thesis using lift_inv[OF i1 _ _ ts cc] lift by simp
    next
      case direct
      then have "a' = a1\<lparr>as_parent := addChild (as_parent a1) node,
                          as_slots := as_slots a1 @ [Direct (length (children (as_parent a1)))],
                          as_isFirst := False\<rparr>"
        using res' True by auto
      then show ?thesis using direct_inv[OF i1 ng nf(1,2)] ts by simp
    qed
  next
    case notC: False
    show ?thesis
    proof (cases "kindOf node = Functions")
      case True
      have s: "s = FUNCTIONS" using nf(4) True by simp
      show ?thesis
      proof (cases "if cp then as_dangling a0 else None")
        case None
        then have "a' = a0\<lparr>as_parent := addChild (as_parent a0)
                                (addChild (newNode FunctionGroupsData (nodeRange node)) node),
                            as_slots := as_slots a0 @ [InGroup (length (children (as_parent a0))) 0],
                            as_isFirst := False\<rparr>"
          using res' True by simp
        then show ?thesis using group_alone_inv[OF i0 ng True nf(1) s] by simp
      next
        case (Some jc)
        obtain j c where jc: "jc = (j, c)" by (cases jc) auto
        have dg: "as_dangling a0 = Some (j, c)" using Some jc by (auto split: if_splits)
        from True Some jc obtain rangeUnion where
          "a' = a0\<lparr>as_parent := addChild (as_parent a0)
                       (addChild (addChild (newNode FunctionGroupsData rangeUnion) c) node),
                   as_dangling := None,
                   as_slots := (as_slots a0)[j := InGroup (length (children (as_parent a0))) 0]
                               @ [InGroup (length (children (as_parent a0))) 1],
                   as_isFirst := False\<rparr>"
          using res' by (auto split: sum.splits)
        then show ?thesis using group_pair_inv[OF i0 ng True nf(1) s dg cpcb] by simp
      qed
    next
      case False
      have "a' = a1\<lparr>as_parent := addChild (as_parent a1) node,
                     as_slots := as_slots a1 @ [Direct (length (children (as_parent a1)))],
                     as_isFirst := False\<rparr>"
        using res' notC False by simp
      then show ?thesis using direct_inv[OF i1 ng nf(1,2)] nf(5)[OF False] by simp
    qed
  qed
qed

lemma attachNodes_inv:
  assumes ng: "kindOf parent0 \<noteq> FunctionGroups" and cpcb: "cp \<longrightarrow> cb"
  shows "attachNodes cp cf nt zs a = Inr a' \<Longrightarrow> attachInv cb cp cf parent0 syms a
           \<Longrightarrow> \<forall>z \<in> set zs. nodeFits (fst z) (snd z)
           \<Longrightarrow> attachInv cb cp cf parent0 (syms @ map fst zs) a'"
proof (induction zs arbitrary: a syms)
  case Nil
  then show ?case by simp
next
  case (Cons z zs)
  obtain s ani where z: "z = (s, ani)" by (cases z) auto
  have fits: "nodeFits s ani" using Cons.prems(3) z by simp
  have rest: "\<forall>z \<in> set zs. nodeFits (fst z) (snd z)" using Cons.prems(3) by simp
  have goal: "attachInv cb cp cf parent0 ((syms @ [s]) @ map fst zs) a'"
  proof (cases "s = FILLER")
    case True
    then have r: "attachNodes cp cf nt zs (a\<lparr>as_slots := as_slots a @ [AtParent]\<rparr>) = Inr a'"
      using Cons.prems(1) z by simp
    have i: "attachInv cb cp cf parent0 (syms @ [s]) (a\<lparr>as_slots := as_slots a @ [AtParent]\<rparr>)"
      using skip_inv(1)[OF Cons.prems(2)] True by simp
    show ?thesis by (rule Cons.IH[OF r i rest])
  next
    case nf: False
    show ?thesis
    proof (cases "s = STATEMENTS_FILLER")
      case True
      let ?a = "flagIf (nt = FUNCTION_BODY \<and> kindOf (as_parent a) = Functions)
                  (a\<lparr>as_slots := as_slots a @ [AtParent], as_isFirst := False\<rparr>)"
      have r: "attachNodes cp cf nt zs ?a = Inr a'"
        using Cons.prems(1) z True by simp
      have "attachInv cb cp cf parent0 (syms @ [s])
              (a\<lparr>as_slots := as_slots a @ [AtParent], as_isFirst := False\<rparr>)"
        using skip_inv(2)[OF Cons.prems(2)] True by simp
      then have i: "attachInv cb cp cf parent0 (syms @ [s]) ?a" by (rule flagIf_inv)
      show ?thesis by (rule Cons.IH[OF r i rest])
    next
      case nsf: False
      show ?thesis
      proof (cases ani)
        case None
        then have "s = FUNCTION_BODY"
          using fits nf nsf by (simp add: nodeFits_def noNodeSymbol_def)
        then have i: "attachInv cb cp cf parent0 (syms @ [s]) (a\<lparr>as_slots := as_slots a @ [AtParent]\<rparr>)"
          using skip_inv(1)[OF Cons.prems(2)] by simp
        have r: "attachNodes cp cf nt zs (a\<lparr>as_slots := as_slots a @ [AtParent]\<rparr>) = Inr a'"
          using Cons.prems(1) z nf nsf None by simp
        show ?thesis by (rule Cons.IH[OF r i rest])
      next
        case (Some node)
        from Cons.prems(1) z nf nsf Some obtain a1 where
          a1: "attachNode cp cf nt node a = Inr a1" and r: "attachNodes cp cf nt zs a1 = Inr a'"
          by (auto split: sum.splits)
        have i: "attachInv cb cp cf parent0 (syms @ [s]) a1"
          using attachNode_inv[OF Cons.prems(2) ng _ cpcb a1] fits Some by simp
        show ?thesis by (rule Cons.IH[OF r i rest])
      qed
    qed
  qed
  then show ?case using z by simp
qed

lemma attachAll_inv:
  assumes res: "attachAll cb nt parent state childNodes = Inr a"
    and fits: "list_all2 nodeFits state childNodes"
    and ng: "kindOf parent \<noteq> FunctionGroups"
    and eg: "everyGroup (groupShape cb) parent"
  shows "attachInv cb (cb \<and> (nt = TOP_LEVEL \<or> nt = CLASSES)) (\<not> cb \<and> nt = FUNCTION_BODY)
           parent state a"
proof -
  let ?cp = "cb \<and> (nt = TOP_LEVEL \<or> nt = CLASSES)"
  let ?cf = "\<not> cb \<and> nt = FUNCTION_BODY"
  let ?a0 = "\<lparr>as_parent = parent, as_lifted = [], as_dangling = None, as_isFirst = True,
              as_slots = []\<rparr>"
  from res obtain a1 where
    a1: "attachNodes ?cp ?cf nt (zip state childNodes) ?a0 = Inr a1" and a: "a = placeDangling a1"
    by (auto simp: attachAll_def Let_def split: sum.splits)
  have i0: "attachInv cb ?cp ?cf parent [] ?a0"
    using eg by (simp add: attachInv_def slotsFresh_def)
  have len: "length state = length childNodes" using fits by (rule list_all2_lengthD)
  have z: "\<forall>z \<in> set (zip state childNodes). nodeFits (fst z) (snd z)"
    using fits by (auto simp: list_all2_iff)
  have "attachInv cb ?cp ?cf parent ([] @ map fst (zip state childNodes)) a1"
    using attachNodes_inv[OF ng _ a1 i0 z] by blast
  then have "attachInv cb ?cp ?cf parent state a1" using len by simp
  then show ?thesis using placeDangling_inv[OF _ ng] a by simp
qed

subsection \<open>The recursion\<close>

definition liftedOk :: "bool \<Rightarrow> Symbol \<Rightarrow> SyntaxNode list \<Rightarrow> bool" where
  "liftedOk cb nt lifted =
     ((\<forall>c \<in> set lifted. childlessComment c) \<and> length lifted \<le> 1
      \<and> (lifted \<noteq> [] \<longrightarrow> \<not> cb \<and> (nt = FUNCTIONS \<or> nt = FUNCTION_BODY)))"

definition recOk ::
  "bool \<Rightarrow> (Symbol \<Rightarrow> SyntaxNode \<Rightarrow> TokenRange \<Rightarrow> nat \<Rightarrow> 'd \<Rightarrow> error + (SyntaxNode \<times> SyntaxNode list \<times> 'd))
     \<Rightarrow> bool" where
  "recOk cb rec =
     (\<forall>nt parent r depth d parent' lifted d'.
        rec nt parent r depth d = Inr (parent', lifted, d') \<longrightarrow> kindOf parent \<noteq> FunctionGroups
        \<longrightarrow> everyGroup (groupShape cb) parent
        \<longrightarrow> sameHead parent parent' \<and> everyGroup (groupShape cb) parent' \<and> liftedOk cb nt lifted)"

lemma recOkD:
  assumes "recOk cb rec" "rec nt parent r depth d = Inr (parent', lifted, d')"
    "kindOf parent \<noteq> FunctionGroups" "everyGroup (groupShape cb) parent"
  shows "sameHead parent parent'" "everyGroup (groupShape cb) parent'" "liftedOk cb nt lifted"
  using assms unfolding recOk_def by blast+

lemma recurseAt_parent:
  assumes ok: "recOk cb rec"
    and res: "recurseAt rec symb AtParent r depth (parent, lifted, d) = Inr (parent', lifted', d')"
    and ng: "kindOf parent \<noteq> FunctionGroups" and eg: "everyGroup (groupShape cb) parent"
  shows "\<exists>up. lifted' = lifted @ up \<and> liftedOk cb symb up \<and> sameHead parent parent'
              \<and> everyGroup (groupShape cb) parent'"
proof -
  from res obtain up where r: "rec symb parent r depth d = Inr (parent', up, d')"
    and l: "lifted' = lifted @ up"
    by (auto simp: recurseAt_def split: sum.splits)
  show ?thesis using recOkD[OF ok r ng eg] l by blast
qed

lemma recurseAt_direct:
  assumes ok: "recOk cb rec"
    and res: "recurseAt rec symb (Direct p) r depth (parent, lifted, d) = Inr (parent', lifted', d')"
    and ng: "kindOf parent \<noteq> FunctionGroups" and eg: "everyGroup (groupShape cb) parent"
    and p: "p < length (children parent)"
    and x: "kindOf (children parent ! p) \<noteq> FunctionGroups"
    and s: "symb \<noteq> FUNCTIONS" "symb \<noteq> FUNCTION_BODY"
  shows "\<exists>y. children parent' = (children parent)[p := y] \<and> sameHead (children parent ! p) y"
    and "sameHead parent parent'" and "everyGroup (groupShape cb) parent'" and "lifted' = lifted"
proof -
  from res obtain y up where r: "rec symb (children parent ! p) r depth d = Inr (y, up, d')"
    and pp: "parent' = foldl addChild (replaceChild parent p y) up" and l: "lifted' = lifted"
    by (auto simp: recurseAt_def split: sum.splits)
  have ex: "everyGroup (groupShape cb) (children parent ! p)" using eg p by (rule everyGroup_child)
  note o = recOkD[OF ok r x ex]
  have "up = []" using o(3) s by (auto simp: liftedOk_def)
  then have pp': "parent' = replaceChild parent p y" using pp by simp
  show "\<exists>y. children parent' = (children parent)[p := y] \<and> sameHead (children parent ! p) y"
    using pp' o(1) by auto
  show "sameHead parent parent'" using pp' by (simp add: sameHead_def)
  show "everyGroup (groupShape cb) parent'"
    using pp' everyGroup_replaceChild[OF ng eg o(2)] by simp
  show "lifted' = lifted" by (rule l)
qed

lemma groupShape_kinds:
  assumes "groupShape cb cs" "c \<in> set cs"
  shows "kindOf c = Functions \<or> kindOf c = Comments"
proof -
  have "kindOf c \<in> set (map kindOf cs)" using assms(2) by simp
  then show ?thesis using assms(1) by (auto simp: groupShape_def)
qed

lemma groupShape_update:
  assumes "groupShape cb cs" "q < length cs" "sameHead (cs ! q) y"
  shows "groupShape cb (cs[q := y])"
proof -
  have "map kindOf (cs[q := y]) = map kindOf cs"
    using assms(2,3) by (simp add: map_update sameHead_def list_update_same_conv)
  moreover have "map siblingRank (cs[q := y]) = map siblingRank cs"
    using assms(2,3) by (simp add: map_update sameHead_def list_update_same_conv)
  ultimately show ?thesis using assms(1) by (simp add: groupShape_def)
qed

lemma recurseAt_group:
  assumes ok: "recOk cb rec"
    and res: "recurseAt rec FUNCTIONS (InGroup p q) r depth (parent, lifted, d)
                = Inr (parent', lifted', d')"
    and ng: "kindOf parent \<noteq> FunctionGroups" and eg: "everyGroup (groupShape cb) parent"
    and p: "p < length (children parent)"
    and g: "groupFresh cb (children parent ! p) q"
  shows "\<exists>y. children parent' = (children parent)[p := y]"
    and "sameHead parent parent'" and "everyGroup (groupShape cb) parent'" and "lifted' = lifted"
proof -
  let ?g = "children parent ! p"
  let ?f = "children ?g ! q"
  from res obtain y up where r: "rec FUNCTIONS ?f r depth d = Inr (y, up, d')"
    and pp: "parent' = replaceChild parent p (foldl addChild (replaceChild ?g q y) up)"
    and l: "lifted' = lifted"
    by (auto simp: recurseAt_def Let_def split: sum.splits)
  have gk: "kindOf ?g = FunctionGroups" and gs: "groupShape cb (children ?g)"
    and q: "q < length (children ?g)" and fk: "kindOf ?f = Functions"
    and gc: "\<forall>c \<in> set (children ?g). children c = []"
    and g1: "\<not> cb \<longrightarrow> length (children ?g) = 1"
    using g unfolding groupFresh_def by blast+
  have fin: "?f \<in> set (children ?g)" using q by simp
  have fc: "children ?f = []" using gc fin by blast
  have ef: "everyGroup (groupShape cb) ?f"
    using fc fk by (intro everyGroup_childless) simp_all
  have fng: "kindOf ?f \<noteq> FunctionGroups" using fk by simp
  note o = recOkD[OF ok r fng ef]
  let ?g1 = "replaceChild ?g q y"
  have s1: "groupShape cb (children ?g1)" using groupShape_update[OF gs q o(1)] by simp
  have all1: "\<forall>c \<in> set (children ?g1). everyGroup (groupShape cb) c"
  proof
    fix c assume "c \<in> set (children ?g1)"
    then have "c = y \<or> c \<in> set (children ?g)"
      using set_update_subset_insert[of "children ?g" q y] by auto
    then show "everyGroup (groupShape cb) c"
    proof
      assume "c = y" then show ?thesis using o(2) by simp
    next
      assume c: "c \<in> set (children ?g)"
      have k: "kindOf c \<noteq> FunctionGroups" using groupShape_kinds[OF gs c] by auto
      have "children c = []" using gc c by blast
      then show ?thesis using k by (rule everyGroup_childless)
    qed
  qed
  have e1: "everyGroup (groupShape cb) ?g1"
    using s1 all1 by (subst everyGroup_iff) simp
  have e2: "everyGroup (groupShape cb) (foldl addChild ?g1 up)"
  proof (cases up)
    case Nil
    then show ?thesis using e1 by simp
  next
    case (Cons c rest)
    have rest: "rest = []" using o(3) Cons by (simp add: liftedOk_def)
    have ncb: "\<not> cb" and cc: "childlessComment c" using o(3) Cons by (auto simp: liftedOk_def)
    have len: "length (children ?g) = 1" using g1 ncb by simp
    then have q0: "q = 0" using q by simp
    obtain f0 where cs: "children ?g = [f0]"
      using len by (cases "children ?g") auto
    have f0: "f0 = ?f" using cs q0 by simp
    have r0: "siblingRank f0 = 0" using gs cs by (simp add: groupShape_def)
    have yk: "kindOf y = Functions" "siblingRank y = 0"
      using o(1) fk r0 f0 by (simp_all add: sameHead_def)
    have ch: "children (addChild ?g1 c) = [y, asChild ?g1 c]" using cs q0 by simp
    have "groupShape cb (children (addChild ?g1 c))"
      using ch yk ncb cc cs q0 by (simp add: groupShape_def childlessComment_def)
    moreover have "\<forall>x \<in> set (children (addChild ?g1 c)). everyGroup (groupShape cb) x"
      using ch o(2) cc by (simp add: childlessComment_everyGroup)
    ultimately have "everyGroup (groupShape cb) (addChild ?g1 c)"
      by (subst everyGroup_iff) simp
    then show ?thesis using Cons rest by simp
  qed
  show "\<exists>y. children parent' = (children parent)[p := y]" using pp by auto
  show "sameHead parent parent'" using pp by (simp add: sameHead_def)
  show "everyGroup (groupShape cb) parent'"
    using pp everyGroup_replaceChild[OF ng eg e2] by simp
  show "lifted' = lifted" by (rule l)
qed

lemma slotFresh_update_other:
  assumes "slotFresh cb parent s slot" "children parent1 = (children parent)[p := y]"
    "slotPos slot \<noteq> Some p"
  shows "slotFresh cb parent1 s slot"
  using assms by (auto simp: slotFresh_def split: Slot.splits if_splits)

lemma recurseAll_ok:
  fixes syms :: "Symbol list" and slots :: "Slot list" and ranges :: "TokenRange option list"
  assumes ok: "recOk cb rec"
    and lens: "length slots = length syms" "length ranges = length syms"
    and nts: "\<forall>i < length syms. \<not> isTerminal (syms ! i) \<longrightarrow> syms ! i = CLASSES \<or> syms ! i = FUNCTIONS"
    and dist: "\<forall>i < length syms. \<forall>j < length syms.
            i \<noteq> j \<longrightarrow> \<not> isTerminal (syms ! i) \<longrightarrow> \<not> isTerminal (syms ! j)
            \<longrightarrow> slotPos (slots ! i) \<noteq> None \<longrightarrow> slotPos (slots ! i) \<noteq> slotPos (slots ! j)"
  shows "k \<le> length syms
     \<Longrightarrow> recurseAll rec depth (drop k (zip syms (zip slots ranges))) (parent, lifted, d)
           = Inr (parent', lifted', d')
     \<Longrightarrow> kindOf parent \<noteq> FunctionGroups \<Longrightarrow> everyGroup (groupShape cb) parent
     \<Longrightarrow> (\<forall>i. k \<le> i \<and> i < length syms \<and> \<not> isTerminal (syms ! i)
              \<longrightarrow> slotFresh cb parent (syms ! i) (slots ! i))
     \<Longrightarrow> sameHead parent parent' \<and> everyGroup (groupShape cb) parent' \<and> lifted' = lifted"
proof (induction "length syms - k" arbitrary: k parent d)
  case 0
  then have "drop k (zip syms (zip slots ranges)) = []" using lens by simp
  then show ?case using "0.prems"(2,4) by simp
next
  case (Suc m)
  let ?es = "zip syms (zip slots ranges)"
  have k: "k < length syms" using Suc.hyps(2) by simp
  have kl: "k < length ?es" using k lens by simp
  have dr: "drop k ?es = (syms ! k, slots ! k, ranges ! k) # drop (Suc k) ?es"
    using Cons_nth_drop_Suc[OF kl] k lens by simp
  have m: "m = length syms - Suc k" using Suc.hyps(2) by simp
  have sk: "Suc k \<le> length syms" using k by simp
  show ?case
  proof (cases "isTerminal (syms ! k)")
    case True
    then have r: "recurseAll rec depth (drop (Suc k) ?es) (parent, lifted, d) = Inr (parent', lifted', d')"
      using Suc.prems(2) dr by simp
    have f: "\<forall>i. Suc k \<le> i \<and> i < length syms \<and> \<not> isTerminal (syms ! i)
              \<longrightarrow> slotFresh cb parent (syms ! i) (slots ! i)"
      using Suc.prems(5) by auto
    show ?thesis by (rule Suc.hyps(1)[OF m sk r Suc.prems(3,4) f])
  next
    case False
    from Suc.prems(2) dr False obtain st1 where
      a: "recurseAt rec (syms ! k) (slots ! k) (the (ranges ! k)) depth (parent, lifted, d) = Inr st1"
      and r: "recurseAll rec depth (drop (Suc k) ?es) st1 = Inr (parent', lifted', d')"
      by (auto split: sum.splits)
    obtain parent1 lifted1 d1 where st1: "st1 = (parent1, lifted1, d1)" by (cases st1) auto
    have fr: "slotFresh cb parent (syms ! k) (slots ! k)" using Suc.prems(5) k False by simp
    have cases: "syms ! k = CLASSES \<or> syms ! k = FUNCTIONS" using nts k False by simp
    have step: "(\<exists>p y. slotPos (slots ! k) = Some p \<and> children parent1 = (children parent)[p := y])
                \<and> sameHead parent parent1 \<and> everyGroup (groupShape cb) parent1 \<and> lifted1 = lifted"
    proof (cases "syms ! k = FUNCTIONS")
      case True
      from fr True obtain p q where sl: "slots ! k = InGroup p q"
        and p: "p < length (children parent)" and g: "groupFresh cb (children parent ! p) q"
        by (auto simp: slotFresh_def split: Slot.splits)
      note ra = recurseAt_group[OF ok a[unfolded True sl st1] Suc.prems(3,4) p g]
      show ?thesis using ra sl by auto
    next
      case nf: False
      then have c: "syms ! k = CLASSES" using cases by simp
      from fr c obtain p where sl: "slots ! k = Direct p"
        and p: "p < length (children parent)" and x: "kindOf (children parent ! p) = Classes"
        by (auto simp: slotFresh_def split: Slot.splits)
      have xg: "kindOf (children parent ! p) \<noteq> FunctionGroups" using x by simp
      have s: "CLASSES \<noteq> FUNCTIONS" "CLASSES \<noteq> FUNCTION_BODY" by simp_all
      note ra = recurseAt_direct[OF ok a[unfolded c sl st1] Suc.prems(3,4) p xg s]
      show ?thesis using ra sl by auto
    qed
    then obtain p y where pos: "slotPos (slots ! k) = Some p"
      and ch: "children parent1 = (children parent)[p := y]"
      and sh: "sameHead parent parent1" and eg1: "everyGroup (groupShape cb) parent1"
      and l1: "lifted1 = lifted"
      by blast
    have ng1: "kindOf parent1 \<noteq> FunctionGroups" using sh Suc.prems(3) by (simp add: sameHead_def)
    have f: "\<forall>i. Suc k \<le> i \<and> i < length syms \<and> \<not> isTerminal (syms ! i)
              \<longrightarrow> slotFresh cb parent1 (syms ! i) (slots ! i)"
    proof (intro allI impI)
      fix i assume i: "Suc k \<le> i \<and> i < length syms \<and> \<not> isTerminal (syms ! i)"
      then have fi: "slotFresh cb parent (syms ! i) (slots ! i)" using Suc.prems(5) by simp
      have ki: "k \<noteq> i" using i by simp
      have il: "i < length syms" and it: "\<not> isTerminal (syms ! i)" using i by simp_all
      have pk: "slotPos (slots ! k) \<noteq> None" using pos by simp
      have "slotPos (slots ! k) \<noteq> slotPos (slots ! i)"
        using dist[rule_format, OF k il ki False it pk] .
      then have "slotPos (slots ! i) \<noteq> Some p" using pos by simp
      then show "slotFresh cb parent1 (syms ! i) (slots ! i)"
        using slotFresh_update_other[OF fi ch] by simp
    qed
    have "sameHead parent1 parent' \<and> everyGroup (groupShape cb) parent' \<and> lifted' = lifted"
      by (rule Suc.hyps(1)[OF m sk r[unfolded st1 l1] ng1 eg1 f])
    then show ?thesis using sh sameHead_trans by blast
  qed
qed

lemma recurseAll_terminals:
  "\<forall>e \<in> set es. isTerminal (fst e) \<Longrightarrow> recurseAll rec depth es st = Inr st"
  by (induction es) auto

lemma parseNonTerminalBody_ok:
  assumes wt: "wellTypedFactories lang" and ok: "recOk (isCommentBeforeFunction lang) rec"
  shows "recOk (isCommentBeforeFunction lang) (parseNonTerminalBody rec lang ctx)"
  unfolding recOk_def
proof (intro allI impI)
  fix nt parent r depth d parent' lifted d'
  let ?cb = "isCommentBeforeFunction lang"
  assume res: "parseNonTerminalBody rec lang ctx nt parent r depth d = Inr (parent', lifted, d')"
    and ng: "kindOf parent \<noteq> FunctionGroups" and eg: "everyGroup (groupShape ?cb) parent"
  from res obtain ps d1 u childNodes where
    pt: "partitionTokens lang ctx nt r depth d = Inr (ps, d1)"
    and va: "validateParsingState nt (ps_state ps) = Inr u"
    and ra: "resolveAll lang ctx
               (zip (ps_state ps) (zip (ps_symbolRange ps) (ps_nodeCreationInformation ps)))
             = Inr childNodes"
    by (auto simp: parseNonTerminalBody_def split: sum.splits prod.splits)
  note res' = res[unfolded parseNonTerminalBody_def pt va ra sum.case prod.case]
  have al: "psAligned ps" using partitionTokens_aligned[OF pt] .
  have mf: "map fst (zip (ps_state ps) (zip (ps_symbolRange ps) (ps_nodeCreationInformation ps)))
            = ps_state ps"
    using al by (simp add: psAligned_def)
  have fits: "list_all2 nodeFits (ps_state ps) childNodes"
    using resolveAll_fits[OF wt ra] mf by simp
  have lc: "length childNodes = length (ps_state ps)" using fits by (simp add: list_all2_lengthD)
  show "sameHead parent parent' \<and> everyGroup (groupShape ?cb) parent' \<and> liftedOk ?cb nt lifted"
  proof (cases "nt = FUNCTIONS")
    case True
    from validate_functions[OF va[unfolded True]] obtain f l where
      g: "getFirstLast (ps_state ps) = (Some f, Some l)" and f: "f < length (ps_state ps)"
      and sf: "ps_state ps ! f = FUNCTION_DECLARATION"
      by blast
    have "nodeFits (ps_state ps ! f) (childNodes ! f)"
      using fits f by (simp add: list_all2_nthD)
    then obtain decl where dn: "childNodes ! f = Some decl" and dk: "kindOf decl = FunctionDeclaration"
      and dc: "children decl = []"
      using sf by (cases "childNodes ! f") (auto simp: nodeFits_def noNodeSymbol_def)
    from res' True g dn obtain st where
      a: "recurseAt rec FUNCTION_DECLARATION (Direct (length (children parent)))
            (the (ps_ntParseRange ps ! f)) (Suc depth) (addChild parent decl, [], d1) = Inr st"
      and b: "recurseAt rec FUNCTION_BODY AtParent (the (ps_ntParseRange ps ! l)) (Suc depth) st
              = Inr (parent', lifted, d')"
      by (auto split: sum.splits)
    obtain parent2 lifted2 d2 where st: "st = (parent2, lifted2, d2)" by (cases st) auto
    have ng1: "kindOf (addChild parent decl) \<noteq> FunctionGroups" using ng by simp
    have eg1: "everyGroup (groupShape ?cb) (addChild parent decl)"
      using ng eg everyGroup_childless[of decl "groupShape ?cb"] dk dc
      by (intro everyGroup_addChild) simp_all
    have p: "length (children parent) < length (children (addChild parent decl))" by simp
    have x: "kindOf (children (addChild parent decl) ! length (children parent)) \<noteq> FunctionGroups"
      using dk by simp
    have s: "FUNCTION_DECLARATION \<noteq> FUNCTIONS" "FUNCTION_DECLARATION \<noteq> FUNCTION_BODY" by simp_all
    note r1 = recurseAt_direct[OF ok a[unfolded st] ng1 eg1 p x s]
    have ng2: "kindOf parent2 \<noteq> FunctionGroups" using r1(2) ng by (simp add: sameHead_def)
    from recurseAt_parent[OF ok b[unfolded st] ng2 r1(3)] obtain up where
      up: "lifted = lifted2 @ up" "liftedOk ?cb FUNCTION_BODY up" "sameHead parent2 parent'"
        "everyGroup (groupShape ?cb) parent'"
      by blast
    have "sameHead parent parent2" using r1(2) by (simp add: sameHead_def)
    then have "sameHead parent parent'" using up(3) sameHead_trans by blast
    moreover have "liftedOk ?cb nt lifted"
      using up(1,2) r1(4) True by (simp add: liftedOk_def)
    ultimately show ?thesis using up(4) by simp
  next
    case False
    let ?cp = "?cb \<and> (nt = TOP_LEVEL \<or> nt = CLASSES)"
    let ?cf = "\<not> ?cb \<and> nt = FUNCTION_BODY"
    from res' False obtain a where
      at: "attachAll ?cb nt parent (ps_state ps) childNodes = Inr a"
      and rc: "recurseAll rec (Suc depth)
                 (zip (ps_state ps) (zip (as_slots a) (ps_ntParseRange ps)))
                 (as_parent a, as_lifted a, d1) = Inr (parent', lifted, d')"
      by (auto split: sum.splits)
    note inv = attachAll_inv[OF at fits ng eg]
    have sh: "sameHead parent (as_parent a)" and ega: "everyGroup (groupShape ?cb) (as_parent a)"
      and sl: "slotsFresh ?cb (as_parent a) (ps_state ps) (as_slots a)"
      and lf: "\<forall>c \<in> set (as_lifted a). childlessComment c" "length (as_lifted a) \<le> 1"
        "as_lifted a \<noteq> [] \<longrightarrow> ?cf \<and> \<not> as_isFirst a"
      using inv unfolding attachInv_def by blast+
    have nga: "kindOf (as_parent a) \<noteq> FunctionGroups" using sh ng by (simp add: sameHead_def)
    have nts: "\<forall>i < length (ps_state ps). \<not> isTerminal (ps_state ps ! i)
                 \<longrightarrow> ps_state ps ! i = CLASSES \<or> ps_state ps ! i = FUNCTIONS"
    proof (intro allI impI)
      fix i assume i: "i < length (ps_state ps)" and t: "\<not> isTerminal (ps_state ps ! i)"
      have m: "ps_state ps ! i \<in> set (ps_state ps)" using i by simp
      show "ps_state ps ! i = CLASSES \<or> ps_state ps ! i = FUNCTIONS"
      proof (cases nt)
        case TOP_LEVEL
        then show ?thesis using validate_topLevel[OF va[unfolded TOP_LEVEL] m t] by simp
      next
        case CLASSES
        then show ?thesis using validate_classes[OF va[unfolded CLASSES] m t] by simp
      next
        case FUNCTIONS
        then show ?thesis using False by simp
      next
        case FUNCTION_DECLARATION
        then show ?thesis using validate_declaration[OF va[unfolded FUNCTION_DECLARATION] m] t by simp
      next
        case FUNCTION_BODY
        then show ?thesis using validate_body[OF va[unfolded FUNCTION_BODY] m] t by simp
      qed (use va validate_terminal[of nt "ps_state ps" u] in simp_all)
    qed
    have l1: "length (as_slots a) = length (ps_state ps)" using sl by (simp add: slotsFresh_def)
    have l2: "length (ps_ntParseRange ps) = length (ps_state ps)" using al by (simp add: psAligned_def)
    have dist: "\<forall>i < length (ps_state ps). \<forall>j < length (ps_state ps).
            i \<noteq> j \<longrightarrow> \<not> isTerminal (ps_state ps ! i) \<longrightarrow> \<not> isTerminal (ps_state ps ! j)
            \<longrightarrow> slotPos (as_slots a ! i) \<noteq> None
            \<longrightarrow> slotPos (as_slots a ! i) \<noteq> slotPos (as_slots a ! j)"
      using sl unfolding slotsFresh_def by blast
    have fr: "\<forall>i. 0 \<le> i \<and> i < length (ps_state ps) \<and> \<not> isTerminal (ps_state ps ! i)
              \<longrightarrow> slotFresh ?cb (as_parent a) (ps_state ps ! i) (as_slots a ! i)"
      using sl unfolding slotsFresh_def by blast
    have rc0: "recurseAll rec (Suc depth)
                 (drop 0 (zip (ps_state ps) (zip (as_slots a) (ps_ntParseRange ps))))
                 (as_parent a, as_lifted a, d1) = Inr (parent', lifted, d')"
      using rc by simp
    have z: "(0::nat) \<le> length (ps_state ps)" by simp
    note ro = recurseAll_ok[OF ok l1 l2 nts dist z rc0 nga ega fr]
    have "liftedOk ?cb nt (as_lifted a)" using lf by (auto simp: liftedOk_def)
    then show ?thesis using ro sh sameHead_trans by blast
  qed
qed

lemma parseNonTerminal_ok:
  assumes "wellTypedFactories lang"
  shows "recOk (isCommentBeforeFunction lang) (parseNonTerminal n lang ctx)"
proof (induction n)
  case 0
  show ?case by (simp add: recOk_def)
next
  case (Suc n)
  have "parseNonTerminal (Suc n) lang ctx = parseNonTerminalBody (parseNonTerminal n lang ctx) lang ctx"
    by (intro ext) simp
  then show ?case using parseNonTerminalBody_ok[OF assms Suc.IH] by simp
qed

lemma parse_groups:
  assumes "wellTypedFactories lang" "parse lang codeLines = Inr t"
  shows "everyGroup (groupShape (isCommentBeforeFunction lang)) (root t)"
proof -
  from assms(2) obtain toks d up d' where
    p: "parseNonTerminal 4 lang (newContext codeLines toks) TOP_LEVEL
          (newNode TopLevelData (getMaxRange codeLines))
          \<lparr>startTok = 0, endTok = int (length toks)\<rparr> 0 d = Inr (root t, up, d')"
    by (auto simp: parse_def Let_def split: if_splits sum.splits prod.splits)
  have ng: "kindOf (newNode TopLevelData (getMaxRange codeLines)) \<noteq> FunctionGroups" by simp
  have eg: "everyGroup (groupShape (isCommentBeforeFunction lang))
              (newNode TopLevelData (getMaxRange codeLines))"
    by (rule everyGroup_childless) simp_all
  show ?thesis using recOkD(2)[OF parseNonTerminal_ok[OF assms(1)] p ng eg] .
qed

lemma factories_fresh:
  "freshOfKind Argument (createArgumentNode_impl rng info)"
  "freshOfKind Attributes (createAttributesNode_impl rng info)"
  "freshOfKind Comments (createCommentsNode_impl rng ml info)"
  "freshOfKind References (createReferencesNode_impl rng info)"
  "freshOfKind Classes (createClassesNode_impl rng info)"
  "freshOfKind Functions (createFunctionsNode_impl rng info)"
  "freshOfKind FunctionDeclaration (createFunctionDeclarationNode_impl rng info)"
  by (auto simp: freshOfKind_def createArgumentNode_impl_def createAttributesNode_impl_def
      createCommentsNode_impl_def createReferencesNode_impl_def createClassesNode_impl_def
      createFunctionsNode_impl_def createFunctionDeclarationNode_impl_def noInformation_def
      overrideInnerRange_def kindOf_def newNode_def
      split: option.splits NodeInfo.splits sum.splits if_splits)

lemma PythonLanguage_wellTyped: "wellTypedFactories PythonLanguage"
  by (simp add: wellTypedFactories_def PythonLanguage_def factories_fresh)

text \<open>
  A Python function whose body starts with a doc comment, and the tree that \<open>parse\<close>
  returns for it.
\<close>

definition docstringSource :: "string list" where
  "docstringSource = [''def f():'', ''    \"\"\"doc\"\"\"'', ''    return 1'']"

definition docstringTree :: SyntaxNode where
  "docstringTree =
     SyntaxNode TopLevelData
       \<lparr>start_line = 0, start_character = 0, end_line = 3, end_character = 0\<rparr> None 0 None
       [SyntaxNode FunctionGroupsData
          \<lparr>start_line = 0, start_character = 0, end_line = 2, end_character = 12\<rparr>
          None 0 (Some TopLevel)
          [SyntaxNode (FunctionsData ''def f()'' True)
             \<lparr>start_line = 0, start_character = 0, end_line = 2, end_character = 12\<rparr>
             (Some \<lparr>start_line = 0, start_character = 8, end_line = 2, end_character = 12\<rparr>)
             0 (Some FunctionGroups)
             [SyntaxNode (FunctionDeclarationData ''f'' None)
                \<lparr>start_line = 0, start_character = 0, end_line = 0, end_character = 8\<rparr>
                None 0 (Some Functions) []],
           SyntaxNode (CommentsData True ''doc'')
             \<lparr>start_line = 1, start_character = 4, end_line = 1, end_character = 13\<rparr>
             None 1 (Some FunctionGroups) []]]"

text \<open>
  Claim C3 on a Python function with a doc comment. The comment is moved out of the
  function body after the \<open>Functions\<close> node was put into the group, so the group is the
  function (rank 0) followed by the comment (rank 1), not a comment followed by the
  function.
\<close>

theorem function_groups_shape_counterexample:
  "parse PythonLanguage docstringSource
     = Inr \<lparr>root = docstringTree, ast_sourceLines = docstringSource\<rparr>
   \<and> \<not> everyGroup specGroupShape docstringTree"
  by code_simp

text \<open>
  Claim C3, amended. For every language whose factories return nodes of their classes,
  after every successful parse every \<open>FunctionGroups\<close> node has ranks counting from 0 and
  is one \<open>Functions\<close> child, or, when comments come before functions (TypeScript), a
  \<open>Comments\<close> child followed by a \<open>Functions\<close> child, or, when the comment is the first
  statement of the body (Python), a \<open>Functions\<close> child followed by a \<open>Comments\<close> child.
\<close>

theorem function_groups_shape:
  assumes "wellTypedFactories lang" and "parse lang codeLines = Inr t"
  shows "everyGroup (groupShape (isCommentBeforeFunction lang)) (root t)"
  using assms by (rule parse_groups)

theorem function_groups_shape_witness:
  "wellTypedFactories PythonLanguage
   \<and> parse PythonLanguage docstringSource
       = Inr \<lparr>root = docstringTree, ast_sourceLines = docstringSource\<rparr>
   \<and> everyGroup (groupShape False) docstringTree"
proof -
  have p: "parse PythonLanguage docstringSource
             = Inr \<lparr>root = docstringTree, ast_sourceLines = docstringSource\<rparr>"
    by code_simp
  show ?thesis
    using function_groups_shape[OF PythonLanguage_wellTyped p] PythonLanguage_wellTyped p
    by (simp add: PythonLanguage_def)
qed

end
